(* ===== verification/Chat_Prelude.thy ===== *)
theory Chat_Prelude
  imports Main "HOL-Library.Word" "HOL-Library.AList" "HOL-Library.Multiset"
begin

text \<open>
  Shared vocabulary of the development: the error values of the C++ code, the state-and-exception
  computations in which every stateful function of the server is written, the association lists
  that stand for \<^verbatim>\<open>std::unordered_map\<close> and \<^verbatim>\<open>std::map\<close>, and the generic lemmas on them.

  A computation \<open>m\<close> of type \<open>('s, 'a) M\<close> takes the state and returns either an uncaught C++
  exception (or a null dereference) on the left or a result on the right, together with the new
  state. The state survives an exception, as it does in the source when a \<^verbatim>\<open>catch (...)\<close>
  swallows it.
\<close>

named_theorems M_simps \<open>running the computation combinators\<close>
named_theorems pres_intros \<open>preservation of an invariant, rule by rule\<close>
named_theorems um_simps \<open>lookups in updated unordered maps\<close>

subsection \<open>Errors and computations\<close>

datatype exn =
    Invalid_argument \<comment> \<open>\<^verbatim>\<open>std::invalid_argument\<close>, from \<^verbatim>\<open>std::stoi\<close> on a non-number\<close>
  | Out_of_range \<comment> \<open>\<^verbatim>\<open>std::out_of_range\<close>, from \<^verbatim>\<open>std::stoi\<close> on a number beyond the type\<close>
  | Null_deref \<comment> \<open>a null pointer is used\<close>

type_synonym 'a res = "exn + 'a"
type_synonym ('s, 'a) M = "'s \<Rightarrow> 'a res \<times> 's"

definition retE :: "'a \<Rightarrow> ('s, 'a) M" where
  "retE x = (\<lambda>s. (Inr x, s))"

definition throwE :: "exn \<Rightarrow> ('s, 'a) M" where
  "throwE e = (\<lambda>s. (Inl e, s))"

definition liftE :: "'a res \<Rightarrow> ('s, 'a) M" where
  "liftE r = (\<lambda>s. (r, s))"

definition bindE :: "('s, 'a) M \<Rightarrow> ('a \<Rightarrow> ('s, 'b) M) \<Rightarrow> ('s, 'b) M" where
  "bindE m f = (\<lambda>s. case m s of (Inl e, s') \<Rightarrow> (Inl e, s') | (Inr a, s') \<Rightarrow> f a s')"

definition seqE :: "('s, 'a) M \<Rightarrow> ('s, 'b) M \<Rightarrow> ('s, 'b) M" where
  "seqE m n = bindE m (\<lambda>_. n)"

definition getsE :: "('s \<Rightarrow> 'a) \<Rightarrow> ('s, 'a) M" where
  "getsE f = (\<lambda>s. (Inr (f s), s))"

definition modifyE :: "('s \<Rightarrow> 's) \<Rightarrow> ('s, unit) M" where
  "modifyE f = (\<lambda>s. (Inr (), f s))"

text \<open>\<^verbatim>\<open>try { m } catch (...) {}\<close>: the exception is dropped, the state changes stay.\<close>

definition catch_all :: "('s, unit) M \<Rightarrow> ('s, unit) M" where
  "catch_all m = (\<lambda>s. (Inr (), snd (m s)))"

text \<open>\<^verbatim>\<open>for (auto x : xs) f(x)\<close>.\<close>

fun forE :: "'x list \<Rightarrow> ('x \<Rightarrow> ('s, unit) M) \<Rightarrow> ('s, unit) M" where
  "forE [] f = retE ()"
| "forE (x # xs) f = seqE (f x) (forE xs f)"

text \<open>Loops that build a vector, and their pure form on results.\<close>

fun mapE :: "('x \<Rightarrow> ('s, 'a) M) \<Rightarrow> 'x list \<Rightarrow> ('s, 'a list) M" where
  "mapE f [] = retE []"
| "mapE f (x # xs) = bindE (f x) (\<lambda>y. bindE (mapE f xs) (\<lambda>ys. retE (y # ys)))"

definition bindS :: "'a res \<Rightarrow> ('a \<Rightarrow> 'b res) \<Rightarrow> 'b res" where
  "bindS r f = (case r of Inl e \<Rightarrow> Inl e | Inr a \<Rightarrow> f a)"

fun mapS :: "('x \<Rightarrow> 'a res) \<Rightarrow> 'x list \<Rightarrow> 'a list res" where
  "mapS f [] = Inr []"
| "mapS f (x # xs) = bindS (f x) (\<lambda>y. bindS (mapS f xs) (\<lambda>ys. Inr (y # ys)))"

lemma run_retE [simp, M_simps]: "retE x s = (Inr x, s)"
  by (simp add: retE_def)

lemma run_throwE [simp, M_simps]: "throwE e s = (Inl e, s)"
  by (simp add: throwE_def)

lemma run_liftE [simp, M_simps]: "liftE r s = (r, s)"
  by (simp add: liftE_def)

lemma run_getsE [simp, M_simps]: "getsE f s = (Inr (f s), s)"
  by (simp add: getsE_def)

lemma run_modifyE [simp, M_simps]: "modifyE f s = (Inr (), f s)"
  by (simp add: modifyE_def)

lemma run_catch_all [simp, M_simps]: "catch_all m s = (Inr (), snd (m s))"
  by (simp add: catch_all_def)

lemma run_bindE_Inr [simp, M_simps]: "m s = (Inr a, s') \<Longrightarrow> bindE m f s = f a s'"
  by (simp add: bindE_def)

lemma run_bindE_Inl [simp, M_simps]: "m s = (Inl e, s') \<Longrightarrow> bindE m f s = (Inl e, s')"
  by (simp add: bindE_def)

lemma run_seqE_Inr [simp, M_simps]: "m s = (Inr a, s') \<Longrightarrow> seqE m n s = n s'"
  by (simp add: seqE_def)

lemma run_seqE_Inl [simp, M_simps]: "m s = (Inl e, s') \<Longrightarrow> seqE m n s = (Inl e, s')"
  by (simp add: seqE_def)

lemma bindS_simps [simp]:
  "bindS (Inl e) f = Inl e"
  "bindS (Inr a) f = f a"
  by (simp_all add: bindS_def)

lemma bindE_Inr_iff:
  "bindE m f s = (Inr b, t) \<longleftrightarrow> (\<exists>a s'. m s = (Inr a, s') \<and> f a s' = (Inr b, t))"
  by (auto simp: bindE_def split: prod.splits sum.splits)

lemma seqE_Inr_iff:
  "seqE m n s = (Inr b, t) \<longleftrightarrow> (\<exists>a s'. m s = (Inr a, s') \<and> n s' = (Inr b, t))"
  by (simp add: seqE_def bindE_Inr_iff)

lemma snd_bind_ret [simp]: "snd (bindE m (\<lambda>x. retE (f x)) s) = snd (m s)"
  by (auto simp: bindE_def split: prod.split sum.split)

lemma snd_seq_ret [simp]: "snd (seqE m (retE x) s) = snd (m s)"
  by (simp add: seqE_def)

subsection \<open>Invariants of computations\<close>

text \<open>
  \<open>pres I m\<close>: running \<open>m\<close> from a state that satisfies \<open>I\<close> ends in one that does, whether or
  not an exception is thrown. The rules follow the structure of a computation, so an invariant of a
  whole handler is proved by applying them to its body.
\<close>

definition pres :: "('s \<Rightarrow> bool) \<Rightarrow> ('s, 'a) M \<Rightarrow> bool" where
  "pres I m \<longleftrightarrow> (\<forall>s. I s \<longrightarrow> I (snd (m s)))"

lemma presI: "(\<And>s. I s \<Longrightarrow> I (snd (m s))) \<Longrightarrow> pres I m"
  by (simp add: pres_def)

lemma presD: "pres I m \<Longrightarrow> I s \<Longrightarrow> I (snd (m s))"
  by (simp add: pres_def)

lemma pres_retE [pres_intros]: "pres I (retE x)"
  by (simp add: pres_def)

lemma pres_throwE [pres_intros]: "pres I (throwE e)"
  by (simp add: pres_def)

lemma pres_liftE [pres_intros]: "pres I (liftE r)"
  by (simp add: pres_def)

lemma pres_getsE [pres_intros]: "pres I (getsE f)"
  by (simp add: pres_def)

lemma pres_modifyE: "(\<And>s. I s \<Longrightarrow> I (f s)) \<Longrightarrow> pres I (modifyE f)"
  by (simp add: pres_def)

lemma pres_bindE [pres_intros]:
  assumes "pres I m" and "\<And>a. pres I (f a)"
  shows "pres I (bindE m f)"
proof (rule presI)
  fix s
  assume "I s"
  with assms(1) have *: "I (snd (m s))" by (rule presD)
  show "I (snd (bindE m f s))"
  proof (cases "fst (m s)")
    case (Inl e)
    with * show ?thesis by (cases "m s") simp
  next
    case (Inr a)
    from assms(2) * have "I (snd (f a (snd (m s))))" by (rule presD)
    with Inr show ?thesis by (cases "m s") simp
  qed
qed

lemma pres_seqE [pres_intros]: "pres I m \<Longrightarrow> pres I n \<Longrightarrow> pres I (seqE m n)"
  by (simp add: seqE_def pres_bindE)

lemma pres_catch_all [pres_intros]: "pres I m \<Longrightarrow> pres I (catch_all m)"
  by (simp add: pres_def)

lemma pres_forE [pres_intros]: "(\<And>x. x \<in> set xs \<Longrightarrow> pres I (f x)) \<Longrightarrow> pres I (forE xs f)"
  by (induction xs) (auto intro: pres_intros)

lemma pres_mapE [pres_intros]: "(\<And>x. x \<in> set xs \<Longrightarrow> pres I (f x)) \<Longrightarrow> pres I (mapE f xs)"
  by (induction xs) (auto intro: pres_intros)

lemma pres_if [pres_intros]:
  "(b \<Longrightarrow> pres I m) \<Longrightarrow> (\<not> b \<Longrightarrow> pres I n) \<Longrightarrow> pres I (if b then m else n)"
  by simp

lemma pres_case_option [pres_intros]:
  "(x = None \<Longrightarrow> pres I m) \<Longrightarrow> (\<And>a. x = Some a \<Longrightarrow> pres I (n a)) \<Longrightarrow>
   pres I (case x of None \<Rightarrow> m | Some a \<Rightarrow> n a)"
  by (cases x) simp_all

lemma pres_Let [pres_intros]: "(\<And>x. x = a \<Longrightarrow> pres I (f x)) \<Longrightarrow> pres I (let x = a in f x)"
  by simp

text \<open>A computation whose every step depends on the state it starts in.\<close>

lemma pres_gets_bindE:
  assumes "\<And>s. I s \<Longrightarrow> I (snd (f (g s) s))"
  shows "pres I (bindE (getsE g) f)"
  using assms by (simp add: pres_def)

subsection \<open>Unordered maps as association lists\<close>

text \<open>
  A \<^verbatim>\<open>std::unordered_map\<close> is an association list with distinct keys. The order in which a loop
  visits it is not the list's order but a permutation of it, given by the environment (see the
  field \<open>iter_ids\<close> of the environment record), so no theorem rests on the list's order.
\<close>

type_synonym ('k, 'v) umap = "('k \<times> 'v) list"

abbreviation um_get :: "('k, 'v) umap \<Rightarrow> 'k \<Rightarrow> 'v option" where
  "um_get \<equiv> map_of"

abbreviation um_put :: "'k \<Rightarrow> 'v \<Rightarrow> ('k, 'v) umap \<Rightarrow> ('k, 'v) umap" where
  "um_put \<equiv> AList.update"

abbreviation um_erase :: "'k \<Rightarrow> ('k, 'v) umap \<Rightarrow> ('k, 'v) umap" where
  "um_erase \<equiv> AList.delete"

abbreviation um_keys :: "('k, 'v) umap \<Rightarrow> 'k list" where
  "um_keys m \<equiv> map fst m"

definition um_count :: "('k, 'v) umap \<Rightarrow> 'k \<Rightarrow> bool" where
  "um_count m k = (um_get m k \<noteq> None)"

text \<open>\<^verbatim>\<open>m[k]\<close> read as a value: the stored value, or a value-initialised one.\<close>

definition um_at :: "'v \<Rightarrow> ('k, 'v) umap \<Rightarrow> 'k \<Rightarrow> 'v" where
  "um_at d m k = (case um_get m k of None \<Rightarrow> d | Some v \<Rightarrow> v)"

text \<open>The effect of \<^verbatim>\<open>m[k]\<close> on the map: a missing key is inserted with the default value.\<close>

definition um_touch :: "'v \<Rightarrow> 'k \<Rightarrow> ('k, 'v) umap \<Rightarrow> ('k, 'v) umap" where
  "um_touch d k m = (if um_count m k then m else um_put k d m)"

definition um_ok :: "('k, 'v) umap \<Rightarrow> bool" where
  "um_ok m = distinct (um_keys m)"

lemma um_get_put [simp, um_simps]: "um_get (um_put k v m) k' = (if k' = k then Some v else um_get m k')"
  by (simp add: update_conv')

lemma um_get_erase [simp, um_simps]: "um_get (um_erase k m) k' = (if k' = k then None else um_get m k')"
  by (simp add: delete_conv')

lemma um_count_put [simp, um_simps]: "um_count (um_put k v m) k' = (k' = k \<or> um_count m k')"
  by (simp add: um_count_def)

lemma um_count_erase [simp, um_simps]: "um_count (um_erase k m) k' = (k' \<noteq> k \<and> um_count m k')"
  by (simp add: um_count_def)

lemma um_count_Nil [simp]: "\<not> um_count [] k"
  by (simp add: um_count_def)

lemma um_at_Nil [simp]: "um_at d [] k = d"
  by (simp add: um_at_def)

lemma um_at_put [simp, um_simps]: "um_at d (um_put k v m) k' = (if k' = k then v else um_at d m k')"
  by (simp add: um_at_def)

lemma um_at_erase [simp, um_simps]: "um_at d (um_erase k m) k' = (if k' = k then d else um_at d m k')"
  by (simp add: um_at_def)

lemma um_at_touch [simp, um_simps]: "um_at d (um_touch d k m) k' = um_at d m k'"
  by (simp add: um_touch_def um_at_def um_count_def)

lemma um_get_touch [um_simps]:
  "um_get (um_touch d k m) k' = (if k' = k \<and> um_get m k = None then Some d else um_get m k')"
  by (simp add: um_touch_def um_count_def)

lemma um_count_iff_key: "um_count m k \<longleftrightarrow> k \<in> set (um_keys m)"
  by (simp add: um_count_def map_of_eq_None_iff)

lemma um_get_SomeD_key: "um_get m k = Some v \<Longrightarrow> k \<in> set (um_keys m)"
  by (metis um_count_def um_count_iff_key option.discI)

lemma um_ok_Nil [simp]: "um_ok []"
  by (simp add: um_ok_def)

lemma um_ok_put [simp, intro]: "um_ok m \<Longrightarrow> um_ok (um_put k v m)"
  by (simp add: um_ok_def distinct_update)

lemma um_ok_erase [simp, intro]: "um_ok m \<Longrightarrow> um_ok (um_erase k m)"
  by (simp add: um_ok_def distinct_delete)

lemma um_ok_touch [simp, intro]: "um_ok m \<Longrightarrow> um_ok (um_touch d k m)"
  by (simp add: um_touch_def)

lemma um_key_put [simp]: "set (um_keys (um_put k v m)) = insert k (set (um_keys m))"
  by (simp add: dom_update)

lemma um_key_erase [simp]: "set (um_keys (um_erase k m)) = set (um_keys m) - {k}"
  by (simp add: delete_keys)

text \<open>
  The interface the components use, and its implementation by association lists: a client of an
  unordered map relies on these laws only.
\<close>

locale unordered_map =
  fixes put :: "'k \<Rightarrow> 'v \<Rightarrow> 'm \<Rightarrow> 'm"
    and erase :: "'k \<Rightarrow> 'm \<Rightarrow> 'm"
    and get :: "'m \<Rightarrow> 'k \<Rightarrow> 'v option"
    and keys :: "'m \<Rightarrow> 'k list"
    and ok :: "'m \<Rightarrow> bool"
  assumes get_put: "get (put k v m) k' = (if k' = k then Some v else get m k')"
    and get_erase: "get (erase k m) k' = (if k' = k then None else get m k')"
    and keys_get: "k \<in> set (keys m) \<longleftrightarrow> get m k \<noteq> None"
    and ok_put: "ok m \<Longrightarrow> ok (put k v m)"
    and ok_erase: "ok m \<Longrightarrow> ok (erase k m)"
    and ok_keys: "ok m \<Longrightarrow> distinct (keys m)"
begin

lemma keys_put: "set (keys (put k v m)) = insert k (set (keys m))"
  by (auto simp: keys_get get_put split: if_splits)

lemma keys_erase: "set (keys (erase k m)) = set (keys m) - {k}"
  by (auto simp: keys_get get_erase split: if_splits)

text \<open>A loop over a permutation of the keys visits every stored key exactly once.\<close>

lemma iterate_once:
  assumes "ok m" and "mset ks = mset (keys m)"
  shows "distinct ks \<and> (\<forall>k. k \<in> set ks \<longleftrightarrow> get m k \<noteq> None)"
proof -
  from assms have "distinct ks"
    using mset_eq_imp_distinct_iff ok_keys by blast
  moreover from assms(2) have "set ks = set (keys m)"
    by (rule mset_eq_setD)
  ultimately show ?thesis by (simp add: keys_get)
qed

end

interpretation um: unordered_map um_put um_erase um_get um_keys um_ok
proof unfold_locales
  fix m :: "('a, 'b) umap" and k
  show "k \<in> set (um_keys m) \<longleftrightarrow> um_get m k \<noteq> None"
    by (metis um_count_def um_count_iff_key)
qed (auto simp: um_ok_def distinct_update distinct_delete)

end
