(* ===== verification/Cpp_Std.thy ===== *)
theory Cpp_Std
  imports Chat_Prelude
begin

text \<open>
  The parts of the C++ standard library the sources call, written out: conversions between
  32-bit and unbounded integers, \<^verbatim>\<open>std::to_string\<close>, \<^verbatim>\<open>std::stoi\<close> with its two exceptions,
  \<^verbatim>\<open>std::getline\<close> with a delimiter, \<^verbatim>\<open>std::string::find\<close>, \<^verbatim>\<open>std::remove\<close> with \<^verbatim>\<open>erase\<close>,
  and \<^verbatim>\<open>::tolower\<close>. Strings are byte strings (\<^typ>\<open>string\<close>).

  A C++ \<^verbatim>\<open>int\<close> is an \<^typ>\<open>int\<close> in the 32-bit range; a \<^verbatim>\<open>uint32_t\<close> is a \<^typ>\<open>32 word\<close>.
\<close>

type_synonym u8 = "8 word"
type_synonym u32 = "32 word"
type_synonym u64 = "64 word"
type_synonym byte = u8

subsection \<open>Integers\<close>

definition int32_min :: int where "int32_min = - (2 ^ 31)"
definition int32_max :: int where "int32_max = 2 ^ 31 - 1"

definition in_int32 :: "int \<Rightarrow> bool" where
  "in_int32 i \<longleftrightarrow> int32_min \<le> i \<and> i \<le> int32_max"

text \<open>Two's-complement wrap-around of an \<^verbatim>\<open>std::atomic<int>\<close> increment.\<close>

definition wrap_int32 :: "int \<Rightarrow> int" where
  "wrap_int32 i = (i + 2 ^ 31) mod 2 ^ 32 - 2 ^ 31"

text \<open>The conversions \<^verbatim>\<open>(int)w\<close> and \<^verbatim>\<open>(uint32_t)i\<close>.\<close>

definition int_of_u32 :: "u32 \<Rightarrow> int" where
  "int_of_u32 w = sint w"

definition u32_of_int :: "int \<Rightarrow> u32" where
  "u32_of_int i = word_of_int i"

lemma wrap_int32_id: "in_int32 i \<Longrightarrow> wrap_int32 i = i"
  by (simp add: wrap_int32_def in_int32_def int32_min_def int32_max_def)

lemma in_int32_wrap: "in_int32 (wrap_int32 i)"
proof -
  have "0 \<le> (i + 2 ^ 31) mod 2 ^ 32" and "(i + 2 ^ 31) mod 2 ^ 32 < (2 ^ 32 :: int)"
    by simp_all
  then show ?thesis
    by (simp add: wrap_int32_def in_int32_def int32_min_def int32_max_def)
qed

lemma int_of_u32_of_int [simp]: "in_int32 i \<Longrightarrow> int_of_u32 (u32_of_int i) = i"
proof -
  assume "in_int32 i"
  then have "signed_take_bit 31 i = i"
    by (subst signed_take_bit_int_eq_self_iff) (simp add: in_int32_def int32_min_def int32_max_def)
  then show ?thesis
    by (simp add: int_of_u32_def u32_of_int_def sint_sbintrunc')
qed

lemma u32_of_int_of_u32 [simp]: "u32_of_int (int_of_u32 w) = w"
  by (simp add: int_of_u32_def u32_of_int_def)

lemma in_int32_of_u32 [simp]: "in_int32 (int_of_u32 w)"
  using sint_lt [of w] sint_ge [of w]
  by (simp add: in_int32_def int_of_u32_def int32_min_def int32_max_def)

lemma int_of_u32_inj: "int_of_u32 v = int_of_u32 w \<Longrightarrow> v = w"
  by (metis u32_of_int_of_u32)

lemma int_of_u32_eq_0 [simp]: "int_of_u32 w = 0 \<longleftrightarrow> w = 0"
  by (metis int_of_u32_def int_of_u32_inj sint_0)

subsection \<open>Decimal conversion\<close>

definition digit_char :: "nat \<Rightarrow> char" where
  "digit_char d = char_of (48 + d)"

definition char_digit :: "char \<Rightarrow> nat" where
  "char_digit c = of_char c - 48"

definition is_digit :: "char \<Rightarrow> bool" where
  "is_digit c \<longleftrightarrow> 48 \<le> (of_char c :: nat) \<and> (of_char c :: nat) \<le> 57"

fun nat_to_string :: "nat \<Rightarrow> string" where
  "nat_to_string n =
     (if n < 10 then [digit_char n] else nat_to_string (n div 10) @ [digit_char (n mod 10)])"

declare nat_to_string.simps [simp del]

definition to_string :: "int \<Rightarrow> string" where
  "to_string i = (if i < 0 then CHR ''-'' # nat_to_string (nat (- i)) else nat_to_string (nat i))"

definition digits_value :: "string \<Rightarrow> nat" where
  "digits_value ds = foldl (\<lambda>a c. 10 * a + char_digit c) 0 ds"

definition is_space :: "char \<Rightarrow> bool" where
  "is_space c \<longleftrightarrow> (of_char c :: nat) = 32 \<or> (9 \<le> (of_char c :: nat) \<and> (of_char c :: nat) \<le> 13)"

text \<open>
  \<^verbatim>\<open>strtol\<close> in base 10: leading white space, an optional sign, the longest run of digits; what
  follows is ignored. \<open>None\<close> when there is no digit.
\<close>

definition strtol10 :: "string \<Rightarrow> int option" where
  "strtol10 s =
     (let t = dropWhile is_space s;
          neg = (t \<noteq> [] \<and> hd t = CHR ''-'');
          u = (if t \<noteq> [] \<and> (hd t = CHR ''-'' \<or> hd t = CHR ''+'') then tl t else t);
          ds = takeWhile is_digit u
      in if ds = [] then None
         else Some (if neg then - int (digits_value ds) else int (digits_value ds)))"

definition stoi :: "string \<Rightarrow> int res" where
  "stoi s = (case strtol10 s of
       None \<Rightarrow> Inl Invalid_argument
     | Some i \<Rightarrow> if in_int32 i then Inr i else Inl Out_of_range)"

definition stoll :: "string \<Rightarrow> int res" where
  "stoll s = (case strtol10 s of
       None \<Rightarrow> Inl Invalid_argument
     | Some i \<Rightarrow> if - (2 ^ 63) \<le> i \<and> i < 2 ^ 63 then Inr i else Inl Out_of_range)"

lemma of_char_digit_char: "d < 10 \<Longrightarrow> of_char (digit_char d) = (48 + d :: nat)"
  by (simp add: digit_char_def)

lemma char_digit_digit_char [simp]: "d < 10 \<Longrightarrow> char_digit (digit_char d) = d"
  by (simp add: char_digit_def of_char_digit_char)

lemma is_digit_digit_char [simp]: "d < 10 \<Longrightarrow> is_digit (digit_char d)"
  by (simp add: is_digit_def of_char_digit_char)

lemma is_digit_not_space: "is_digit c \<Longrightarrow> \<not> is_space c"
  by (simp add: is_digit_def is_space_def)

lemma is_digit_not_sign: "is_digit c \<Longrightarrow> c \<noteq> CHR ''-'' \<and> c \<noteq> CHR ''+''"
  by (auto simp: is_digit_def)

lemma nat_to_string_nonempty [simp]: "nat_to_string n \<noteq> []"
  by (subst nat_to_string.simps) simp

lemma nat_to_string_digits: "c \<in> set (nat_to_string n) \<Longrightarrow> is_digit c"
proof (induction n rule: nat_to_string.induct)
  case (1 n)
  show ?case
  proof (cases "n < 10")
    case True
    with "1.prems" show ?thesis by (simp add: nat_to_string.simps [of n])
  next
    case False
    with "1.prems" have "c \<in> set (nat_to_string (n div 10)) \<or> c = digit_char (n mod 10)"
      by (subst (asm) nat_to_string.simps) auto
    with "1.IH" False show ?thesis by auto
  qed
qed

lemma digits_value_snoc: "digits_value (ds @ [c]) = 10 * digits_value ds + char_digit c"
  by (simp add: digits_value_def)

lemma digits_value_nat_to_string [simp]: "digits_value (nat_to_string n) = n"
proof (induction n rule: nat_to_string.induct)
  case (1 n)
  show ?case
  proof (cases "n < 10")
    case True
    then show ?thesis by (simp add: nat_to_string.simps [of n] digits_value_def)
  next
    case False
    with "1.IH" show ?thesis
      by (simp add: nat_to_string.simps [of n] digits_value_snoc)
  qed
qed

lemma takeWhile_digits [simp]: "takeWhile is_digit (nat_to_string n) = nat_to_string n"
  by (simp add: takeWhile_eq_all_conv nat_to_string_digits)

lemma nat_to_string_hd_digit: "is_digit (hd (nat_to_string n))"
  by (rule nat_to_string_digits [of _ n]) simp

lemma dropWhile_space_digits [simp]: "dropWhile is_space (nat_to_string n) = nat_to_string n"
proof -
  obtain c cs where cs: "nat_to_string n = c # cs"
    by (cases "nat_to_string n") auto
  with nat_to_string_hd_digit [of n] have "\<not> is_space c"
    by (simp add: is_digit_not_space)
  with cs show ?thesis by simp
qed

lemma strtol10_nat_to_string: "strtol10 (nat_to_string n) = Some (int n)"
proof -
  have "hd (nat_to_string n) \<noteq> CHR ''-''" and "hd (nat_to_string n) \<noteq> CHR ''+''"
    using is_digit_not_sign [OF nat_to_string_hd_digit] by auto
  then show ?thesis by (simp add: strtol10_def Let_def)
qed

lemma strtol10_to_string [simp]: "strtol10 (to_string i) = Some i"
proof (cases "i < 0")
  case True
  have "\<not> is_space (CHR ''-'')" by (simp add: is_space_def)
  with True show ?thesis by (simp add: to_string_def strtol10_def Let_def)
next
  case False
  then show ?thesis by (simp add: to_string_def strtol10_nat_to_string)
qed

text \<open>Printing an \<^verbatim>\<open>int\<close> and reading it back gives the same \<^verbatim>\<open>int\<close>.\<close>

lemma stoi_to_string [simp]: "in_int32 i \<Longrightarrow> stoi (to_string i) = Inr i"
  by (simp add: stoi_def)

lemma stoi_range: "stoi s = Inr i \<Longrightarrow> in_int32 i"
  by (auto simp: stoi_def split: option.splits if_splits)

lemma stoi_empty [simp]: "stoi [] = Inl Invalid_argument"
  by (simp add: stoi_def strtol10_def)

lemma to_string_chars: "c \<in> set (to_string i) \<Longrightarrow> is_digit c \<or> c = CHR ''-''"
  by (auto simp: to_string_def nat_to_string_digits split: if_splits)

lemma to_string_nonempty [simp]: "to_string i \<noteq> []"
  by (simp add: to_string_def)

lemma to_string_inj: "to_string i = to_string j \<Longrightarrow> i = j"
  by (metis option.inject strtol10_to_string)

subsection \<open>Strings\<close>

text \<open>
  \<^verbatim>\<open>while (std::getline(in, piece, d))\<close>: the pieces between delimiters; a delimiter at the end of
  the input starts no piece.
\<close>

fun getlines_acc :: "char \<Rightarrow> string \<Rightarrow> string \<Rightarrow> string list" where
  "getlines_acc d acc [] = (if acc = [] then [] else [rev acc])"
| "getlines_acc d acc (c # cs) =
     (if c = d then rev acc # getlines_acc d [] cs else getlines_acc d (c # acc) cs)"

definition getlines :: "char \<Rightarrow> string \<Rightarrow> string list" where
  "getlines d s = getlines_acc d [] s"

fun intersperse_concat :: "char \<Rightarrow> string list \<Rightarrow> string" where
  "intersperse_concat d [] = []"
| "intersperse_concat d [x] = x"
| "intersperse_concat d (x # y # xs) = x @ d # intersperse_concat d (y # xs)"

lemma getlines_acc_no_delim:
  "d \<notin> set s \<Longrightarrow> getlines_acc d acc s = (if acc = [] \<and> s = [] then [] else [rev acc @ s])"
  by (induction s arbitrary: acc) auto

lemma getlines_acc_delim:
  "d \<notin> set s \<Longrightarrow> getlines_acc d acc (s @ d # t) = (rev acc @ s) # getlines_acc d [] t"
  by (induction s arbitrary: acc) auto

lemma getlines_Nil [simp]: "getlines d [] = []"
  by (simp add: getlines_def)

lemma getlines_single: "d \<notin> set s \<Longrightarrow> s \<noteq> [] \<Longrightarrow> getlines d s = [s]"
  by (simp add: getlines_def getlines_acc_no_delim)

lemma getlines_Cons: "d \<notin> set s \<Longrightarrow> getlines d (s @ d # t) = s # getlines d t"
  by (simp add: getlines_def getlines_acc_delim)

text \<open>Joining pieces and splitting again gives the pieces back.\<close>

lemma getlines_intersperse:
  assumes "\<forall>x\<in>set xs. d \<notin> set x \<and> x \<noteq> []"
  shows "getlines d (intersperse_concat d xs) = xs"
  using assms
  by (induction d xs rule: intersperse_concat.induct) (auto simp: getlines_single getlines_Cons)

text \<open>\<^verbatim>\<open>s.find(c)\<close> with the two halves around the first occurrence.\<close>

definition split_first :: "char \<Rightarrow> string \<Rightarrow> (string \<times> string) option" where
  "split_first d s =
     (if d \<in> set s then Some (takeWhile (\<lambda>c. c \<noteq> d) s, tl (dropWhile (\<lambda>c. c \<noteq> d) s)) else None)"

lemma split_first_append [simp]:
  "d \<notin> set k \<Longrightarrow> split_first d (k @ d # v) = Some (k, v)"
  by (simp add: split_first_def takeWhile_append dropWhile_append)

text \<open>\<^verbatim>\<open>hay.find(needle) != npos\<close>.\<close>

fun is_substring :: "string \<Rightarrow> string \<Rightarrow> bool" where
  "is_substring n [] = (n = [])"
| "is_substring n (c # cs) = (take (length n) (c # cs) = n \<or> is_substring n cs)"

lemma is_substring_iff: "is_substring n h \<longleftrightarrow> (\<exists>p q. h = p @ n @ q)"
proof (induction h)
  case Nil
  show ?case by auto
next
  case (Cons c cs)
  have "take (length n) (c # cs) = n \<longleftrightarrow> (\<exists>q. c # cs = n @ q)"
    by (metis append_eq_conv_conj append_take_drop_id)
  with Cons show ?case
    by simp (metis Cons_eq_append_conv append_Cons)
qed

text \<open>\<^verbatim>\<open>::tolower\<close> in the C locale.\<close>

definition tolower :: "char \<Rightarrow> char" where
  "tolower c = (if 65 \<le> (of_char c :: nat) \<and> (of_char c :: nat) \<le> 90
                then char_of ((of_char c :: nat) + 32) else c)"

text \<open>\<^verbatim>\<open>v.erase(std::remove(v.begin(), v.end(), x), v.end())\<close> is \<^const>\<open>removeAll\<close>;
  \<^verbatim>\<open>if (std::find(...) == v.end()) v.push_back(x)\<close> is the following.\<close>

definition push_back_new :: "'a \<Rightarrow> 'a list \<Rightarrow> 'a list" where
  "push_back_new x xs = (if x \<in> set xs then xs else xs @ [x])"

lemma set_push_back_new [simp]: "set (push_back_new x xs) = insert x (set xs)"
  by (auto simp: push_back_new_def)

lemma distinct_push_back_new [simp]: "distinct (push_back_new x xs) = distinct xs"
  by (simp add: push_back_new_def)

lemma set_fold_push_back_new [simp]: "set (fold push_back_new ys xs) = set xs \<union> set ys"
  by (induction ys arbitrary: xs) auto

lemma distinct_fold_push_back_new [simp]: "distinct (fold push_back_new ys xs) = distinct xs"
  by (induction ys arbitrary: xs) auto

end
