(* ===== verification/Chat_Data.thy ===== *)
theory Chat_Data
  imports Cpp_Std
begin

text \<open>
  \<^verbatim>\<open>server-cpp/include/data_models.h\<close>: the structs shared by the server's components, one record
  per struct with its fields in order.
\<close>

record user =
  u_id :: int
  u_username :: string
  u_password_hash :: string
  u_phone :: string
  u_socket_fd :: int
  u_is_online :: bool
  u_last_seen :: int

record group =
  g_id :: int
  g_name :: string
  g_ownerId :: int
  g_members :: "(int, bool) umap"
  g_admins :: "(int, bool) umap"
  g_member_nicknames :: "(int, string) umap"

record message =
  m_id :: int
  m_from_user_id :: int
  m_to_user_id :: int
  m_content :: string
  m_timestamp :: int
  m_is_read :: bool

record friend_request =
  fr_id :: int
  fr_from_user_id :: int
  fr_to_user_id :: int
  fr_status :: string
  fr_timestamp :: int

record group_invite =
  gi_id :: int
  gi_group_id :: int
  gi_from_user_id :: int
  gi_to_user_id :: int
  gi_status :: string
  gi_timestamp :: int

record group_message =
  gm_id :: int
  gm_group_id :: int
  gm_user_id :: int
  gm_content :: string
  gm_timestamp :: int

record pending_msg =
  pm_type :: u8
  pm_payload :: string
  pm_fromUserId :: u32

text \<open>\<^verbatim>\<open>data::Group{}\<close> as \<^verbatim>\<open>g_groups[gid]\<close> inserts it for a missing key.\<close>

definition empty_group :: group where
  "empty_group = \<lparr>g_id = 0, g_name = [], g_ownerId = 0, g_members = [], g_admins = [],
                  g_member_nicknames = []\<rparr>"

end
