(* ===== verification/Pg_Persistence.thy ===== *)
theory Pg_Persistence
  imports Chat_Data
begin

text \<open>
  \<^verbatim>\<open>server-cpp/src/persistence_pg.cpp\<close>: every operation of \<^verbatim>\<open>PostgresConnection\<close> and
  \<^verbatim>\<open>PostgresPersistence\<close>. libpq and the database behind it are not part of the sources, so they are
  a parameter: the record \<open>pg_lib\<close> holds the library functions the code calls, over an abstract
  database state \<open>'db\<close>. The queries are built character by character as in the source, the result
  rows are decoded with the same conversions, and a conversion that throws is an exception of the
  computation. Diagnostics on \<^verbatim>\<open>std::cout\<close> and \<^verbatim>\<open>std::cerr\<close> are left out.
\<close>

subsection \<open>libpq\<close>

text \<open>A result is a table of optional strings (\<open>None\<close> is SQL \<^verbatim>\<open>NULL\<close>) or a failure.\<close>

datatype pg_result = Pg_rows "string option list list" | Pg_fatal

record 'db pg_lib =
  PQconnectdb :: "string \<Rightarrow> 'db \<Rightarrow> bool \<times> 'db" \<comment> \<open>whether the new connection is up\<close>
  PQstatus_ok :: "'db \<Rightarrow> bool"
  PQexec :: "string \<Rightarrow> 'db \<Rightarrow> pg_result \<times> 'db"
  PQescape :: "string \<Rightarrow> string" \<comment> \<open>\<^verbatim>\<open>PQescapeStringConn\<close>\<close>

record 'db pg =
  pg_conn :: bool \<comment> \<open>\<^verbatim>\<open>conn != nullptr\<close>\<close>
  pg_conn_str :: string
  pg_db :: 'db

text \<open>\<^verbatim>\<open>PQgetvalue\<close>: the empty string for a \<^verbatim>\<open>NULL\<close>, a null pointer for a column out of range.\<close>

definition PQgetvalue :: "string option list \<Rightarrow> nat \<Rightarrow> string res" where
  "PQgetvalue row j =
     (if j < length row then Inr (case row ! j of None \<Rightarrow> [] | Some v \<Rightarrow> v) else Inl Null_deref)"

definition PQgetisnull :: "string option list \<Rightarrow> nat \<Rightarrow> bool" where
  "PQgetisnull row j = (length row \<le> j \<or> row ! j = None)"

definition getvalue_int :: "string option list \<Rightarrow> nat \<Rightarrow> int res" where
  "getvalue_int row j = bindS (PQgetvalue row j) stoi"

definition getvalue_ll :: "string option list \<Rightarrow> nat \<Rightarrow> int res" where
  "getvalue_ll row j = bindS (PQgetvalue row j) stoll"

subsection \<open>PostgresConnection\<close>

definition pg_connect :: "'db pg_lib \<Rightarrow> ('db pg, bool) M" where
  "pg_connect lib = (\<lambda>p.
     case PQconnectdb lib (pg_conn_str p) (pg_db p) of
       (ok, d) \<Rightarrow> (Inr ok, p\<lparr>pg_conn := ok, pg_db := d\<rparr>))"

definition pg_disconnect :: "('db pg, unit) M" where
  "pg_disconnect = modifyE (\<lambda>p. p\<lparr>pg_conn := False\<rparr>)"

definition pg_is_connected :: "'db pg_lib \<Rightarrow> 'db pg \<Rightarrow> bool" where
  "pg_is_connected lib p \<longleftrightarrow> pg_conn p \<and> PQstatus_ok lib (pg_db p)"

definition pg_execute :: "'db pg_lib \<Rightarrow> string \<Rightarrow> ('db pg, string option list list option) M" where
  "pg_execute lib query = (\<lambda>p.
     if \<not> pg_is_connected lib p then (Inr None, p)
     else case PQexec lib query (pg_db p) of
         (Pg_rows rows, d) \<Rightarrow> (Inr (Some rows), p\<lparr>pg_db := d\<rparr>)
       | (Pg_fatal, d) \<Rightarrow> (Inr None, p\<lparr>pg_db := d\<rparr>))"

text \<open>\<open>PQexecParams\<close> is an argument: \<open>pg_execute_params\<close> is the only operation that calls it.\<close>

definition pg_execute_params ::
  "'db pg_lib \<Rightarrow> (string \<Rightarrow> string option list \<Rightarrow> 'db \<Rightarrow> pg_result \<times> 'db) \<Rightarrow> string \<Rightarrow> string option list \<Rightarrow>
     ('db pg, string option list list option) M" where
  "pg_execute_params lib PQexecParams query param_values = (\<lambda>p.
     if \<not> pg_is_connected lib p then (Inr None, p)
     else case PQexecParams query param_values (pg_db p) of
         (Pg_rows rows, d) \<Rightarrow> (Inr (Some rows), p\<lparr>pg_db := d\<rparr>)
       | (Pg_fatal, d) \<Rightarrow> (Inr None, p\<lparr>pg_db := d\<rparr>))"

text \<open>A query without parameters is an ordinary one.\<close>

lemma pg_execute_no_params:
  "(\<And>d. run q [] d = PQexec lib q d) \<Longrightarrow> pg_execute_params lib run q [] = pg_execute lib q"
  by (simp add: fun_eq_iff pg_execute_params_def pg_execute_def)

text \<open>The constructor of \<^verbatim>\<open>PostgresPersistence\<close>: a connection object that is not connected.\<close>

definition new_persistence :: "string \<Rightarrow> 'db \<Rightarrow> 'db pg" where
  "new_persistence connection_string d = \<lparr>pg_conn = False, pg_conn_str = connection_string, pg_db = d\<rparr>"

definition pg_initialize :: "'db pg_lib \<Rightarrow> ('db pg, bool) M" where
  "pg_initialize lib = pg_connect lib"

subsection \<open>Building and running queries\<close>

definition sq :: string where "sq = [CHR 0x27]" \<comment> \<open>the single quote\<close>

text \<open>The escaped copy ends at the first NUL, as \<^verbatim>\<open>std::string result(escaped)\<close> does.\<close>

definition escape_string :: "'db pg_lib \<Rightarrow> string \<Rightarrow> string" where
  "escape_string lib s = takeWhile (\<lambda>c. c \<noteq> CHR 0x00) (PQescape lib s)"

definition quoted :: "'db pg_lib \<Rightarrow> string \<Rightarrow> string" where
  "quoted lib s = sq @ escape_string lib s @ sq"

text \<open>\<^verbatim>\<open>if (!res) return false; PQclear(res); ...; return true;\<close>\<close>

definition exec_then :: "'db pg_lib \<Rightarrow> string \<Rightarrow> ('db pg, bool) M \<Rightarrow> ('db pg, bool) M" where
  "exec_then lib query m =
     bindE (pg_execute lib query) (\<lambda>r. case r of None \<Rightarrow> retE False | Some _ \<Rightarrow> m)"

text \<open>\<^verbatim>\<open>if (!res) return result;\<close> and the loop that decodes every row.\<close>

definition exec_rows :: "'db pg_lib \<Rightarrow> string \<Rightarrow> (string option list \<Rightarrow> 'a res) \<Rightarrow> ('db pg, 'a list) M" where
  "exec_rows lib query decode =
     bindE (pg_execute lib query)
       (\<lambda>r. case r of None \<Rightarrow> retE [] | Some rows \<Rightarrow> liftE (mapS decode rows))"

text \<open>\<^verbatim>\<open>if (!res) return false; bool result = PQntuples(res) > 0;\<close>\<close>

definition exec_exists :: "'db pg_lib \<Rightarrow> string \<Rightarrow> ('db pg, bool) M" where
  "exec_exists lib query =
     bindE (pg_execute lib query)
       (\<lambda>r. case r of None \<Rightarrow> retE False | Some rows \<Rightarrow> retE (rows \<noteq> []))"

definition pg_log_activity :: "'db pg_lib \<Rightarrow> string \<Rightarrow> int \<Rightarrow> int \<Rightarrow> string \<Rightarrow> ('db pg, bool) M" where
  "pg_log_activity lib log_type user_id target_user_id details =
     exec_then lib
       (''INSERT INTO activity_logs (log_type, user_id, target_user_id, '' @
        ''details, timestamp) VALUES ('' @ quoted lib log_type @ '', '' @
        to_string user_id @ '', '' @
        (if 0 < target_user_id then to_string target_user_id else ''NULL'') @
        '', '' @ quoted lib details @ '', (EXTRACT(EPOCH FROM NOW()) * 1000)::BIGINT)'')
       (retE True)"

subsection \<open>User operations\<close>

definition pg_create_user :: "'db pg_lib \<Rightarrow> string \<Rightarrow> string \<Rightarrow> string \<Rightarrow> ('db pg, int option) M" where
  "pg_create_user lib username password_hash phone =
     bindE (pg_execute lib
        (''INSERT INTO users (username, password_hash, phone, is_online) '' @
         ''VALUES ('' @ quoted lib username @ '', '' @ quoted lib password_hash @ '', '' @
         quoted lib phone @ '', FALSE) RETURNING id''))
       (\<lambda>res. case res of
          None \<Rightarrow> retE None
        | Some rows \<Rightarrow>
            bindE (liftE (case rows of [] \<Rightarrow> Inl Null_deref | row # _ \<Rightarrow> getvalue_int row 0)) (\<lambda>uid.
            seqE (pg_log_activity lib ''USER_REGISTER'' uid 0 (''User registered: '' @ username))
              (retE (Some uid))))"

definition user_of_row :: "string option list \<Rightarrow> user res" where
  "user_of_row row =
     bindS (getvalue_int row 0) (\<lambda>i.
     bindS (PQgetvalue row 1) (\<lambda>name.
     bindS (PQgetvalue row 2) (\<lambda>hash.
     bindS (PQgetvalue row 3) (\<lambda>phone.
     bindS (PQgetvalue row 4) (\<lambda>online.
     bindS (if PQgetisnull row 5 then Inr 0 else getvalue_ll row 5) (\<lambda>seen.
       Inr \<lparr>u_id = i, u_username = name, u_password_hash = hash, u_phone = phone,
            u_socket_fd = 0, u_is_online = (online = ''t''), u_last_seen = seen\<rparr>))))))"

definition exec_user :: "'db pg_lib \<Rightarrow> string \<Rightarrow> ('db pg, user option) M" where
  "exec_user lib query =
     bindE (pg_execute lib query)
       (\<lambda>r. case r of
          None \<Rightarrow> retE None
        | Some [] \<Rightarrow> retE None
        | Some (row # _) \<Rightarrow> bindE (liftE (user_of_row row)) (\<lambda>u. retE (Some u)))"

definition pg_get_user_by_username :: "'db pg_lib \<Rightarrow> string \<Rightarrow> ('db pg, user option) M" where
  "pg_get_user_by_username lib username =
     exec_user lib
       (''SELECT id, username, password_hash, phone, is_online, last_seen '' @
        ''FROM users WHERE username = '' @ quoted lib username)"

definition pg_get_user_by_id :: "'db pg_lib \<Rightarrow> int \<Rightarrow> ('db pg, user option) M" where
  "pg_get_user_by_id lib user_id =
     exec_user lib
       (''SELECT id, username, password_hash, phone, is_online, last_seen '' @
        ''FROM users WHERE id = '' @ to_string user_id)"

definition pg_update_user_online_status :: "'db pg_lib \<Rightarrow> int \<Rightarrow> bool \<Rightarrow> ('db pg, bool) M" where
  "pg_update_user_online_status lib user_id is_online =
     exec_then lib
       (''UPDATE users SET is_online = '' @ (if is_online then ''TRUE'' else ''FALSE'') @
        '', last_seen = (EXTRACT(EPOCH FROM NOW()) * 1000)::BIGINT WHERE id = '' @ to_string user_id)
       (seqE (pg_log_activity lib (if is_online then ''USER_ONLINE'' else ''USER_OFFLINE'') user_id 0 '''')
         (retE True))"

definition pg_get_all_users :: "'db pg_lib \<Rightarrow> ('db pg, user list) M" where
  "pg_get_all_users lib =
     exec_rows lib
       (''SELECT id, username, password_hash, phone, is_online, last_seen '' @
        ''FROM users ORDER BY username'') user_of_row"

subsection \<open>Friend operations\<close>

text \<open>\<^verbatim>\<open>if (user_id_1 > user_id_2) std::swap(user_id_1, user_id_2);\<close>\<close>

definition canon_pair :: "int \<Rightarrow> int \<Rightarrow> int \<times> int" where
  "canon_pair a b = (if b < a then (b, a) else (a, b))"

definition pg_add_friend :: "'db pg_lib \<Rightarrow> int \<Rightarrow> int \<Rightarrow> ('db pg, bool) M" where
  "pg_add_friend lib user_id_1 user_id_2 =
     (let (a, b) = canon_pair user_id_1 user_id_2 in
      exec_then lib
        (''INSERT INTO friends (user_id_1, user_id_2) VALUES ('' @ to_string a @ '', '' @
         to_string b @ '') ON CONFLICT DO NOTHING'')
        (seqE (pg_log_activity lib ''FRIEND_ADD'' a b '''') (retE True)))"

definition pg_remove_friend :: "'db pg_lib \<Rightarrow> int \<Rightarrow> int \<Rightarrow> ('db pg, bool) M" where
  "pg_remove_friend lib user_id_1 user_id_2 =
     (let (a, b) = canon_pair user_id_1 user_id_2 in
      exec_then lib
        (''DELETE FROM friends WHERE user_id_1 = '' @ to_string a @ '' AND user_id_2 = '' @ to_string b)
        (seqE (pg_log_activity lib ''FRIEND_REMOVE'' a b '''') (retE True)))"

definition pg_are_friends :: "'db pg_lib \<Rightarrow> int \<Rightarrow> int \<Rightarrow> ('db pg, bool) M" where
  "pg_are_friends lib user_id_1 user_id_2 =
     (let (a, b) = canon_pair user_id_1 user_id_2 in
      exec_exists lib
        (''SELECT 1 FROM friends WHERE user_id_1 = '' @ to_string a @ '' AND user_id_2 = '' @ to_string b))"

definition pg_get_friends :: "'db pg_lib \<Rightarrow> int \<Rightarrow> ('db pg, user list) M" where
  "pg_get_friends lib user_id =
     exec_rows lib
       (''SELECT u.id, u.username, u.password_hash, u.phone, u.is_online, u.last_seen '' @
        ''FROM v_user_friends vuf JOIN users u ON vuf.friend_id = u.id '' @
        ''WHERE vuf.user_id = '' @ to_string user_id @ '' ORDER BY u.username'') user_of_row"

lemma canon_pair_commute: "canon_pair a b = canon_pair b a"
  by (auto simp: canon_pair_def)

subsection \<open>Friend request operations\<close>

definition pg_send_friend_request :: "'db pg_lib \<Rightarrow> int \<Rightarrow> int \<Rightarrow> ('db pg, bool) M" where
  "pg_send_friend_request lib from_user_id to_user_id =
     exec_then lib
       (''INSERT INTO friend_requests (from_user_id, to_user_id, status) VALUES ('' @
        to_string from_user_id @ '', '' @ to_string to_user_id @ '', '' @ sq @ ''PENDING'' @ sq @ '') '' @
        ''ON CONFLICT (from_user_id, to_user_id) DO UPDATE SET status = '' @ sq @ ''PENDING'' @ sq @
        '', updated_at = NOW()'')
       (seqE (pg_log_activity lib ''FRIEND_REQUEST_SEND'' from_user_id to_user_id '''') (retE True))"

definition delete_request_query :: "int \<Rightarrow> int \<Rightarrow> string" where
  "delete_request_query from_user_id to_user_id =
     ''DELETE FROM friend_requests WHERE from_user_id = '' @ to_string from_user_id @
     '' AND to_user_id = '' @ to_string to_user_id"

text \<open>\<^verbatim>\<open>db->execute("ROLLBACK"); return false;\<close>\<close>

definition rollback_fail :: "'db pg_lib \<Rightarrow> ('db pg, 'a) M \<Rightarrow> ('db pg, 'a) M" where
  "rollback_fail lib m = seqE (pg_execute lib ''ROLLBACK'') m"

definition pg_accept_friend_request :: "'db pg_lib \<Rightarrow> int \<Rightarrow> int \<Rightarrow> ('db pg, bool) M" where
  "pg_accept_friend_request lib from_user_id to_user_id =
     exec_then lib ''BEGIN''
       (bindE (pg_add_friend lib from_user_id to_user_id) (\<lambda>added.
        if \<not> added then rollback_fail lib (retE False)
        else bindE (pg_execute lib (delete_request_query from_user_id to_user_id)) (\<lambda>r.
          case r of
            None \<Rightarrow> rollback_fail lib (retE False)
          | Some _ \<Rightarrow> bindE (pg_execute lib ''COMMIT'') (\<lambda>c.
              case c of
                None \<Rightarrow> rollback_fail lib (retE False)
              | Some _ \<Rightarrow>
                  seqE (pg_log_activity lib ''FRIEND_REQUEST_ACCEPT'' to_user_id from_user_id '''')
                    (retE True)))))"

definition pg_decline_friend_request :: "'db pg_lib \<Rightarrow> int \<Rightarrow> int \<Rightarrow> ('db pg, bool) M" where
  "pg_decline_friend_request lib from_user_id to_user_id =
     exec_then lib (delete_request_query from_user_id to_user_id)
       (seqE (pg_log_activity lib ''FRIEND_REQUEST_DECLINE'' to_user_id from_user_id '''') (retE True))"

definition request_of_row :: "string option list \<Rightarrow> friend_request res" where
  "request_of_row row =
     bindS (getvalue_int row 0) (\<lambda>i.
     bindS (getvalue_int row 1) (\<lambda>f.
     bindS (getvalue_int row 2) (\<lambda>t.
     bindS (PQgetvalue row 3) (\<lambda>st.
     bindS (getvalue_ll row 4) (\<lambda>ts.
       Inr \<lparr>fr_id = i, fr_from_user_id = f, fr_to_user_id = t, fr_status = st, fr_timestamp = ts\<rparr>)))))"

definition pg_get_pending_requests :: "'db pg_lib \<Rightarrow> int \<Rightarrow> ('db pg, friend_request list) M" where
  "pg_get_pending_requests lib user_id =
     exec_rows lib
       (''SELECT id, from_user_id, to_user_id, status, '' @
        ''(EXTRACT(EPOCH FROM created_at) * 1000)::BIGINT '' @
        ''FROM friend_requests WHERE to_user_id = '' @ to_string user_id @
        '' AND status = '' @ sq @ ''PENDING'' @ sq @ '' ORDER BY created_at DESC'') request_of_row"

definition pg_has_pending_request :: "'db pg_lib \<Rightarrow> int \<Rightarrow> int \<Rightarrow> ('db pg, bool) M" where
  "pg_has_pending_request lib from_user_id to_user_id =
     exec_exists lib
       (''SELECT 1 FROM friend_requests WHERE from_user_id = '' @ to_string from_user_id @
        '' AND to_user_id = '' @ to_string to_user_id @ '' AND status = '' @ sq @ ''PENDING'' @ sq)"

subsection \<open>Message operations\<close>

definition pg_save_message :: "'db pg_lib \<Rightarrow> int \<Rightarrow> int \<Rightarrow> string \<Rightarrow> int \<Rightarrow> ('db pg, bool) M" where
  "pg_save_message lib from_user_id to_user_id content timestamp =
     exec_then lib
       (''INSERT INTO messages (from_user_id, to_user_id, content, timestamp, is_read) VALUES ('' @
        to_string from_user_id @ '', '' @ to_string to_user_id @ '', '' @ quoted lib content @ '', '' @
        to_string timestamp @ '', FALSE)'')
       (retE True)"

definition message_of_row :: "string option list \<Rightarrow> message res" where
  "message_of_row row =
     bindS (getvalue_int row 0) (\<lambda>i.
     bindS (getvalue_int row 1) (\<lambda>f.
     bindS (getvalue_int row 2) (\<lambda>t.
     bindS (PQgetvalue row 3) (\<lambda>c.
     bindS (getvalue_ll row 4) (\<lambda>ts.
     bindS (PQgetvalue row 5) (\<lambda>rd.
       Inr \<lparr>m_id = i, m_from_user_id = f, m_to_user_id = t, m_content = c, m_timestamp = ts,
            m_is_read = (rd = ''t'')\<rparr>))))))"

definition conversation_where :: "int \<Rightarrow> int \<Rightarrow> string" where
  "conversation_where a b =
     ''(from_user_id = '' @ to_string a @ '' AND to_user_id = '' @ to_string b @ '') OR '' @
     ''(from_user_id = '' @ to_string b @ '' AND to_user_id = '' @ to_string a @ '')''"

text \<open>The rows come newest first; \<^verbatim>\<open>std::reverse\<close> makes the vector chronological.\<close>

definition pg_get_conversation :: "'db pg_lib \<Rightarrow> int \<Rightarrow> int \<Rightarrow> int \<Rightarrow> ('db pg, message list) M" where
  "pg_get_conversation lib user_id_1 user_id_2 limit =
     bindE (exec_rows lib
        (''SELECT id, from_user_id, to_user_id, content, timestamp, is_read FROM messages WHERE '' @
         conversation_where user_id_1 user_id_2 @
         '' ORDER BY timestamp DESC LIMIT '' @ to_string limit) message_of_row)
       (\<lambda>messages. retE (rev messages))"

definition pg_mark_messages_read :: "'db pg_lib \<Rightarrow> int \<Rightarrow> int \<Rightarrow> ('db pg, bool) M" where
  "pg_mark_messages_read lib to_user_id from_user_id =
     exec_then lib
       (''UPDATE messages SET is_read = TRUE WHERE to_user_id = '' @ to_string to_user_id @
        '' AND from_user_id = '' @ to_string from_user_id)
       (retE True)"

definition pg_get_unread_count :: "'db pg_lib \<Rightarrow> int \<Rightarrow> ('db pg, int) M" where
  "pg_get_unread_count lib user_id =
     bindE (pg_execute lib
        (''SELECT COUNT(*) FROM messages WHERE to_user_id = '' @ to_string user_id @
         '' AND is_read = FALSE''))
       (\<lambda>r. case r of
          None \<Rightarrow> retE 0
        | Some [] \<Rightarrow> retE 0
        | Some (row # _) \<Rightarrow> liftE (getvalue_int row 0))"

definition pg_delete_conversation :: "'db pg_lib \<Rightarrow> int \<Rightarrow> int \<Rightarrow> ('db pg, bool) M" where
  "pg_delete_conversation lib user_id_1 user_id_2 =
     exec_then lib (''DELETE FROM messages WHERE '' @ conversation_where user_id_1 user_id_2) (retE True)"

subsection \<open>Group operations\<close>

definition pg_add_group_member :: "'db pg_lib \<Rightarrow> int \<Rightarrow> int \<Rightarrow> ('db pg, bool) M" where
  "pg_add_group_member lib group_id user_id =
     exec_then lib
       (''INSERT INTO group_members (group_id, user_id) VALUES ('' @ to_string group_id @ '', '' @
        to_string user_id @ '') ON CONFLICT DO NOTHING'')
       (seqE (pg_log_activity lib ''GROUP_MEMBER_ADD'' user_id 0 (''groupId='' @ to_string group_id))
         (retE True))"

definition pg_create_group :: "'db pg_lib \<Rightarrow> string \<Rightarrow> int \<Rightarrow> ('db pg, int option) M" where
  "pg_create_group lib name creator_id =
     bindE (pg_execute lib ''BEGIN'') (\<lambda>b.
       case b of
         None \<Rightarrow> retE None
       | Some _ \<Rightarrow>
           bindE (pg_execute lib
              (''INSERT INTO groups (name, creator_id) VALUES ('' @ quoted lib name @ '', '' @
               to_string creator_id @ '') RETURNING id'')) (\<lambda>res.
             case res of
               None \<Rightarrow> rollback_fail lib (retE None)
             | Some rows \<Rightarrow>
                 bindE (liftE (case rows of [] \<Rightarrow> Inl Null_deref | row # _ \<Rightarrow> getvalue_int row 0)) (\<lambda>gid.
                 bindE (pg_add_group_member lib gid creator_id) (\<lambda>added.
                   if \<not> added then rollback_fail lib (retE None)
                   else bindE (pg_execute lib ''COMMIT'') (\<lambda>c.
                     case c of
                       None \<Rightarrow> rollback_fail lib (retE None)
                     | Some _ \<Rightarrow>
                         seqE (pg_log_activity lib ''GROUP_CREATE'' creator_id 0 (''Group: '' @ name))
                           (retE (Some gid)))))))"

definition pg_set_group_nickname :: "'db pg_lib \<Rightarrow> int \<Rightarrow> int \<Rightarrow> string \<Rightarrow> ('db pg, bool) M" where
  "pg_set_group_nickname lib group_id user_id nickname =
     exec_then lib
       (''UPDATE group_members SET nickname = '' @ quoted lib nickname @ '' WHERE group_id = '' @
        to_string group_id @ '' AND user_id = '' @ to_string user_id)
       (seqE (pg_log_activity lib ''GROUP_NICKNAME_SET'' user_id 0
           (''groupId='' @ to_string group_id @ '' nick='' @ nickname))
         (retE True))"

definition nickname_of_row :: "string option list \<Rightarrow> (int \<times> string) res" where
  "nickname_of_row row =
     bindS (getvalue_int row 0) (\<lambda>uid.
       if PQgetisnull row 1 then Inr (uid, [])
       else bindS (PQgetvalue row 1) (\<lambda>nick. Inr (uid, nick)))"

definition pg_get_group_member_nicknames :: "'db pg_lib \<Rightarrow> int \<Rightarrow> ('db pg, (int, string) umap) M" where
  "pg_get_group_member_nicknames lib group_id =
     bindE (exec_rows lib
        (''SELECT user_id, nickname FROM group_members WHERE group_id = '' @ to_string group_id)
        nickname_of_row)
       (\<lambda>pairs. retE (fold (\<lambda>(k, v). um_put k v) pairs []))"

definition pg_remove_group_member :: "'db pg_lib \<Rightarrow> int \<Rightarrow> int \<Rightarrow> ('db pg, bool) M" where
  "pg_remove_group_member lib group_id user_id =
     exec_then lib
       (''DELETE FROM group_members WHERE group_id = '' @ to_string group_id @ '' AND user_id = '' @
        to_string user_id)
       (seqE (pg_log_activity lib ''GROUP_MEMBER_REMOVE'' user_id 0 (''groupId='' @ to_string group_id))
         (retE True))"

definition pg_set_group_admin :: "'db pg_lib \<Rightarrow> int \<Rightarrow> int \<Rightarrow> bool \<Rightarrow> ('db pg, bool) M" where
  "pg_set_group_admin lib group_id user_id is_admin =
     exec_then lib ''ALTER TABLE group_members ADD COLUMN IF NOT EXISTS is_admin BOOLEAN DEFAULT FALSE''
       (exec_then lib
         (''UPDATE group_members SET is_admin = '' @ (if is_admin then ''TRUE'' else ''FALSE'') @
          '' WHERE group_id = '' @ to_string group_id @ '' AND user_id = '' @ to_string user_id)
         (retE True))"

definition pg_is_group_admin :: "'db pg_lib \<Rightarrow> int \<Rightarrow> int \<Rightarrow> ('db pg, bool) M" where
  "pg_is_group_admin lib group_id user_id =
     bindE (pg_execute lib
        (''SELECT is_admin FROM group_members WHERE group_id = '' @ to_string group_id @
         '' AND user_id = '' @ to_string user_id))
       (\<lambda>r. case r of
          None \<Rightarrow> retE False
        | Some [] \<Rightarrow> retE False
        | Some (row # _) \<Rightarrow>
            if PQgetisnull row 0 then retE False
            else bindE (liftE (PQgetvalue row 0)) (\<lambda>v. retE (v = ''t'')))"

definition group_of_row :: "string option list \<Rightarrow> group res" where
  "group_of_row row =
     bindS (getvalue_int row 0) (\<lambda>i.
     bindS (PQgetvalue row 1) (\<lambda>n.
     bindS (getvalue_int row 2) (\<lambda>c.
       Inr \<lparr>g_id = i, g_name = n, g_ownerId = c, g_members = [], g_admins = [],
            g_member_nicknames = []\<rparr>)))"

definition pg_get_user_groups :: "'db pg_lib \<Rightarrow> int \<Rightarrow> ('db pg, group list) M" where
  "pg_get_user_groups lib user_id =
     exec_rows lib
       (''SELECT g.id, g.name, g.creator_id FROM groups g '' @
        ''JOIN group_members gm ON g.id = gm.group_id '' @
        ''WHERE gm.user_id = '' @ to_string user_id @ '' ORDER BY g.name'') group_of_row"

definition pg_get_group_members :: "'db pg_lib \<Rightarrow> int \<Rightarrow> ('db pg, user list) M" where
  "pg_get_group_members lib group_id =
     exec_rows lib
       (''SELECT u.id, u.username, u.password_hash, u.phone, u.is_online, u.last_seen '' @
        ''FROM users u JOIN group_members gm ON u.id = gm.user_id '' @
        ''WHERE gm.group_id = '' @ to_string group_id @ '' ORDER BY u.username'') user_of_row"

definition pg_is_group_member :: "'db pg_lib \<Rightarrow> int \<Rightarrow> int \<Rightarrow> ('db pg, bool) M" where
  "pg_is_group_member lib group_id user_id =
     exec_exists lib
       (''SELECT 1 FROM group_members WHERE group_id = '' @ to_string group_id @ '' AND user_id = '' @
        to_string user_id)"

definition pg_rename_group :: "'db pg_lib \<Rightarrow> int \<Rightarrow> string \<Rightarrow> ('db pg, bool) M" where
  "pg_rename_group lib group_id new_name =
     exec_then lib
       (''UPDATE groups SET name = '' @ quoted lib new_name @ '' WHERE id = '' @ to_string group_id)
       (seqE (pg_log_activity lib ''GROUP_RENAME'' 0 0
           (''groupId='' @ to_string group_id @ '' name='' @ new_name))
         (retE True))"

subsection \<open>Group invite operations\<close>

text \<open>
  The body is a \<^verbatim>\<open>try\<close> block whose handler returns false; nothing in it throws.
\<close>

definition invite_where :: "int \<Rightarrow> int \<Rightarrow> string" where
  "invite_where group_id to_user_id =
     ''WHERE group_id = '' @ to_string group_id @ '' AND to_user_id = '' @ to_string to_user_id"

definition pg_create_group_invite :: "'db pg_lib \<Rightarrow> int \<Rightarrow> int \<Rightarrow> int \<Rightarrow> ('db pg, bool) M" where
  "pg_create_group_invite lib group_id from_user_id to_user_id =
     bindE (pg_execute lib (''SELECT id FROM group_invites '' @ invite_where group_id to_user_id)) (\<lambda>rsel.
       case rsel of
         None \<Rightarrow> retE False
       | Some rows \<Rightarrow>
           exec_then lib
             (if rows \<noteq> [] then
                ''UPDATE group_invites SET status = '' @ sq @ ''PENDING'' @ sq @ '', created_at = NOW() '' @
                invite_where group_id to_user_id
              else
                ''INSERT INTO group_invites (group_id, from_user_id, to_user_id, status) VALUES ('' @
                to_string group_id @ '', '' @ to_string from_user_id @ '', '' @ to_string to_user_id @
                '', '' @ sq @ ''PENDING'' @ sq @ '')'')
             (seqE (pg_log_activity lib ''GROUP_INVITE_CREATE'' from_user_id to_user_id
                 (''groupId='' @ to_string group_id))
               (retE True)))"

definition invite_of_row :: "string option list \<Rightarrow> group_invite res" where
  "invite_of_row row =
     bindS (getvalue_int row 0) (\<lambda>i.
     bindS (getvalue_int row 1) (\<lambda>g.
     bindS (getvalue_int row 2) (\<lambda>f.
     bindS (getvalue_int row 3) (\<lambda>t.
     bindS (PQgetvalue row 4) (\<lambda>st.
     bindS (getvalue_ll row 5) (\<lambda>ts.
       Inr \<lparr>gi_id = i, gi_group_id = g, gi_from_user_id = f, gi_to_user_id = t, gi_status = st,
            gi_timestamp = ts\<rparr>))))))"

definition pg_get_pending_group_invites :: "'db pg_lib \<Rightarrow> int \<Rightarrow> ('db pg, group_invite list) M" where
  "pg_get_pending_group_invites lib user_id =
     exec_rows lib
       (''SELECT id, group_id, from_user_id, to_user_id, status, '' @
        ''(EXTRACT(EPOCH FROM created_at) * 1000)::BIGINT FROM group_invites WHERE to_user_id = '' @
        to_string user_id @ '' AND status = '' @ sq @ ''PENDING'' @ sq @ '' ORDER BY created_at DESC'')
       invite_of_row"

definition pg_delete_group_invite :: "'db pg_lib \<Rightarrow> int \<Rightarrow> int \<Rightarrow> ('db pg, bool) M" where
  "pg_delete_group_invite lib group_id to_user_id =
     exec_then lib (''DELETE FROM group_invites '' @ invite_where group_id to_user_id) (retE True)"

subsection \<open>Group message operations\<close>

definition pg_save_group_message :: "'db pg_lib \<Rightarrow> int \<Rightarrow> int \<Rightarrow> string \<Rightarrow> int \<Rightarrow> ('db pg, bool) M" where
  "pg_save_group_message lib group_id user_id content timestamp =
     exec_then lib
       (''INSERT INTO group_messages (group_id, user_id, content, timestamp) VALUES ('' @
        to_string group_id @ '', '' @ to_string user_id @ '', '' @ quoted lib content @ '', '' @
        to_string timestamp @ '')'')
       (retE True)"

definition group_message_of_row :: "string option list \<Rightarrow> group_message res" where
  "group_message_of_row row =
     bindS (getvalue_int row 0) (\<lambda>i.
     bindS (getvalue_int row 1) (\<lambda>g.
     bindS (getvalue_int row 2) (\<lambda>u.
     bindS (PQgetvalue row 3) (\<lambda>c.
     bindS (getvalue_ll row 4) (\<lambda>ts.
       Inr \<lparr>gm_id = i, gm_group_id = g, gm_user_id = u, gm_content = c, gm_timestamp = ts\<rparr>)))))"

definition pg_get_group_messages :: "'db pg_lib \<Rightarrow> int \<Rightarrow> int \<Rightarrow> ('db pg, group_message list) M" where
  "pg_get_group_messages lib group_id limit =
     bindE (exec_rows lib
        (''SELECT id, group_id, user_id, content, timestamp FROM group_messages WHERE group_id = '' @
         to_string group_id @ '' ORDER BY timestamp DESC LIMIT '' @ to_string limit)
        group_message_of_row)
       (\<lambda>messages. retE (rev messages))"

subsection \<open>Offline message operations\<close>

definition pg_queue_offline_message :: "'db pg_lib \<Rightarrow> int \<Rightarrow> int \<Rightarrow> string \<Rightarrow> int \<Rightarrow> ('db pg, bool) M" where
  "pg_queue_offline_message lib to_user_id message_type payload from_user_id =
     exec_then lib
       (''INSERT INTO offline_messages (to_user_id, message_type, payload'' @
        (if 0 < from_user_id then
           '', from_user_id) VALUES ('' @ to_string to_user_id @ '', '' @ to_string message_type @ '', '' @
           quoted lib payload @ '', '' @ to_string from_user_id @ '')''
         else
           '') VALUES ('' @ to_string to_user_id @ '', '' @ to_string message_type @ '', '' @
           quoted lib payload @ '')''))
       (retE True)"

definition offline_of_row :: "string option list \<Rightarrow> (int \<times> string) res" where
  "offline_of_row row =
     bindS (getvalue_int row 0) (\<lambda>t. bindS (PQgetvalue row 1) (\<lambda>p. Inr (t, p)))"

definition pg_get_offline_messages :: "'db pg_lib \<Rightarrow> int \<Rightarrow> ('db pg, (int \<times> string) list) M" where
  "pg_get_offline_messages lib user_id =
     exec_rows lib
       (''SELECT message_type, payload FROM offline_messages WHERE to_user_id = '' @ to_string user_id @
        '' AND delivered = FALSE ORDER BY created_at'') offline_of_row"

definition pg_mark_offline_messages_delivered :: "'db pg_lib \<Rightarrow> int \<Rightarrow> ('db pg, bool) M" where
  "pg_mark_offline_messages_delivered lib user_id =
     exec_then lib
       (''UPDATE offline_messages SET delivered = TRUE WHERE to_user_id = '' @ to_string user_id)
       (retE True)"

subsection \<open>Escaping\<close>

text \<open>\<^verbatim>\<open>PQescapeStringConn\<close> with standard-conforming strings doubles every single quote.\<close>

fun double_quotes :: "string \<Rightarrow> string" where
  "double_quotes [] = []"
| "double_quotes (c # cs) = (if c = CHR 0x27 then [c, c] else [c]) @ double_quotes cs"

subsection \<open>Friendships in the database\<close>

text \<open>
  The database stores each friendship once, as the pair with the smaller id first: adding, removing and
  looking up a friendship run the same statements in both orders of the two users, so they always concern
  the same row.
\<close>

lemma friend_rows_canonical:
  "pg_add_friend lib a b = pg_add_friend lib b a \<and> pg_remove_friend lib a b = pg_remove_friend lib b a \<and>
   pg_are_friends lib a b = pg_are_friends lib b a"
  by (simp add: pg_add_friend_def pg_remove_friend_def pg_are_friends_def canon_pair_commute [of a b])

end
