(* ===== verification/Chat_Utils.thy ===== *)
theory Chat_Utils
  imports Cpp_Std
begin

text \<open>
  \<^verbatim>\<open>server-cpp/src/utils.cpp\<close>: the \<^verbatim>\<open>key=value&key=value\<close> payload format (\<open>parse_kv\<close>,
  \<open>serialize_kv\<close>) and \<open>base64_encode\<close>. The format is a locale: the Android client implements it a
  second time, and both implementations are interpretations of the same contract.
\<close>

subsection \<open>Key-value payloads\<close>

type_synonym kv_map = "(string, string) umap"
type_synonym kv_items = "(string \<times> string) list"

definition parse_kv_pair :: "string \<Rightarrow> kv_map \<Rightarrow> kv_map" where
  "parse_kv_pair piece m =
     (case split_first (CHR ''='') piece of None \<Rightarrow> m | Some (k, v) \<Rightarrow> um_put k v m)"

definition parse_kv :: "string \<Rightarrow> kv_map" where
  "parse_kv s = fold parse_kv_pair (getlines (CHR ''&'') s) []"

fun serialize_kv_from :: "nat \<Rightarrow> kv_items \<Rightarrow> string" where
  "serialize_kv_from i [] = []"
| "serialize_kv_from i ((k, v) # items) =
     (if i \<noteq> 0 then ''&'' else []) @ k @ ''='' @ v @ serialize_kv_from (Suc i) items"

definition serialize_kv :: "kv_items \<Rightarrow> string" where
  "serialize_kv items = serialize_kv_from 0 items"

text \<open>\<^verbatim>\<open>kv["key"]\<close> on the local map: a missing key reads as the empty string.\<close>

definition kv_at :: "kv_map \<Rightarrow> string \<Rightarrow> string" where
  "kv_at kv k = um_at [] kv k"

definition kv_clean :: "kv_items \<Rightarrow> bool" where
  "kv_clean items \<longleftrightarrow>
     list_all (\<lambda>(k, v). CHR ''&'' \<notin> set k \<and> CHR ''='' \<notin> set k \<and> CHR ''&'' \<notin> set v) items"

lemma kv_clean_simps [simp]:
  "kv_clean []"
  "kv_clean ((k, v) # items) \<longleftrightarrow>
     CHR ''&'' \<notin> set k \<and> CHR ''='' \<notin> set k \<and> CHR ''&'' \<notin> set v \<and> kv_clean items"
  "kv_clean (xs @ ys) \<longleftrightarrow> kv_clean xs \<and> kv_clean ys"
  by (auto simp: kv_clean_def)

abbreviation kv_piece :: "string \<times> string \<Rightarrow> string" where
  "kv_piece \<equiv> (\<lambda>(k, v). k @ CHR ''='' # v)"

lemma serialize_kv_from_Suc:
  "serialize_kv_from (Suc i) items =
     (if items = [] then [] else CHR ''&'' # intersperse_concat (CHR ''&'') (map kv_piece items))"
proof (induction items arbitrary: i)
  case Nil
  show ?case by simp
next
  case (Cons x items)
  obtain k v where x: "x = (k, v)" by (cases x)
  from Cons.IH [of "Suc i"] show ?case
    by (cases items) (simp_all add: x)
qed

lemma serialize_kv_eq: "serialize_kv items = intersperse_concat (CHR ''&'') (map kv_piece items)"
proof (cases items)
  case Nil
  then show ?thesis by (simp add: serialize_kv_def)
next
  case (Cons x xs)
  obtain k v where "x = (k, v)" by (cases x)
  with Cons show ?thesis
    by (cases xs) (simp_all add: serialize_kv_def serialize_kv_from_Suc)
qed

lemma fold_parse_kv_pair:
  assumes "kv_clean items"
  shows "fold parse_kv_pair (map kv_piece items) m = fold (\<lambda>(k, v). um_put k v) items m"
  using assms
proof (induction items arbitrary: m)
  case Nil
  show ?case by simp
next
  case (Cons x items)
  obtain k v where "x = (k, v)" by (cases x)
  with Cons show ?case by (simp add: parse_kv_pair_def)
qed

lemma parse_serialize_kv:
  assumes "kv_clean items"
  shows "parse_kv (serialize_kv items) = fold (\<lambda>(k, v). um_put k v) items []"
proof -
  have "\<forall>x\<in>set (map kv_piece items). CHR ''&'' \<notin> set x \<and> x \<noteq> []"
    using assms by (auto simp: kv_clean_def list_all_iff)
  then show ?thesis
    by (simp add: parse_kv_def serialize_kv_eq getlines_intersperse fold_parse_kv_pair assms)
qed

lemma um_get_fold_put:
  "um_get (fold (\<lambda>(k, v). um_put k v) items m) k =
     (case map_of (rev items) k of None \<Rightarrow> um_get m k | Some v \<Rightarrow> Some v)"
  by (induction items arbitrary: m) (auto split: option.splits simp: map_add_def)

text \<open>
  The contract of a key-value codec: what is written with clean keys and values is read back, the
  last binding of a key winning; and whatever is read is clean, so it can be written again.
\<close>

locale kv_codec =
  fixes ser :: "kv_items \<Rightarrow> string"
    and par :: "string \<Rightarrow> kv_map"
  assumes get_par_ser: "kv_clean items \<Longrightarrow> um_get (par (ser items)) k = map_of (rev items) k"
    and par_clean: "um_get (par s) k = Some v \<Longrightarrow>
      CHR ''&'' \<notin> set k \<and> CHR ''='' \<notin> set k \<and> CHR ''&'' \<notin> set v"
begin

lemma get_par_ser_distinct:
  assumes "kv_clean items" and "distinct (map fst items)" and "(k, v) \<in> set items"
  shows "um_get (par (ser items)) k = Some v"
proof -
  have "distinct (map fst (rev items))"
    using assms(2) by (simp add: rev_map [symmetric])
  with assms show ?thesis
    by (simp add: get_par_ser map_of_eq_Some_iff)
qed

text \<open>A value that was read can be embedded under any clean key and read back unchanged.\<close>

lemma reencode:
  assumes "um_get (par s) k = Some v" and "kv_clean [(k', [])]"
  shows "um_get (par (ser [(k', v)])) k' = Some v"
  using assms par_clean [OF assms(1)] by (simp add: get_par_ser)

end

lemma getlines_acc_no_delim_in:
  "x \<in> set (getlines_acc d acc s) \<Longrightarrow> d \<notin> set acc \<Longrightarrow> d \<notin> set x"
  by (induction s arbitrary: acc) (force split: if_splits)+

lemma getlines_no_delim_in: "x \<in> set (getlines d s) \<Longrightarrow> d \<notin> set x"
  by (auto simp: getlines_def dest: getlines_acc_no_delim_in)

lemma split_first_parts:
  assumes "split_first d s = Some (k, v)"
  shows "d \<notin> set k \<and> set k \<subseteq> set s \<and> set v \<subseteq> set s"
proof -
  from assms have k: "k = takeWhile (\<lambda>c. c \<noteq> d) s" and v: "v = tl (dropWhile (\<lambda>c. c \<noteq> d) s)"
    by (auto simp: split_first_def split: if_splits)
  have "set v \<subseteq> set (dropWhile (\<lambda>c. c \<noteq> d) s)"
    unfolding v by (metis list.set_sel(2) subsetI tl_Nil)
  also have "\<dots> \<subseteq> set s"
    by (meson set_dropWhileD subsetI)
  finally show ?thesis
    using k by (auto dest: set_takeWhileD)
qed

lemma parse_kv_pair_clean:
  assumes "CHR ''&'' \<notin> set piece"
    and "\<And>k v. um_get m k = Some v \<Longrightarrow> kv_clean [(k, v)]"
    and "um_get (parse_kv_pair piece m) k = Some v"
  shows "kv_clean [(k, v)]"
  using assms split_first_parts [of "CHR ''=''" piece]
  by (fastforce simp: parse_kv_pair_def split: option.splits if_splits)

lemma fold_parse_kv_pair_clean:
  assumes "\<And>x. x \<in> set pieces \<Longrightarrow> CHR ''&'' \<notin> set x"
    and "\<And>k v. um_get m k = Some v \<Longrightarrow> kv_clean [(k, v)]"
    and "um_get (fold parse_kv_pair pieces m) k = Some v"
  shows "kv_clean [(k, v)]"
  using assms
proof (induction pieces arbitrary: m)
  case Nil
  then show ?case by simp
next
  case (Cons x xs)
  show ?case
  proof (rule Cons.IH)
    show "um_get (fold parse_kv_pair xs (parse_kv_pair x m)) k = Some v"
      using Cons.prems(3) by simp
    show "kv_clean [(k', v')]" if "um_get (parse_kv_pair x m) k' = Some v'" for k' v'
      using parse_kv_pair_clean [OF _ Cons.prems(2) that] Cons.prems(1) by simp
  qed (use Cons.prems(1) in simp)
qed

interpretation server_kv: kv_codec serialize_kv parse_kv
proof
  fix items k
  assume "kv_clean items"
  then show "um_get (parse_kv (serialize_kv items)) k = map_of (rev items) k"
    by (simp add: parse_serialize_kv um_get_fold_put split: option.splits)
next
  fix s k v
  assume "um_get (parse_kv s) k = Some v"
  then have "kv_clean [(k, v)]"
    unfolding parse_kv_def
    by (rule fold_parse_kv_pair_clean [rotated 2]) (auto dest: getlines_no_delim_in)
  then show "CHR ''&'' \<notin> set k \<and> CHR ''='' \<notin> set k \<and> CHR ''&'' \<notin> set v"
    by simp
qed

text \<open>
  A payload written by \<open>serialize_kv\<close> from keys without \<^verbatim>\<open>&\<close> and \<^verbatim>\<open>=\<close> and values without \<^verbatim>\<open>&\<close> is read
  back by \<open>parse_kv\<close> key by key, the last of several bindings of a key winning; and what is read, and written
  again under the same key, reads the same.
\<close>

lemma payload_roundtrip:
  assumes "kv_clean items"
  shows "um_get (parse_kv (serialize_kv items)) k = map_of (rev items) k \<and>
    (\<forall>v. um_get (parse_kv (serialize_kv items)) k = Some v \<longrightarrow>
      um_get (parse_kv (serialize_kv [(k, v)])) k = Some v)"
proof -
  have "um_get (parse_kv (serialize_kv [(k, v)])) k = Some v"
    if "um_get (parse_kv (serialize_kv items)) k = Some v" for v
    using server_kv.reencode [OF that, of k] server_kv.par_clean [OF that] by simp
  then show ?thesis using server_kv.get_par_ser [OF assms] by simp
qed

lemma kv_at_clean: "CHR ''&'' \<notin> set (kv_at (parse_kv s) k)"
  using server_kv.par_clean [of s k] by (auto simp: kv_at_def um_at_def split: option.splits)

lemma kv_at_serialize:
  "kv_clean items \<Longrightarrow>
   kv_at (parse_kv (serialize_kv items)) k = (case map_of (rev items) k of None \<Rightarrow> [] | Some v \<Rightarrow> v)"
  by (simp add: kv_at_def um_at_def server_kv.get_par_ser)

lemma to_string_clean [simp]: "CHR ''&'' \<notin> set (to_string i)"
  by (auto dest: to_string_chars simp: is_digit_def)

subsection \<open>Base64\<close>

definition b64_chars :: string where
  "b64_chars = ''ABCDEFGHIJKLMNOPQRSTUVWXYZabcdefghijklmnopqrstuvwxyz0123456789+/''"

text \<open>
  \<open>b64_emit\<close> is \<^verbatim>\<open>b64_chars[(val >> sh) & 0x3F]\<close>. The accumulator \<open>val\<close> is a C++ \<^verbatim>\<open>int\<close> that is
  shifted left by 8 for every input byte and never reset, so it wraps on long inputs: the wrap is
  written out. \<^verbatim>\<open>>>\<close> on a negative \<^verbatim>\<open>int\<close> is the arithmetic shift, a division rounding down.
\<close>

definition b64_emit :: "int \<Rightarrow> nat \<Rightarrow> char" where
  "b64_emit val sh = b64_chars ! nat ((val div 2 ^ sh) mod 64)"

function b64_drain :: "int \<Rightarrow> int \<Rightarrow> string \<Rightarrow> int \<times> string" where
  "b64_drain val valb out =
     (if 0 \<le> valb then b64_drain val (valb - 6) (out @ [b64_emit val (nat valb)]) else (valb, out))"
  by pat_completeness auto
termination
  by (relation "measure (\<lambda>(val, valb, out). nat (valb + 6))") auto

declare b64_drain.simps [simp del]

fun b64_loop :: "string \<Rightarrow> int \<Rightarrow> int \<Rightarrow> string \<Rightarrow> int \<times> int \<times> string" where
  "b64_loop [] val valb out = (val, valb, out)"
| "b64_loop (c # cs) val valb out =
     (let val' = wrap_int32 (wrap_int32 (val * 256) + int (of_char c));
          (valb', out') = b64_drain val' (valb + 8) out
      in b64_loop cs val' valb' out')"

fun b64_pad :: "nat \<Rightarrow> string \<Rightarrow> string" where
  "b64_pad 0 out = out"
| "b64_pad (Suc n) out = (if length out mod 4 = 0 then out else b64_pad n (out @ ''=''))"

text \<open>
  The padding loop \<^verbatim>\<open>while (out.size() % 4) out.push_back('=')\<close> runs at most three times, so three
  rounds of \<open>b64_pad\<close> are all of it.
\<close>

definition base64_encode :: "string \<Rightarrow> string" where
  "base64_encode s =
     (let (val, valb, out) = b64_loop s 0 (- 6) [];
          out' = (if - 6 < valb then out @ [b64_emit (wrap_int32 (val * 256)) (nat (valb + 8))] else out)
      in b64_pad 3 out')"

text \<open>The specification of RFC 4648: three bytes become four characters, without an accumulator.\<close>

fun base64_spec :: "string \<Rightarrow> string" where
  "base64_spec [] = []"
| "base64_spec [a] =
     [b64_chars ! (of_char a div 4), b64_chars ! ((of_char a mod 4) * 16), CHR ''='', CHR ''='']"
| "base64_spec [a, b] =
     [b64_chars ! (of_char a div 4),
      b64_chars ! ((of_char a mod 4) * 16 + of_char b div 16),
      b64_chars ! ((of_char b mod 16) * 4), CHR ''='']"
| "base64_spec (a # b # c # cs) =
     b64_chars ! (of_char a div 4) #
     b64_chars ! ((of_char a mod 4) * 16 + of_char b div 16) #
     b64_chars ! ((of_char b mod 16) * 4 + of_char c div 64) #
     b64_chars ! (of_char c mod 64) # base64_spec cs"


lemma wrap_int32_mod [simp]: "n \<le> 32 \<Longrightarrow> wrap_int32 x mod 2 ^ n = x mod 2 ^ n"
proof -
  assume n: "n \<le> 32"
  then have dvd: "(2 ^ n :: int) dvd 2 ^ 32" by (rule le_imp_power_dvd)
  have "wrap_int32 x mod 2 ^ n = ((x + 2 ^ 31) mod 2 ^ 32 mod 2 ^ n - 2 ^ 31) mod 2 ^ n"
    by (simp add: wrap_int32_def mod_diff_left_eq)
  also have "(x + 2 ^ 31) mod 2 ^ 32 mod 2 ^ n = (x + 2 ^ 31) mod 2 ^ n"
    by (rule mod_mod_cancel [OF dvd])
  also have "((x + 2 ^ 31) mod 2 ^ n - 2 ^ 31) mod 2 ^ n = x mod 2 ^ n"
    by (simp add: mod_diff_left_eq)
  finally show ?thesis .
qed

text \<open>
  Only \<open>sh + 6\<close> low bits of the accumulator are read, so its wrap-around is harmless: the emitted
  character is that of the low bits \<open>r\<close>.
\<close>

lemma b64_emit_low:
  assumes "val mod 2 ^ n = r" and "sh + 6 \<le> n"
  shows "b64_emit val sh = b64_chars ! nat ((r div 2 ^ sh) mod 64)"
proof -
  have slice: "(z div 2 ^ sh) mod 64 = drop_bit sh (take_bit (sh + 6) z)" for z :: int
  proof -
    have "(z div 2 ^ sh) mod 64 = take_bit 6 (drop_bit sh z)"
      by (simp add: take_bit_eq_mod drop_bit_eq_div)
    then show ?thesis by (simp add: drop_bit_take_bit)
  qed
  have "take_bit (sh + 6) val = take_bit (sh + 6) r"
    using assms by (auto simp flip: take_bit_eq_mod simp: min_absorb1)
  then show ?thesis
    by (simp only: b64_emit_def slice)
qed

abbreviation b64_acc :: "int \<Rightarrow> char \<Rightarrow> int" where
  "b64_acc val c \<equiv> wrap_int32 (wrap_int32 (val * 256) + int (of_char c))"

lemma b64_acc_mod:
  assumes "val mod 2 ^ n = int r" and "n \<le> 24"
  shows "b64_acc val c mod 2 ^ (n + 8) = int (r * 256 + of_char c)"
proof -
  let ?c = "of_char c :: nat"
  obtain q where q: "val = q * 2 ^ n + int r"
    using assms(1) by (metis div_mult_mod_eq)
  have k: "n + 8 \<le> 32" using assms(2) by simp
  have "int r < 2 ^ n"
    using assms(1) by (metis pos_mod_bound zero_less_numeral zero_less_power)
  then have r: "r < 2 ^ n" by simp
  have "b64_acc val c mod 2 ^ (n + 8) = (wrap_int32 (val * 256) + int ?c) mod 2 ^ (n + 8)"
    by (rule wrap_int32_mod [OF k])
  also have "\<dots> = (wrap_int32 (val * 256) mod 2 ^ (n + 8) + int ?c) mod 2 ^ (n + 8)"
    by (rule mod_add_left_eq [symmetric])
  also have "\<dots> = (val * 256 + int ?c) mod 2 ^ (n + 8)"
    by (simp only: wrap_int32_mod [OF k] mod_add_left_eq)
  also have "val * 256 + int ?c = (int r * 256 + int ?c) + q * 2 ^ (n + 8)"
    by (simp add: q power_add algebra_simps)
  also have "\<dots> mod 2 ^ (n + 8) = int (r * 256 + ?c) mod 2 ^ (n + 8)"
    by simp
  also have "\<dots> = int ((r * 256 + ?c) mod 2 ^ (n + 8))"
    by (simp add: of_nat_mod)
  also have "(r * 256 + ?c) mod 2 ^ (n + 8) = r * 256 + ?c"
  proof (rule mod_less)
    have "r * 256 + ?c < Suc r * 256" by simp
    also have "\<dots> \<le> 2 ^ n * 256" using r by (intro mult_le_mono1) simp
    finally show "r * 256 + ?c < 2 ^ (n + 8)" by (simp add: power_add)
  qed
  finally show ?thesis .
qed

lemma b64_emit_nat:
  assumes "val mod 2 ^ n = int r" and "sh + 6 \<le> n"
  shows "b64_emit val sh = b64_chars ! ((r div 2 ^ sh) mod 64)"
proof -
  have "int r div 2 ^ sh mod 64 = int (r div 2 ^ sh mod 64)"
    by (simp add: of_nat_div of_nat_mod)
  with b64_emit_low [OF assms] show ?thesis by (simp only: nat_int)
qed

lemma b64_drain_steps:
  "b64_drain v 2 out = (- 4, out @ [b64_emit v 2])"
  "b64_drain v 4 out = (- 2, out @ [b64_emit v 4])"
  "b64_drain v 6 out = (- 6, out @ [b64_emit v 6, b64_emit v 0])"
  by (simp_all add: b64_drain.simps)

text \<open>The low bits of the accumulator after one, two and three bytes of a group.\<close>

lemma b64_acc1: "b64_acc val a mod 2 ^ 8 = int (of_char a)"
  using b64_acc_mod [of val 0 0 a] by simp

lemma b64_acc2: "b64_acc (b64_acc val a) b mod 2 ^ 16 = int (of_char a * 256 + of_char b)"
  using b64_acc_mod [OF b64_acc1, of val a b] by simp

lemma b64_acc3:
  "b64_acc (b64_acc (b64_acc val a) b) c mod 2 ^ 24 =
     int ((of_char a * 256 + of_char b) * 256 + of_char c)"
  using b64_acc_mod [OF b64_acc2, of val a b c] by simp

text \<open>The leftover of one or two bytes, shifted left once more without a byte.\<close>

lemma b64_flush:
  assumes "val mod 2 ^ n = int r" and "n \<le> 24"
  shows "wrap_int32 (val * 256) mod 2 ^ (n + 8) = int (r * 256)"
proof -
  have "b64_acc val (CHR 0x00) mod 2 ^ (n + 8) = int (r * 256)"
    using b64_acc_mod [OF assms, of "CHR 0x00"] by simp
  moreover have "wrap_int32 (wrap_int32 x) = wrap_int32 x" for x
    by (rule wrap_int32_id) (rule in_int32_wrap)
  ultimately show ?thesis by simp
qed

definition b64_finish :: "int \<times> int \<times> string \<Rightarrow> string" where
  "b64_finish = (\<lambda>(val, valb, out).
     b64_pad 3 (if - 6 < valb then out @ [b64_emit (wrap_int32 (val * 256)) (nat (valb + 8))] else out))"

lemma base64_encode_finish: "base64_encode s = b64_finish (b64_loop s 0 (- 6) [])"
  by (simp add: base64_encode_def b64_finish_def Let_def split: prod.split)

lemma b64_shift_bits:
  fixes x d :: nat
  assumes "d < 2 ^ k"
  shows "(x * 2 ^ k + d) div 2 ^ k = x" and "(x * 2 ^ k + d) mod (2 ^ m * 2 ^ k) = (x mod 2 ^ m) * 2 ^ k + d"
proof -
  show "(x * 2 ^ k + d) div 2 ^ k = x" using assms by simp
  have "(x * 2 ^ k + d) mod (2 ^ m * 2 ^ k) = 2 ^ k * ((x * 2 ^ k + d) div 2 ^ k mod 2 ^ m) + (x * 2 ^ k + d) mod 2 ^ k"
    by (metis mod_mult2_eq mult.commute)
  with assms show "(x * 2 ^ k + d) mod (2 ^ m * 2 ^ k) = (x mod 2 ^ m) * 2 ^ k + d"
    by simp
qed

lemma b64_group_bits:
  fixes a b c :: nat
  assumes "a < 256" "b < 256" "c < 256"
  shows "a div 4 mod 64 = a div 4"
    and "(a * 256) div 16 mod 64 = (a mod 4) * 16"
    and "(a * 256 + b) div 16 mod 64 = (a mod 4) * 16 + b div 16"
    and "((a * 256 + b) * 256) div 64 mod 64 = (b mod 16) * 4"
    and "((a * 256 + b) * 256 + c) div 64 mod 64 = (b mod 16) * 4 + c div 64"
    and "((a * 256 + b) * 256 + c) mod 64 = c mod 64"
proof -
  show "a div 4 mod 64 = a div 4" using assms by simp
  have "(a * 256) div 16 = a * 2 ^ 4 + 0" by simp
  then show "(a * 256) div 16 mod 64 = (a mod 4) * 16"
    using b64_shift_bits(2) [of 0 4 a 2] by (simp add: mult.commute)
  have "(a * 256 + b) div 16 = a * 2 ^ 4 + b div 16" by (simp add: div_mult_self3 mult.assoc)
  then show "(a * 256 + b) div 16 mod 64 = (a mod 4) * 16 + b div 16"
    using b64_shift_bits(2) [of "b div 16" 4 a 2] assms by simp
  have low: "(a * 256 + b) mod 16 = b mod 16"
    using mod_mult_self3 [of "a * 16" 16 b] by (simp add: mult.assoc)
  have "((a * 256 + b) * 256) div 64 = (a * 256 + b) * 2 ^ 2 + 0" by simp
  with low show "((a * 256 + b) * 256) div 64 mod 64 = (b mod 16) * 4"
    using b64_shift_bits(2) [of 0 2 "a * 256 + b" 4] by (simp add: mult.commute)
  have "((a * 256 + b) * 256 + c) div 64 = (a * 256 + b) * 2 ^ 2 + c div 64"
    using div_mult_self3 [of 64 "(a * 256 + b) * 4" c] by (simp add: mult.assoc)
  with low show "((a * 256 + b) * 256 + c) div 64 mod 64 = (b mod 16) * 4 + c div 64"
    using b64_shift_bits(2) [of "c div 64" 2 "a * 256 + b" 4] assms by simp
  show "((a * 256 + b) * 256 + c) mod 64 = c mod 64"
    using mod_mult_self3 [of "(a * 256 + b) * 4" 64 c] by (simp add: mult.assoc)
qed

lemma b64_mod4:
  assumes "n mod 4 = (0 :: nat)"
  shows "Suc (Suc n) mod 4 \<noteq> 0" and "Suc (Suc (Suc n)) mod 4 \<noteq> 0"
    and "Suc (Suc (Suc (Suc n))) mod 4 = 0"
  using assms by presburger+

lemma b64_pad_done: "length out mod 4 = 0 \<Longrightarrow> b64_pad n out = out"
  by (cases n) simp_all

text \<open>The characters a group of one, two or three bytes emits.\<close>

lemma b64_group_chars:
  fixes a b c :: char
  defines "x \<equiv> of_char a :: nat" and "y \<equiv> of_char b :: nat" and "z \<equiv> of_char c :: nat"
  shows "b64_emit (b64_acc val a) 2 = b64_chars ! (x div 4)"
    and "b64_emit (wrap_int32 (b64_acc val a * 256)) 4 = b64_chars ! ((x mod 4) * 16)"
    and "b64_emit (b64_acc (b64_acc val a) b) 4 = b64_chars ! ((x mod 4) * 16 + y div 16)"
    and "b64_emit (wrap_int32 (b64_acc (b64_acc val a) b * 256)) 6 = b64_chars ! ((y mod 16) * 4)"
    and "b64_emit (b64_acc (b64_acc (b64_acc val a) b) c) 6 = b64_chars ! ((y mod 16) * 4 + z div 64)"
    and "b64_emit (b64_acc (b64_acc (b64_acc val a) b) c) 0 = b64_chars ! (z mod 64)"
proof -
  have byte: "x < 256" "y < 256" "z < 256" by (simp_all add: x_def y_def z_def)
  note bits = b64_group_bits [OF byte, unfolded x_def y_def z_def]
  note acc1 = b64_acc1 [of val a]
  note acc2 = b64_acc2 [of val a b]
  note acc3 = b64_acc3 [of val a b c]
  have pow: "2 ^ 2 = (4 :: nat)" "2 ^ 4 = (16 :: nat)" "2 ^ 6 = (64 :: nat)" "2 ^ 0 = (1 :: nat)"
    by simp_all
  note emit = b64_emit_nat [where n = 8, OF acc1, of 2]
    b64_emit_nat [where n = "8 + 8", OF b64_flush [OF acc1], of 4]
    b64_emit_nat [where n = 16, OF acc2, of 4]
    b64_emit_nat [where n = "16 + 8", OF b64_flush [OF acc2], of 6]
    b64_emit_nat [where n = 24, OF acc3, of 6]
    b64_emit_nat [where n = 24, OF acc3, of 0]
  note emit = emit [unfolded pow bits div_by_1]
  show "b64_emit (b64_acc val a) 2 = b64_chars ! (x div 4)" unfolding x_def y_def z_def by (rule emit(1)) simp
  show "b64_emit (wrap_int32 (b64_acc val a * 256)) 4 = b64_chars ! ((x mod 4) * 16)"
    unfolding x_def y_def z_def by (rule emit(2)) simp_all
  show "b64_emit (b64_acc (b64_acc val a) b) 4 = b64_chars ! ((x mod 4) * 16 + y div 16)"
    unfolding x_def y_def z_def by (rule emit(3)) simp
  show "b64_emit (wrap_int32 (b64_acc (b64_acc val a) b * 256)) 6 = b64_chars ! ((y mod 16) * 4)"
    unfolding x_def y_def z_def by (rule emit(4)) simp_all
  show "b64_emit (b64_acc (b64_acc (b64_acc val a) b) c) 6 = b64_chars ! ((y mod 16) * 4 + z div 64)"
    unfolding x_def y_def z_def by (rule emit(5)) simp
  show "b64_emit (b64_acc (b64_acc (b64_acc val a) b) c) 0 = b64_chars ! (z mod 64)"
    unfolding x_def y_def z_def by (rule emit(6)) simp
qed

lemma b64_loop_spec:
  "length out mod 4 = 0 \<Longrightarrow> b64_finish (b64_loop cs val (- 6) out) = out @ base64_spec cs"
proof (induction cs arbitrary: val out rule: base64_spec.induct)
  case 1
  then show ?case by (simp add: b64_finish_def b64_pad_done)
next
  case (2 a)
  have pad: "b64_pad 3 (out @ [x, y]) = out @ [x, y, CHR ''='', CHR ''='']" for x y
    using b64_mod4 [OF "2.prems"] by (subst numeral_3_eq_3) simp
  show ?case
    by (simp add: b64_finish_def b64_drain_steps pad b64_group_chars)
next
  case (3 a b)
  have pad: "b64_pad 3 (out @ [x, y, z]) = out @ [x, y, z, CHR ''='']" for x y z
    using b64_mod4 [OF "3.prems"] by (subst numeral_3_eq_3) simp
  show ?case
    by (simp add: b64_finish_def b64_drain_steps pad b64_group_chars)
next
  case (4 a b c cs)
  then show ?case
    using b64_mod4(3) [OF "4.prems"] by (simp add: b64_drain_steps b64_group_chars)
qed

lemma base64_encode_spec: "base64_encode s = base64_spec s"
  using b64_loop_spec [of "[]" s 0] by (simp add: base64_encode_finish)

text \<open>
  C32: the server's base64 encoder produces RFC 4648 base64 for every input, although its accumulator is
  a 32-bit \<^verbatim>\<open>int\<close> that is never reset and wraps around on inputs of more than three bytes.
\<close>

theorem base64_encode_correct: "base64_encode s = base64_spec s"
  by (rule base64_encode_spec)

lemma b64_chars_nth: "n < 64 \<Longrightarrow> b64_chars ! n \<in> set b64_chars"
  by (rule nth_mem) (simp add: b64_chars_def)

lemma set_base64_spec: "set (base64_spec s) \<subseteq> insert (CHR ''='') (set b64_chars)"
proof (induction s rule: base64_spec.induct)
  case (4 a b c cs)
  have byte: "of_char x < (256 :: nat)" for x :: char by simp
  have "b64_chars ! (of_char a div 4) \<in> set b64_chars"
    and "b64_chars ! ((of_char a mod 4) * 16 + of_char b div 16) \<in> set b64_chars"
    and "b64_chars ! ((of_char b mod 16) * 4 + of_char c div 64) \<in> set b64_chars"
    and "b64_chars ! (of_char c mod 64) \<in> set b64_chars"
    using byte [of a] byte [of b] byte [of c] by (intro b64_chars_nth; linarith)+
  with "4.IH" show ?case by simp
next
  case (3 a b)
  have byte: "of_char x < (256 :: nat)" for x :: char by simp
  have "b64_chars ! (of_char a div 4) \<in> set b64_chars"
    and "b64_chars ! ((of_char a mod 4) * 16 + of_char b div 16) \<in> set b64_chars"
    and "b64_chars ! ((of_char b mod 16) * 4) \<in> set b64_chars"
    using byte [of a] byte [of b] by (intro b64_chars_nth; linarith)+
  then show ?case by simp
next
  case (2 a)
  have "of_char a < (256 :: nat)" by simp
  then have "b64_chars ! (of_char a div 4) \<in> set b64_chars"
    and "b64_chars ! ((of_char a mod 4) * 16) \<in> set b64_chars"
    by (intro b64_chars_nth; linarith)+
  then show ?case by simp
qed simp

text \<open>An encoded nickname can be embedded in a comma-separated list inside a key-value payload.\<close>

lemma base64_encode_safe:
  "CHR ''&'' \<notin> set (base64_encode s) \<and> CHR '','' \<notin> set (base64_encode s)"
proof -
  have "CHR ''&'' \<notin> insert (CHR ''='') (set b64_chars) \<and> CHR '','' \<notin> insert (CHR ''='') (set b64_chars)"
    by (simp add: b64_chars_def)
  then show ?thesis
    using set_base64_spec [of s] by (auto simp: base64_encode_spec)
qed

end
