(* ===== verification/Chat_Protocol.thy ===== *)
theory Chat_Protocol
  imports Cpp_Std
begin

text \<open>
  \<^verbatim>\<open>server-cpp/include/protocol.h\<close> and the header code of \<^verbatim>\<open>network_utils.cpp\<close>
  (\<open>write_header\<close>) and of \<^verbatim>\<open>message_handler.cpp\<close> (the decoding at the top of the receive loop).
  A frame is a 32-byte big-endian header followed by the payload.
\<close>

unbundle bit_operations_syntax

subsection \<open>Constants and message types\<close>

definition MAGIC :: u32 where "MAGIC = 0x43484154"
definition VERSION :: u8 where "VERSION = 1"
definition HEADER_SIZE :: nat where "HEADER_SIZE = 32"

datatype MessageType =
    REGISTER | LOGIN | LOGOUT | SEARCH_USER | GET_ALL_USERS
  | FRIEND_REQUEST | FRIEND_ACCEPT | FRIEND_DECLINE | UNFRIEND | GET_FRIENDS_LIST
  | DIRECT_MESSAGE | MESSAGE_RECEIVED | TYPING_STATUS | GET_CONVERSATION_HISTORY
  | GET_GROUP_HISTORY | GET_USER_GROUPS | ADD_GROUP_MEMBERS | RENAME_GROUP | SET_GROUP_NICKNAME
  | DELETE_CONVERSATION | CREATE_GROUP | INVITE_TO_GROUP | ACCEPT_GROUP_INVITE
  | DECLINE_GROUP_INVITE | MAKE_ADMIN | REMOVE_FROM_GROUP | LEAVE_GROUP | GROUP_MESSAGE
  | USER_ONLINE | USER_OFFLINE | SUCCESS | ERROR | HEARTBEAT

primrec code :: "MessageType \<Rightarrow> u8" where
  "code REGISTER = 0x01"
| "code LOGIN = 0x02"
| "code LOGOUT = 0x03"
| "code SEARCH_USER = 0x04"
| "code GET_ALL_USERS = 0x05"
| "code FRIEND_REQUEST = 0x10"
| "code FRIEND_ACCEPT = 0x11"
| "code FRIEND_DECLINE = 0x12"
| "code UNFRIEND = 0x13"
| "code GET_FRIENDS_LIST = 0x14"
| "code DIRECT_MESSAGE = 0x20"
| "code MESSAGE_RECEIVED = 0x21"
| "code TYPING_STATUS = 0x22"
| "code GET_CONVERSATION_HISTORY = 0x23"
| "code GET_GROUP_HISTORY = 0x35"
| "code GET_USER_GROUPS = 0x36"
| "code ADD_GROUP_MEMBERS = 0x37"
| "code RENAME_GROUP = 0x38"
| "code SET_GROUP_NICKNAME = 0x39"
| "code DELETE_CONVERSATION = 0x24"
| "code CREATE_GROUP = 0x30"
| "code INVITE_TO_GROUP = 0x31"
| "code ACCEPT_GROUP_INVITE = 0x3A"
| "code DECLINE_GROUP_INVITE = 0x3B"
| "code MAKE_ADMIN = 0x3C"
| "code REMOVE_FROM_GROUP = 0x32"
| "code LEAVE_GROUP = 0x33"
| "code GROUP_MESSAGE = 0x34"
| "code USER_ONLINE = 0x40"
| "code USER_OFFLINE = 0x41"
| "code SUCCESS = 0xF0"
| "code ERROR = 0xF1"
| "code HEARTBEAT = 0xFF"

definition all_types :: "MessageType list" where
  "all_types =
    [REGISTER, LOGIN, LOGOUT, SEARCH_USER, GET_ALL_USERS, FRIEND_REQUEST, FRIEND_ACCEPT,
     FRIEND_DECLINE, UNFRIEND, GET_FRIENDS_LIST, DIRECT_MESSAGE, MESSAGE_RECEIVED, TYPING_STATUS,
     GET_CONVERSATION_HISTORY, GET_GROUP_HISTORY, GET_USER_GROUPS, ADD_GROUP_MEMBERS, RENAME_GROUP,
     SET_GROUP_NICKNAME, DELETE_CONVERSATION, CREATE_GROUP, INVITE_TO_GROUP, ACCEPT_GROUP_INVITE,
     DECLINE_GROUP_INVITE, MAKE_ADMIN, REMOVE_FROM_GROUP, LEAVE_GROUP, GROUP_MESSAGE, USER_ONLINE,
     USER_OFFLINE, SUCCESS, ERROR, HEARTBEAT]"

text \<open>The enumerator a \<^verbatim>\<open>switch\<close> on a raw type byte selects; \<open>None\<close> is the \<^verbatim>\<open>default\<close> branch.\<close>

definition type_of_code :: "u8 \<Rightarrow> MessageType option" where
  "type_of_code b = find (\<lambda>t. code t = b) all_types"

lemma all_types_complete [simp]: "t \<in> set all_types"
  by (cases t) (simp_all add: all_types_def)

lemma distinct_codes: "distinct (map code all_types)"
  by (simp add: all_types_def)

lemma code_inj: "code s = code t \<Longrightarrow> s = t"
proof -
  assume "code s = code t"
  moreover have "inj_on code (set all_types)"
    using distinct_codes by (simp add: distinct_map)
  ultimately show "s = t" by (auto dest: inj_onD)
qed

lemma code_eq_iff [simp]: "code s = code t \<longleftrightarrow> s = t"
  using code_inj by blast

lemma type_of_code_code [simp]: "type_of_code (code t) = Some t"
proof -
  have "\<exists>u. find (\<lambda>u. code u = code t) all_types = Some u"
    by (cases "find (\<lambda>u. code u = code t) all_types") (auto simp: find_None_iff)
  then obtain u where u: "find (\<lambda>u. code u = code t) all_types = Some u" ..
  then have "code u = code t" by (auto simp: find_Some_iff)
  with u show ?thesis by (simp add: type_of_code_def)
qed

lemma type_of_code_Some: "type_of_code b = Some t \<longleftrightarrow> b = code t"
  by (auto simp: type_of_code_def find_Some_iff dest!: type_of_code_code [unfolded type_of_code_def, THEN sym, THEN trans])
     (metis type_of_code_code type_of_code_def find_Some_iff)+

subsection \<open>Big-endian words\<close>

text \<open>\<open>be32 w\<close> are the four bytes that \<^verbatim>\<open>memcpy\<close> copies out of \<^verbatim>\<open>htonl(w)\<close>; \<open>of_be32\<close> is
  \<^verbatim>\<open>ntohl\<close> of four copied bytes.\<close>

definition be32 :: "u32 \<Rightarrow> byte list" where
  "be32 w = [ucast (drop_bit 24 w), ucast (drop_bit 16 w), ucast (drop_bit 8 w), ucast w]"

definition of_be32 :: "byte list \<Rightarrow> u32" where
  "of_be32 bs = push_bit 24 (ucast (bs ! 0)) OR push_bit 16 (ucast (bs ! 1)) OR
                push_bit 8 (ucast (bs ! 2)) OR ucast (bs ! 3)"

lemma length_be32 [simp]: "length (be32 w) = 4"
  by (simp add: be32_def)

lemma of_be32_be32 [simp]: "of_be32 (be32 w) = w"
proof (rule bit_word_eqI)
  fix n
  assume "n < LENGTH(32)"
  then have n: "n < 32" by simp
  then consider "n < 8" | "8 \<le> n" "n < 16" | "16 \<le> n" "n < 24" | "24 \<le> n" "n < 32"
    by linarith
  then show "bit (of_be32 (be32 w)) n \<longleftrightarrow> bit w n"
    by cases (auto simp: of_be32_def be32_def bit_simps)
qed

lemma of_be32_prefix [simp]: "of_be32 (be32 w @ bs) = w"
proof -
  have "of_be32 (be32 w @ bs) = of_be32 (be32 w)"
    by (simp add: of_be32_def nth_append)
  then show ?thesis by simp
qed

text \<open>\<^verbatim>\<open>memcpy(out + off, bs, n)\<close> into a buffer; a single store \<^verbatim>\<open>out[off] = b\<close> is the case
  of one byte.\<close>

definition memcpy_at :: "nat \<Rightarrow> byte list \<Rightarrow> byte list \<Rightarrow> byte list" where
  "memcpy_at off bs out = take off out @ bs @ drop (off + length bs) out"

definition slice :: "nat \<Rightarrow> nat \<Rightarrow> byte list \<Rightarrow> byte list" where
  "slice off n buf = take n (drop off buf)"

subsection \<open>The header\<close>

definition write_header :: "u64 \<Rightarrow> u8 \<Rightarrow> u32 \<Rightarrow> u32 \<Rightarrow> byte list" where
  "write_header ts ty len userId =
     (let out = replicate HEADER_SIZE 0;
          out = memcpy_at 0 (be32 MAGIC) out;
          out = memcpy_at 4 [VERSION] out;
          out = memcpy_at 5 [ty] out;
          out = memcpy_at 6 (be32 len) out;
          out = memcpy_at 10 (be32 (ucast (drop_bit 32 ts))) out;
          out = memcpy_at 14 (be32 (ucast (ts AND 0xFFFFFFFF))) out;
          out = memcpy_at 18 (be32 userId) out;
          out = memcpy_at 22 (be32 0) out
      in out)"

record header =
  h_magic :: u32
  h_version :: u8
  h_type :: u8
  h_length :: u32
  h_ts :: u64
  h_userId :: u32
  h_checksum :: u32

definition parse_header :: "byte list \<Rightarrow> header" where
  "parse_header buf =
     (let ts_high = of_be32 (slice 10 4 buf);
          ts_low = of_be32 (slice 14 4 buf)
      in \<lparr>h_magic = of_be32 (slice 0 4 buf), h_version = buf ! 4, h_type = buf ! 5,
          h_length = of_be32 (slice 6 4 buf),
          h_ts = push_bit 32 (ucast ts_high) OR ucast ts_low,
          h_userId = of_be32 (slice 18 4 buf), h_checksum = of_be32 (slice 22 4 buf)\<rparr>)"

definition valid_header :: "header \<Rightarrow> bool" where
  "valid_header h \<longleftrightarrow> h_magic h = MAGIC \<and> h_version h = VERSION"

lemma memcpy_at_zeros:
  "length bs \<le> n \<Longrightarrow> memcpy_at 0 bs (replicate n 0) = bs @ replicate (n - length bs) 0"
  "length pre = off \<Longrightarrow> length bs \<le> n \<Longrightarrow>
     memcpy_at off bs (pre @ replicate n 0) = (pre @ bs) @ replicate (n - length bs) 0"
  by (simp_all add: memcpy_at_def)

lemma write_header_layout:
  "write_header ts ty len userId =
     be32 MAGIC @ [VERSION, ty] @ be32 len @ be32 (ucast (drop_bit 32 ts)) @
     be32 (ucast (ts AND 0xFFFFFFFF)) @ be32 userId @ be32 0 @ replicate 6 0"
proof -
  have "write_header ts ty len userId =
     (((((((be32 MAGIC @ [VERSION]) @ [ty]) @ be32 len) @ be32 (ucast (drop_bit 32 ts))) @
     be32 (ucast (ts AND 0xFFFFFFFF))) @ be32 userId) @ be32 0) @ replicate 6 0"
    by (simp add: write_header_def Let_def HEADER_SIZE_def memcpy_at_zeros del: append_assoc)
  then show ?thesis by simp
qed

lemma length_write_header [simp]: "length (write_header ts ty len userId) = HEADER_SIZE"
  by (simp add: write_header_layout HEADER_SIZE_def)

lemma split_ts:
  "push_bit 32 (ucast (ucast (drop_bit 32 ts) :: u32)) OR ucast (ucast (ts AND 0xFFFFFFFF) :: u32) = (ts :: u64)"
  for ts :: u64
proof (rule bit_word_eqI)
  fix n
  assume "n < LENGTH(64)"
  then have "n < 64" by simp
  have mask: "(0xFFFFFFFF :: u64) = mask 32" by (simp add: mask_eq_decr_exp)
  show "bit (push_bit 32 (ucast (ucast (drop_bit 32 ts) :: u32)) OR
      ucast (ucast (ts AND 0xFFFFFFFF) :: u32) :: u64) n = bit ts n"
    using \<open>n < 64\<close> by (cases "n < 32") (auto simp: bit_simps mask)
qed

text \<open>What the server decodes is what was written.\<close>

lemma parse_write_header:
  "parse_header (write_header ts ty len userId) =
     \<lparr>h_magic = MAGIC, h_version = VERSION, h_type = ty, h_length = len, h_ts = ts,
      h_userId = userId, h_checksum = 0\<rparr>"
  by (simp add: parse_header_def write_header_layout slice_def nth_append split_ts)

end
