(* ===== verification/Server_State.thy ===== *)
theory Server_State
  imports Pg_Persistence Chat_Utils Chat_Protocol
begin

text \<open>
  \<^verbatim>\<open>server-cpp/src/server_state.cpp\<close>: the global state of the server and its two helpers, with the
  environment the handlers run in and the effects they share.

  The record \<open>server\<close> holds the globals of the namespace \<^verbatim>\<open>server_state\<close>, the users file of the
  fallback persistence, and what leaves the process: the calls of \<^verbatim>\<open>network::send_message\<close> in
  order (\<open>outbox\<close>) and the entries of \<^verbatim>\<open>logger::log_activity\<close>. A handler is one atomic computation
  over this state; the mutex \<^verbatim>\<open>g_mutex\<close> has no state of its own in the model.

  The record \<open>env\<close> is what a handler reads and does not own: libpq, the clock, and the order in
  which a loop visits an unordered map, given by two functions that permute a list of keys.
\<close>

record sent =
  s_fd :: int
  s_type :: u8
  s_payload :: string
  s_userId :: u32

record 'db env =
  pq :: "'db pg_lib"
  now_s :: int \<comment> \<open>\<^verbatim>\<open>time(nullptr)\<close>\<close>
  now_ms :: int \<comment> \<open>\<^verbatim>\<open>system_clock::now()\<close> in milliseconds\<close>
  iter_ids :: "int list \<Rightarrow> int list"
  iter_names :: "string list \<Rightarrow> string list"
  fs_writable :: bool \<comment> \<open>whether \<^verbatim>\<open>std::ofstream\<close> opens the users file\<close>

record 'db server =
  g_pg_persistence :: "'db pg option"
  g_users_by_name :: "(string, user) umap"
  g_users_by_id :: "(int, user) umap"
  g_next_user_id :: int
  g_friends :: "(int, (int, bool) umap) umap"
  g_friend_requests :: "(int, int list) umap"
  g_online_clients :: "(int, int) umap"
  g_groups :: "(int, group) umap"
  g_next_group_id :: int
  g_offline_messages :: "(int, pending_msg list) umap"
  users_file :: "string option"
  outbox :: "sent list"
  activity :: "(string \<times> int \<times> string) list"

definition env_ok :: "'db env \<Rightarrow> bool" where
  "env_ok e \<longleftrightarrow> (\<forall>ks. mset (iter_ids e ks) = mset ks) \<and> (\<forall>ks. mset (iter_names e ks) = mset ks)"

definition initial_server :: "'db server" where
  "initial_server =
     \<lparr>g_pg_persistence = None, g_users_by_name = [], g_users_by_id = [], g_next_user_id = 1,
      g_friends = [], g_friend_requests = [], g_online_clients = [], g_groups = [],
      g_next_group_id = 1, g_offline_messages = [], users_file = None, outbox = [], activity = []\<rparr>"

lemma env_ok_set [simp]:
  "env_ok e \<Longrightarrow> set (iter_ids e ks) = set ks"
  "env_ok e \<Longrightarrow> set (iter_names e ns) = set ns"
  by (metis env_ok_def mset_eq_setD)+

lemma env_ok_distinct [simp]:
  "env_ok e \<Longrightarrow> distinct (iter_ids e ks) = distinct ks"
  "env_ok e \<Longrightarrow> distinct (iter_names e ns) = distinct ns"
  by (metis env_ok_def mset_eq_imp_distinct_iff)+

lemma env_ok_length [simp]:
  "env_ok e \<Longrightarrow> length (iter_ids e ks) = length ks"
  by (metis env_ok_def size_mset)

subsection \<open>Effects\<close>

definition send :: "int \<Rightarrow> u8 \<Rightarrow> string \<Rightarrow> u32 \<Rightarrow> ('db server, unit) M" where
  "send fd ty payload userId =
     modifyE (\<lambda>s. s\<lparr>outbox := outbox s @ [\<lparr>s_fd = fd, s_type = ty, s_payload = payload, s_userId = userId\<rparr>]\<rparr>)"

definition log_activity :: "string \<Rightarrow> int \<Rightarrow> string \<Rightarrow> ('db server, unit) M" where
  "log_activity action userId details =
     modifyE (\<lambda>s. s\<lparr>activity := activity s @ [(action, userId, details)]\<rparr>)"

text \<open>\<^verbatim>\<open>g_pg_persistence->op(...)\<close>; on a null \<^verbatim>\<open>g_pg_persistence\<close> the pointer is dereferenced.\<close>

definition pg_call :: "('db pg, 'a) M \<Rightarrow> ('db server, 'a) M" where
  "pg_call op = (\<lambda>s.
     case g_pg_persistence s of
       None \<Rightarrow> (Inl Null_deref, s)
     | Some p \<Rightarrow> (case op p of (r, p') \<Rightarrow> (r, s\<lparr>g_pg_persistence := Some p'\<rparr>)))"

definition has_pg :: "'db server \<Rightarrow> bool" where
  "has_pg s = (g_pg_persistence s \<noteq> None)"

definition whenE :: "bool \<Rightarrow> ('s, unit) M \<Rightarrow> ('s, unit) M" where
  "whenE b m = (if b then m else retE ())"

text \<open>\<^verbatim>\<open>if (g_pg_persistence) g_pg_persistence->op(...);\<close> with the result ignored.\<close>

definition if_pg :: "('db pg, 'a) M \<Rightarrow> ('db server, unit) M" where
  "if_pg op = bindE (getsE has_pg) (\<lambda>b. whenE b (bindE (pg_call op) (\<lambda>_. retE ())))"

subsection \<open>Helpers of server\_state.cpp\<close>

definition enqueue_offline :: "int \<Rightarrow> u8 \<Rightarrow> string \<Rightarrow> u32 \<Rightarrow> ('db server, unit) M" where
  "enqueue_offline userId ty payload fromUserId =
     modifyE (\<lambda>s. s\<lparr>g_offline_messages :=
       um_put userId
         (um_at [] (g_offline_messages s) userId @
          [\<lparr>pm_type = ty, pm_payload = payload, pm_fromUserId = fromUserId\<rparr>])
         (g_offline_messages s)\<rparr>)"

text \<open>\<^verbatim>\<open>int fd = -1; auto it = g_online_clients.find(id); if (it != end) fd = it->second;\<close>\<close>

definition online_fd :: "'db server \<Rightarrow> int \<Rightarrow> int" where
  "online_fd s uid = um_at (- 1) (g_online_clients s) uid"

text \<open>The friends of a user: the keys of \<^verbatim>\<open>g_friends[userId]\<close> that are mapped to true.\<close>

definition friend_map :: "'db server \<Rightarrow> int \<Rightarrow> (int, bool) umap" where
  "friend_map s uid = um_at [] (g_friends s) uid"

definition friends_listed :: "'db env \<Rightarrow> 'db server \<Rightarrow> int \<Rightarrow> int list" where
  "friends_listed e s uid =
     filter (\<lambda>k. um_at False (friend_map s uid) k) (iter_ids e (um_keys (friend_map s uid)))"

definition touch_friends :: "int \<Rightarrow> ('db server, unit) M" where
  "touch_friends uid = modifyE (\<lambda>s. s\<lparr>g_friends := um_touch [] uid (g_friends s)\<rparr>)"

definition notify_friends_status_change :: "'db env \<Rightarrow> int \<Rightarrow> bool \<Rightarrow> ('db server, unit) M" where
  "notify_friends_status_change e userId online =
     seqE (touch_friends userId)
       (bindE (getsE (\<lambda>s. friends_listed e s userId)) (\<lambda>friends.
         forE friends (\<lambda>fid.
           bindE (getsE (\<lambda>s. online_fd s fid)) (\<lambda>fd.
             whenE (fd \<noteq> - 1)
               (send fd (code (if online then USER_ONLINE else USER_OFFLINE))
                 (serialize_kv [(''userId'', to_string userId)]) (u32_of_int userId))))))"

subsection \<open>Shared pieces of the handlers\<close>

text \<open>The online-or-queue delivery that the message and group handlers repeat.\<close>

definition deliver :: "u8 \<Rightarrow> string \<Rightarrow> u32 \<Rightarrow> int \<Rightarrow> ('db server, unit) M" where
  "deliver ty out from uid =
     bindE (getsE (\<lambda>s. online_fd s uid)) (\<lambda>fd.
       if fd \<noteq> - 1 then send fd ty out from else enqueue_offline uid ty out from)"

definition broadcast :: "u8 \<Rightarrow> string \<Rightarrow> u32 \<Rightarrow> int list \<Rightarrow> ('db server, unit) M" where
  "broadcast ty out from ids = forE ids (deliver ty out from)"

text \<open>
  \<^verbatim>\<open>g_users_by_id.count(k) ? g_users_by_id[k].username : (prefix + std::to_string(label))\<close>: the
  label is the same id, printed as the type of the expression in the source prints it.
\<close>

definition display_name :: "string \<Rightarrow> 'db server \<Rightarrow> int \<Rightarrow> int \<Rightarrow> string" where
  "display_name prefix s k label =
     (case um_get (g_users_by_id s) k of
        Some u \<Rightarrow> u_username u
      | None \<Rightarrow> prefix @ to_string label)"

text \<open>\<^verbatim>\<open>std::stoi(kv["key"])\<close>.\<close>

definition stoi_kv :: "kv_map \<Rightarrow> string \<Rightarrow> ('s, int) M" where
  "stoi_kv kv k = liftE (stoi (kv_at kv k))"

subsection \<open>Observations\<close>

definition are_friends :: "'db server \<Rightarrow> int \<Rightarrow> int \<Rightarrow> bool" where
  "are_friends s a b = um_at False (friend_map s a) b"

definition pending_requests :: "'db server \<Rightarrow> int \<Rightarrow> int list" where
  "pending_requests s uid = um_at [] (g_friend_requests s) uid"

definition offline_queue :: "'db server \<Rightarrow> int \<Rightarrow> pending_msg list" where
  "offline_queue s uid = um_at [] (g_offline_messages s) uid"

definition is_member :: "'db server \<Rightarrow> int \<Rightarrow> int \<Rightarrow> bool" where
  "is_member s gid uid =
     (case um_get (g_groups s) gid of None \<Rightarrow> False | Some g \<Rightarrow> um_count (g_members g) uid)"

definition is_admin :: "'db server \<Rightarrow> int \<Rightarrow> int \<Rightarrow> bool" where
  "is_admin s gid uid =
     (case um_get (g_groups s) gid of None \<Rightarrow> False | Some g \<Rightarrow> um_at False (g_admins g) uid)"

subsection \<open>Invariants of the effects\<close>

text \<open>
  What every communication step does to the state: it appends to the outbox, to the activity log
  or to an offline queue, runs a query, or inserts an empty entry where \<^verbatim>\<open>operator[]\<close> is
  evaluated on the friends. A predicate that these steps keep is kept by all the helpers built from
  them; the handlers' own updates are what is left to check. The invariants of the server are instances.
  The group announcements also insert an empty group; the contracts in \<open>Group_Handlers\<close> say where.
\<close>

definition touch_group :: "int \<Rightarrow> ('db server, unit) M" where
  "touch_group gid = modifyE (\<lambda>s. s\<lparr>g_groups := um_touch empty_group gid (g_groups s)\<rparr>)"

lemma pres_whenE [pres_intros]: "(b \<Longrightarrow> pres I m) \<Longrightarrow> pres I (whenE b m)"
  by (simp add: whenE_def pres_retE)

lemma pres_stoi_kv [pres_intros]: "pres I (stoi_kv kv k)"
  by (simp add: stoi_kv_def pres_liftE)

lemma pres_case_prod [pres_intros]: "(\<And>a b. x = (a, b) \<Longrightarrow> pres I (f a b)) \<Longrightarrow> pres I (case x of (a, b) \<Rightarrow> f a b)"
  by (cases x) simp

lemma pres_case_sum [pres_intros]:
  "(\<And>a. x = Inl a \<Longrightarrow> pres I (f a)) \<Longrightarrow> (\<And>b. x = Inr b \<Longrightarrow> pres I (g b)) \<Longrightarrow>
   pres I (case x of Inl a \<Rightarrow> f a | Inr b \<Rightarrow> g b)"
  by (cases x) simp_all

lemma bind_stoi_kv [simp]:
  "bindE (stoi_kv kv k) f s = (case stoi (kv_at kv k) of Inl ex \<Rightarrow> (Inl ex, s) | Inr i \<Rightarrow> f i s)"
  by (simp add: stoi_kv_def bindE_def)

lemma bind_pg_call:
  "g_pg_persistence s = Some p \<Longrightarrow> bindE (pg_call op) f s =
     (case op p of
        (Inl ex, p') \<Rightarrow> (Inl ex, s\<lparr>g_pg_persistence := Some p'\<rparr>)
      | (Inr a, p') \<Rightarrow> f a (s\<lparr>g_pg_persistence := Some p'\<rparr>))"
  by (simp add: pg_call_def bindE_def split: prod.split sum.split)

lemma if_pg_memory [simp]: "\<not> has_pg s \<Longrightarrow> if_pg op s = (Inr (), s)"
  by (simp add: if_pg_def whenE_def)

locale quiet_inv =
  fixes I :: "'db server \<Rightarrow> bool"
  assumes I_send: "I s \<Longrightarrow> I (s\<lparr>outbox := outbox s @ [x]\<rparr>)"
    and I_log: "I s \<Longrightarrow> I (s\<lparr>activity := activity s @ [y]\<rparr>)"
    and I_enqueue: "I s \<Longrightarrow>
      I (s\<lparr>g_offline_messages := um_put k (um_at [] (g_offline_messages s) k @ [z]) (g_offline_messages s)\<rparr>)"
    and I_pg: "I s \<Longrightarrow> g_pg_persistence s = Some p \<Longrightarrow> I (s\<lparr>g_pg_persistence := Some p'\<rparr>)"
    and I_touch: "I s \<Longrightarrow> I (s\<lparr>g_friends := um_touch [] k (g_friends s)\<rparr>)"
begin

lemma pres_send: "pres I (send fd ty payload userId)"
  unfolding send_def by (rule pres_modifyE) (rule I_send)

lemma pres_log_activity: "pres I (log_activity a u d)"
  unfolding log_activity_def by (rule pres_modifyE) (rule I_log)

lemma pres_enqueue_offline: "pres I (enqueue_offline u t p f)"
  unfolding enqueue_offline_def by (rule pres_modifyE) (rule I_enqueue)

lemma pres_pg_call: "pres I (pg_call op)"
  by (rule presI) (auto simp: pg_call_def I_pg split: option.splits prod.splits)

lemma pres_if_pg: "pres I (if_pg op)"
  unfolding if_pg_def by (intro pres_intros pres_pg_call)

lemma pres_deliver: "pres I (deliver ty out from uid)"
  unfolding deliver_def by (intro pres_intros pres_send pres_enqueue_offline)

lemma pres_broadcast: "pres I (broadcast ty out from ids)"
  unfolding broadcast_def by (intro pres_intros pres_deliver)

lemma pres_touch_friends: "pres I (touch_friends uid)"
  unfolding touch_friends_def by (rule pres_modifyE) (rule I_touch)

lemma pres_notify: "pres I (notify_friends_status_change e uid online)"
  unfolding notify_friends_status_change_def
  by (intro pres_intros pres_touch_friends pres_send)

lemmas pres_comm =
  pres_send pres_log_activity pres_enqueue_offline pres_pg_call pres_if_pg pres_deliver
  pres_broadcast pres_touch_friends pres_notify

end

text \<open>The observations do not see an inserted empty entry.\<close>

lemma empty_group_sel [simp]:
  "g_members empty_group = []" "g_admins empty_group = []" "g_name empty_group = []"
  by (simp_all add: empty_group_def)

lemma obs_touch_group [simp]:
  "is_member (s\<lparr>g_groups := um_touch empty_group k (g_groups s)\<rparr>) gid uid = is_member s gid uid"
  "is_admin (s\<lparr>g_groups := um_touch empty_group k (g_groups s)\<rparr>) gid uid = is_admin s gid uid"
  by (auto simp: is_member_def is_admin_def um_get_touch split: option.splits)

lemma obs_touch_friends [simp]:
  "are_friends (s\<lparr>g_friends := um_touch [] k (g_friends s)\<rparr>) a b = are_friends s a b"
  by (simp add: are_friends_def friend_map_def)

lemma obs_frame [simp]:
  "are_friends (s\<lparr>outbox := x\<rparr>) = are_friends s" "are_friends (s\<lparr>activity := y\<rparr>) = are_friends s"
  "are_friends (s\<lparr>g_offline_messages := z\<rparr>) = are_friends s"
  "are_friends (s\<lparr>g_pg_persistence := p\<rparr>) = are_friends s"
  "are_friends (s\<lparr>g_groups := g\<rparr>) = are_friends s"
  "pending_requests (s\<lparr>outbox := x\<rparr>) = pending_requests s"
  "pending_requests (s\<lparr>activity := y\<rparr>) = pending_requests s"
  "pending_requests (s\<lparr>g_offline_messages := z\<rparr>) = pending_requests s"
  "pending_requests (s\<lparr>g_pg_persistence := p\<rparr>) = pending_requests s"
  "pending_requests (s\<lparr>g_friends := f\<rparr>) = pending_requests s"
  "pending_requests (s\<lparr>g_groups := g\<rparr>) = pending_requests s"
  by (auto simp: fun_eq_iff are_friends_def friend_map_def pending_requests_def)

lemma group_frame [simp]:
  "is_member (s\<lparr>outbox := x\<rparr>) = is_member s" "is_member (s\<lparr>activity := y\<rparr>) = is_member s"
  "is_member (s\<lparr>g_offline_messages := z\<rparr>) = is_member s"
  "is_member (s\<lparr>g_pg_persistence := p\<rparr>) = is_member s"
  "is_member (s\<lparr>g_friends := f\<rparr>) = is_member s"
  "is_admin (s\<lparr>outbox := x\<rparr>) = is_admin s" "is_admin (s\<lparr>activity := y\<rparr>) = is_admin s"
  "is_admin (s\<lparr>g_offline_messages := z\<rparr>) = is_admin s"
  "is_admin (s\<lparr>g_pg_persistence := p\<rparr>) = is_admin s"
  "is_admin (s\<lparr>g_friends := f\<rparr>) = is_admin s"
  by (auto simp: fun_eq_iff is_member_def is_admin_def)

lemma has_pg_frame [simp]:
  "has_pg (s\<lparr>outbox := x\<rparr>) = has_pg s" "has_pg (s\<lparr>activity := y\<rparr>) = has_pg s"
  "has_pg (s\<lparr>g_offline_messages := z\<rparr>) = has_pg s" "has_pg (s\<lparr>g_friends := f\<rparr>) = has_pg s"
  "has_pg (s\<lparr>g_groups := g\<rparr>) = has_pg s" "has_pg (s\<lparr>g_pg_persistence := Some p\<rparr>)"
  "has_pg (s\<lparr>users_file := w\<rparr>) = has_pg s" "has_pg (s\<lparr>g_next_user_id := n\<rparr>) = has_pg s"
  "has_pg (s\<lparr>g_online_clients := c\<rparr>) = has_pg s" "has_pg (s\<lparr>g_friend_requests := r\<rparr>) = has_pg s"
  "has_pg (s\<lparr>g_next_group_id := n\<rparr>) = has_pg s"
  by (simp_all add: has_pg_def)

end
