(* ===== verification/Chat_Samples.thy ===== *)
theory Chat_Samples
  imports Server_State
begin

text \<open>
  A concrete environment and a concrete server on which the theorems are applied: a small database
  that keeps the statements it was given, with transactions, and a server with three users, a
  friendship, a group and a queued message.
\<close>

subsection \<open>A database\<close>

text \<open>The committed statements and, inside a transaction block, what would be committed.\<close>

type_synonym sample_db = "string list \<times> string list option"

definition sample_exec ::
  "(string \<Rightarrow> bool) \<Rightarrow> (string \<Rightarrow> string option list list) \<Rightarrow> string \<Rightarrow> sample_db \<Rightarrow> pg_result \<times> sample_db" where
  "sample_exec fails answer q d = (case d of (committed, txn) \<Rightarrow>
     if q = ''BEGIN'' then (Pg_rows [], (committed, Some committed))
     else if q = ''COMMIT'' then (Pg_rows [], (case txn of None \<Rightarrow> committed | Some t \<Rightarrow> t, None))
     else if q = ''ROLLBACK'' then (Pg_rows [], (committed, None))
     else if fails q then (Pg_fatal, d)
     else (Pg_rows (answer q),
           case txn of None \<Rightarrow> (committed @ [q], None) | Some t \<Rightarrow> (committed, Some (t @ [q]))))"

definition sample_lib ::
  "bool \<Rightarrow> (string \<Rightarrow> bool) \<Rightarrow> (string \<Rightarrow> string option list list) \<Rightarrow> sample_db pg_lib" where
  "sample_lib up fails answer =
     \<lparr>PQconnectdb = (\<lambda>_ d. (up, d)), PQstatus_ok = (\<lambda>_. up), PQexec = sample_exec fails answer,
      PQescape = double_quotes\<rparr>"

definition sample_pg :: "sample_db pg" where
  "sample_pg = \<lparr>pg_conn = True, pg_conn_str = ''dbname=chat'', pg_db = ([], None)\<rparr>"

subsection \<open>An environment and a server\<close>

definition sample_env_of :: "sample_db pg_lib \<Rightarrow> sample_db env" where
  "sample_env_of lib =
     \<lparr>pq = lib, now_s = 1, now_ms = 5, iter_ids = rev, iter_names = rev,
      fs_writable = True\<rparr>"

definition sample_env :: "sample_db env" where
  "sample_env = sample_env_of (sample_lib False (\<lambda>_. False) (\<lambda>_. []))"

definition alice :: user where
  "alice = \<lparr>u_id = 1, u_username = ''alice'', u_password_hash = ''pa'', u_phone = ''01'', u_socket_fd = 4,
            u_is_online = True, u_last_seen = 0\<rparr>"

definition bob :: user where
  "bob = \<lparr>u_id = 2, u_username = ''bob'', u_password_hash = ''pb'', u_phone = ''02'', u_socket_fd = - 1,
          u_is_online = False, u_last_seen = 0\<rparr>"

definition carol :: user where
  "carol = \<lparr>u_id = 3, u_username = ''carol'', u_password_hash = ''pc'', u_phone = '''', u_socket_fd = 5,
            u_is_online = True, u_last_seen = 0\<rparr>"

definition sample_group :: group where
  "sample_group =
     \<lparr>g_id = 7, g_name = ''team'', g_ownerId = 1, g_members = [(1, True), (2, True)], g_admins = [(1, True)],
      g_member_nicknames = []\<rparr>"

definition sample_server :: "sample_db server" where
  "sample_server =
     \<lparr>g_pg_persistence = None,
      g_users_by_name = [(''alice'', alice), (''bob'', bob), (''carol'', carol)],
      g_users_by_id = [(1, alice), (2, bob), (3, carol)], g_next_user_id = 4,
      g_friends = [(1, [(2, True)]), (2, [(1, True)])], g_friend_requests = [(2, [3])],
      g_online_clients = [(1, 4), (3, 5)], g_groups = [(7, sample_group)], g_next_group_id = 8,
      g_offline_messages = [(2, [\<lparr>pm_type = code GROUP_MESSAGE, pm_payload = ''groupId=7&message=hi'', pm_fromUserId = 1\<rparr>])],
      users_file = None, outbox = [], activity = []\<rparr>"

definition sample_db_server :: "sample_db server" where
  "sample_db_server = sample_server\<lparr>g_pg_persistence := Some sample_pg\<rparr>"

lemma env_ok_sample [simp]: "env_ok (sample_env_of lib)" "env_ok sample_env"
  by (simp_all add: env_ok_def sample_env_def sample_env_of_def)

lemma has_pg_sample [simp]: "\<not> has_pg sample_server" "has_pg sample_db_server"
  by (simp_all add: has_pg_def sample_server_def sample_db_server_def)

lemmas sample_defs = sample_server_def sample_group_def alice_def bob_def carol_def

end
