(* ===== verification/File_Persistence.thy ===== *)
theory File_Persistence
  imports Chat_Samples
begin

text \<open>
  \<^verbatim>\<open>server-cpp/src/persistence.cpp\<close>: the tab-separated users file that the server falls back to
  when there is no database. \<open>save_users\<close> truncates the file and writes one line per user, in
  the order in which the map is visited; \<open>load_users\<close> reads it back into the four maps and computes
  the next user id. The round trip holds for users whose fields hold no tab and no newline.
\<close>

definition tab :: char where "tab = CHR 0x09"
definition newline :: char where "newline = CHR 0x0A"

text \<open>The values of an unordered map in the order a loop visits them.\<close>

definition um_values :: "('k list \<Rightarrow> 'k list) \<Rightarrow> ('k, 'v) umap \<Rightarrow> 'v list" where
  "um_values it m = List.map_filter (um_get m) (it (um_keys m))"

definition user_line :: "user \<Rightarrow> string" where
  "user_line u =
     to_string (u_id u) @ tab # u_username u @ tab # u_password_hash u @ tab # u_phone u"

definition save_users :: "'db env \<Rightarrow> ('db server, unit) M" where
  "save_users e =
     modifyE (\<lambda>s. if fs_writable e
       then s\<lparr>users_file :=
         Some (concat (map (\<lambda>u. user_line u @ [newline]) (um_values (iter_names e) (g_users_by_name s))))\<rparr>
       else s)"

text \<open>The field that the \<open>n\<close>-th \<^verbatim>\<open>getline(iss, x, '\t')\<close> leaves in \<open>x\<close>: empty past the end.\<close>

definition field :: "nat \<Rightarrow> string \<Rightarrow> string" where
  "field n line = (let fs = getlines tab line in if n < length fs then fs ! n else [])"

definition user_of_line :: "string \<Rightarrow> user res" where
  "user_of_line line =
     bindS (stoi (field 0 line)) (\<lambda>i.
       Inr \<lparr>u_id = i, u_username = field 1 line, u_password_hash = field 2 line,
            u_phone = field 3 line, u_socket_fd = - 1, u_is_online = False, u_last_seen = 0\<rparr>)"

definition store_loaded :: "user \<Rightarrow> 'db server \<Rightarrow> 'db server" where
  "store_loaded u s =
     s\<lparr>g_users_by_name := um_put (u_username u) u (g_users_by_name s),
       g_users_by_id := um_put (u_id u) u (g_users_by_id s),
       g_friends := um_touch [] (u_id u) (g_friends s),
       g_friend_requests := um_touch [] (u_id u) (g_friend_requests s)\<rparr>"

fun load_lines :: "string list \<Rightarrow> int \<Rightarrow> ('db server, int) M" where
  "load_lines [] max_id = retE max_id"
| "load_lines (line # lines) max_id =
     bindE (liftE (user_of_line line)) (\<lambda>u.
     seqE (modifyE (store_loaded u))
       (load_lines lines (if max_id < u_id u then u_id u else max_id)))"

definition load_users :: "int \<Rightarrow> ('db server, int) M" where
  "load_users next_user_id =
     bindE (getsE users_file) (\<lambda>f.
       case f of
         None \<Rightarrow> retE next_user_id
       | Some content \<Rightarrow>
           bindE (load_lines (getlines newline content) 0) (\<lambda>max_id. retE (wrap_int32 (max_id + 1))))"

subsection \<open>Round trip\<close>

text \<open>What the file keeps of a user: the connection and the status are reset.\<close>

definition stored_user :: "user \<Rightarrow> user" where
  "stored_user u = u\<lparr>u_socket_fd := - 1, u_is_online := False, u_last_seen := 0\<rparr>"

definition user_clean :: "user \<Rightarrow> bool" where
  "user_clean u \<longleftrightarrow> in_int32 (u_id u) \<and>
     list_all (\<lambda>f. tab \<notin> set f \<and> newline \<notin> set f) [u_username u, u_password_hash u, u_phone u]"

lemma to_string_no_control [simp]: "tab \<notin> set (to_string i)" "newline \<notin> set (to_string i)"
  using to_string_chars [of tab i] to_string_chars [of newline i]
  by (auto simp: tab_def newline_def is_digit_def)

lemma getlines_concat:
  "\<forall>l\<in>set ls. d \<notin> set l \<Longrightarrow> getlines d (concat (map (\<lambda>l. l @ [d]) ls)) = ls"
  by (induction ls) (simp_all add: getlines_Cons)

lemma user_line_no_newline: "user_clean u \<Longrightarrow> newline \<notin> set (user_line u)"
  by (simp add: user_clean_def user_line_def) (simp add: tab_def newline_def)

lemma user_of_user_line: "user_clean u \<Longrightarrow> user_of_line (user_line u) = Inr (stored_user u)"
  by (cases "u_phone u = []")
     (simp_all add: user_clean_def user_of_line_def field_def user_line_def getlines_Cons
        getlines_single stored_user_def Let_def)

lemma load_lines_stored:
  "\<forall>u\<in>set us. user_clean u \<Longrightarrow>
   load_lines (map user_line us) m s =
     (Inr (fold max (map u_id us) m), fold store_loaded (map stored_user us) s)"
proof (induction us arbitrary: m s)
  case (Cons u us)
  have "(if m < u_id u then u_id u else m) = max (u_id u) m" by simp
  with Cons show ?case by (simp add: user_of_user_line) (simp add: stored_user_def)
qed simp

lemma fold_store_by_name:
  "distinct (map u_username us) \<Longrightarrow>
   um_get (g_users_by_name (fold store_loaded us s)) n =
     (case find (\<lambda>u. u_username u = n) us of None \<Rightarrow> um_get (g_users_by_name s) n | Some u \<Rightarrow> Some u)"
proof (induction us arbitrary: s)
  case (Cons u us)
  have "find (\<lambda>v. u_username v = n) us = None" if "n = u_username u"
    using Cons.prems that by (auto simp: find_None_iff image_iff)
  with Cons show ?case by (auto simp: store_loaded_def split: option.split)
qed simp

lemma fold_store_by_id:
  "distinct (map u_id us) \<Longrightarrow>
   um_get (g_users_by_id (fold store_loaded us s)) i =
     (case find (\<lambda>u. u_id u = i) us of None \<Rightarrow> um_get (g_users_by_id s) i | Some u \<Rightarrow> Some u)"
proof (induction us arbitrary: s)
  case (Cons u us)
  have "find (\<lambda>v. u_id v = i) us = None" if "i = u_id u"
    using Cons.prems that by (auto simp: find_None_iff image_iff)
  with Cons show ?case by (auto simp: store_loaded_def split: option.split)
qed simp

subsection \<open>Consistency of the user maps\<close>

text \<open>Every entry is stored under its own key, and the two maps hold the same users.\<close>

definition users_keyed :: "'db server \<Rightarrow> bool" where
  "users_keyed s \<longleftrightarrow>
     (\<forall>n u. um_get (g_users_by_name s) n = Some u \<longrightarrow> u_username u = n) \<and>
     (\<forall>i u. um_get (g_users_by_id s) i = Some u \<longrightarrow> u_id u = i)"

definition users_mutual :: "'db server \<Rightarrow> bool" where
  "users_mutual s \<longleftrightarrow>
     (\<forall>n u. um_get (g_users_by_name s) n = Some u \<longrightarrow> um_get (g_users_by_id s) (u_id u) = Some u) \<and>
     (\<forall>i u. um_get (g_users_by_id s) i = Some u \<longrightarrow> um_get (g_users_by_name s) (u_username u) = Some u)"

definition users_clean :: "'db server \<Rightarrow> bool" where
  "users_clean s \<longleftrightarrow>
     (\<forall>n u. um_get (g_users_by_name s) n = Some u \<longrightarrow> user_clean u \<and> u_id u < int32_max)"

lemma um_values_names:
  assumes "env_ok e" "um_ok (g_users_by_name s)" "users_keyed s" "users_mutual s"
  defines "us \<equiv> um_values (iter_names e) (g_users_by_name s)"
  shows "u \<in> set us \<longleftrightarrow> um_get (g_users_by_name s) (u_username u) = Some u"
    and "distinct (map u_username us)" and "distinct (map u_id us)"
proof -
  let ?m = "g_users_by_name s"
  let ?ks = "iter_names e (um_keys ?m)"
  have ks: "distinct ?ks" "\<And>n. n \<in> set ?ks \<longleftrightarrow> um_get ?m n \<noteq> None"
    using um.iterate_once [of ?m ?ks] assms(1,2) by (auto simp: env_ok_def)
  have name: "um_get ?m n = Some v \<Longrightarrow> u_username v = n" for n v
    using assms(3) by (auto simp: users_keyed_def)
  show mem: "u \<in> set us \<longleftrightarrow> um_get ?m (u_username u) = Some u" for u
    using ks(2) name by (force simp: us_def um_values_def map_filter_def)
  have "map u_username (List.map_filter (um_get ?m) ns) = filter (\<lambda>n. um_get ?m n \<noteq> None) ns" for ns
    by (induction ns) (auto simp: List.map_filter_simps name split: option.split)
  then show names: "distinct (map u_username us)"
    using ks(1) by (simp add: us_def um_values_def)
  have "inj_on u_id (set us)"
  proof (rule inj_onI)
    fix u v
    assume uv: "u \<in> set us" "v \<in> set us" "u_id u = u_id v"
    then have "um_get (g_users_by_id s) (u_id u) = Some u" "um_get (g_users_by_id s) (u_id u) = Some v"
      using mem assms(4) unfolding users_mutual_def by metis+
    then show "u = v" by simp
  qed
  with names show "distinct (map u_id us)"
    by (simp add: distinct_map)
qed

lemma fold_max_bounds:
  fixes m :: int
  shows "m \<le> fold max xs m \<and> (\<forall>x\<in>set xs. x \<le> fold max xs m)"
    and "m < b \<Longrightarrow> \<forall>x\<in>set xs. x < b \<Longrightarrow> fold max xs m < b"
  by (induction xs arbitrary: m) (auto simp: max_def, (meson linorder_not_le order.trans order_less_imp_le)+)

lemma find_by_key:
  "distinct (map f us) \<Longrightarrow> find (\<lambda>u. f u = k) us = Some u \<longleftrightarrow> u \<in> set us \<and> f u = k"
  by (induction us) (auto simp: rev_image_eqI)

lemma find_key_map_option:
  assumes "distinct (map f us)" and "\<And>u. f (g u) = f u"
    and "\<And>u. u \<in> set us \<longleftrightarrow> m (f u) = Some u" and "\<And>k u. m k = Some u \<Longrightarrow> f u = k"
  shows "(case find (\<lambda>u. f u = k) (map g us) of None \<Rightarrow> None | Some u \<Rightarrow> Some u) = map_option g (m k)"
proof -
  have "find (\<lambda>u. f u = k) (map g us) = map_option g (find (\<lambda>u. f u = k) us)"
    by (induction us) (simp_all add: assms(2))
  moreover have "find (\<lambda>u. f u = k) us = m k"
  proof (cases "m k")
    case None
    then show ?thesis using assms(3) by (auto simp: find_None_iff)
  next
    case (Some u)
    then show ?thesis using assms(3) assms(4) [OF Some] by (simp add: find_by_key [OF assms(1)])
  qed
  ultimately show ?thesis by (simp split: option.split)
qed

text \<open>What is loaded from a saved file, and that the next id is larger than all ids.\<close>

lemma load_saved:
  fixes s :: "'db server"
  assumes "fs_writable e" and "\<forall>u \<in> set (um_values (iter_names e) (g_users_by_name s)). user_clean u"
  defines "us \<equiv> um_values (iter_names e) (g_users_by_name s)"
    and "s0 \<equiv> (initial_server :: 'db server)\<lparr>users_file := users_file (snd (save_users e s))\<rparr>"
  shows "load_users 1 s0 = (Inr (wrap_int32 (fold max (map u_id us) 0 + 1)), fold store_loaded (map stored_user us) s0)"
proof -
  have "users_file (snd (save_users e s)) = Some (concat (map (\<lambda>l. l @ [newline]) (map user_line us)))"
    using assms(1) by (simp add: save_users_def comp_def us_def)
  moreover have "getlines newline (concat (map (\<lambda>l. l @ [newline]) (map user_line us))) = map user_line us"
    using assms(2) by (intro getlines_concat) (auto simp: user_line_no_newline us_def)
  ultimately show ?thesis using assms(2) by (simp add: load_users_def load_lines_stored us_def s0_def)
qed

lemma next_id_fresh:
  assumes "\<forall>u \<in> set us. u_id u < int32_max" and "u \<in> set us"
  shows "u_id u < wrap_int32 (fold max (map u_id us) 0 + 1)"
proof -
  have "u_id u \<le> fold max (map u_id us) 0" "0 \<le> fold max (map u_id us) 0"
    using assms(2) fold_max_bounds(1) [of 0 "map u_id us"] by auto
  moreover have "fold max (map u_id us) 0 < int32_max"
    using assms(1) by (intro fold_max_bounds(2)) (auto simp: int32_max_def)
  ultimately show ?thesis by (subst wrap_int32_id) (auto simp: in_int32_def int32_min_def)
qed

text \<open>
  C30: when no name, password or telephone number holds a tab or a newline, no id is the largest \<^verbatim>\<open>int\<close>, the two
  user maps hold the same users under their own keys, and the file can be written, then saving the users and loading
  the file into a fresh server restores both user maps, with every connection closed, and the next user id is beyond
  every stored id. \<^verbatim>\<open>REGISTER\<close> does not reject such names.
\<close>

theorem users_file_roundtrip:
  fixes s :: "'db server"
  assumes "env_ok e" "fs_writable e" "um_ok (g_users_by_name s)"
    and "users_keyed s" "users_mutual s" "users_clean s"
  shows "\<exists>n t. load_users 1 ((initial_server :: 'db server)\<lparr>users_file := users_file (snd (save_users e s))\<rparr>) = (Inr n, t) \<and>
    (\<forall>name. um_get (g_users_by_name t) name = map_option stored_user (um_get (g_users_by_name s) name)) \<and>
    (\<forall>i. um_get (g_users_by_id t) i = map_option stored_user (um_get (g_users_by_id s) i)) \<and>
    (\<forall>i u. um_get (g_users_by_id s) i = Some u \<longrightarrow> i < n)"
proof -
  let ?us = "um_values (iter_names e) (g_users_by_name s)"
  note us = um_values_names [OF assms(1,3,4,5)]
  have clean: "\<forall>u\<in>set ?us. user_clean u" and small: "\<forall>u\<in>set ?us. u_id u < int32_max"
    using assms(6) us(1) by (auto simp: users_clean_def)
  have stored: "u_username (stored_user u) = u_username u" "u_id (stored_user u) = u_id u" for u
    by (simp_all add: stored_user_def)
  let ?t = "fold store_loaded (map stored_user ?us)
    ((initial_server :: 'db server)\<lparr>users_file := users_file (snd (save_users e s))\<rparr>)"
  note run = load_saved [OF assms(2) clean]
  have "um_get (g_users_by_name ?t) name = map_option stored_user (um_get (g_users_by_name s) name)" for name
    using us find_key_map_option [of u_username ?us stored_user "um_get (g_users_by_name s)" name] assms(4)
    by (simp add: fold_store_by_name stored comp_def initial_server_def users_keyed_def cong: option.case_cong)
  moreover
  have by_id: "u \<in> set ?us \<longleftrightarrow> um_get (g_users_by_id s) (u_id u) = Some u" for u
    using us(1) assms(5) by (auto simp: users_mutual_def)
  have "um_get (g_users_by_id ?t) i = map_option stored_user (um_get (g_users_by_id s) i)" for i
    using by_id us find_key_map_option [of u_id ?us stored_user "um_get (g_users_by_id s)" i] assms(4)
    by (simp add: fold_store_by_id stored comp_def initial_server_def users_keyed_def cong: option.case_cong)
  moreover have "i < wrap_int32 (fold max (map u_id ?us) 0 + 1)" if "um_get (g_users_by_id s) i = Some u" for i u
    using next_id_fresh [OF small, of u] by_id that assms(4) by (auto simp: users_keyed_def)
  ultimately show ?thesis using run by blast
qed

subsection \<open>Instances\<close>

text \<open>The theorems on the sample server: their hypotheses hold there.\<close>

lemma sample_users:
  "users_keyed sample_server" "users_mutual sample_server" "users_clean sample_server"
  "um_ok (g_users_by_name sample_server)"
  by (auto simp: users_keyed_def users_mutual_def users_clean_def user_clean_def sample_defs in_int32_def
      int32_min_def int32_max_def tab_def newline_def um_ok_def split: if_splits)

theorem users_file_roundtrip_witness:
  "\<exists>n t. load_users 1 ((initial_server :: sample_db server)\<lparr>users_file := users_file (snd (save_users sample_env sample_server))\<rparr>) = (Inr n, t) \<and>
    (\<forall>name. um_get (g_users_by_name t) name = map_option stored_user (um_get (g_users_by_name sample_server) name)) \<and>
    (\<forall>i. um_get (g_users_by_id t) i = map_option stored_user (um_get (g_users_by_id sample_server) i)) \<and>
    (\<forall>i u. um_get (g_users_by_id sample_server) i = Some u \<longrightarrow> i < n)"
proof -
  have "fs_writable sample_env" by (simp add: sample_env_def sample_env_of_def)
  from users_file_roundtrip [OF env_ok_sample(2) this sample_users(4,1-3)] show ?thesis .
qed

end
