(* ===== verification/Session_Handlers.thy ===== *)
theory Session_Handlers
  imports File_Persistence
begin

text \<open>
  The account branches of the \<^verbatim>\<open>switch\<close> of \<^verbatim>\<open>handle_client\<close> in
  \<^verbatim>\<open>server-cpp/src/message_handler.cpp\<close>: \<^verbatim>\<open>HEARTBEAT\<close>, \<^verbatim>\<open>REGISTER\<close>, \<^verbatim>\<open>LOGIN\<close>,
  \<^verbatim>\<open>LOGOUT\<close>, \<^verbatim>\<open>SEARCH_USER\<close> and \<^verbatim>\<open>GET_ALL_USERS\<close>.

  A handler takes the environment, the socket of its client, the payload and what the branch uses
  of \<^verbatim>\<open>current_user_id\<close> (\<open>cur\<close>, a 32-bit word) and \<^verbatim>\<open>requester_id\<close> (\<open>requester\<close>); the two branches
  that assign \<^verbatim>\<open>current_user_id\<close> return its new value.
\<close>

subsection \<open>HEARTBEAT\<close>

definition handle_HEARTBEAT :: "int \<Rightarrow> u32 \<Rightarrow> ('db server, unit) M" where
  "handle_HEARTBEAT fd cur = send fd (code SUCCESS) '''' cur"

subsection \<open>REGISTER\<close>

definition auth_reply :: "int \<Rightarrow> string \<Rightarrow> string" where
  "auth_reply uid username =
     serialize_kv [(''success'', ''true''), (''userId'', to_string uid), (''token'', ''demo_token''),
                   (''username'', username)]"

text \<open>The id of the new account, from the database or from the counter; \<open>None\<close> is a failed
  \<^verbatim>\<open>create_user\<close>. Without a database the users file is written here, before the user is stored.\<close>

definition allocate_user :: "'db env \<Rightarrow> string \<Rightarrow> string \<Rightarrow> string \<Rightarrow> ('db server, int option) M" where
  "allocate_user e username password phone =
     bindE (getsE has_pg) (\<lambda>pg.
       if pg then
         bindE (pg_call (pg_create_user (pq e) username password phone)) (\<lambda>r.
           case r of
             None \<Rightarrow> retE None
           | Some uid \<Rightarrow>
               seqE (pg_call (pg_update_user_online_status (pq e) uid True)) (retE (Some uid)))
       else
         bindE (getsE g_next_user_id) (\<lambda>uid.
         seqE (modifyE (\<lambda>s. s\<lparr>g_next_user_id := wrap_int32 (uid + 1)\<rparr>))
           (seqE (save_users e) (retE (Some uid)))))"

definition store_registered :: "user \<Rightarrow> int \<Rightarrow> 'db server \<Rightarrow> 'db server" where
  "store_registered u fd s =
     s\<lparr>g_users_by_name := um_put (u_username u) u (g_users_by_name s),
       g_users_by_id := um_put (u_id u) u (g_users_by_id s),
       g_friends := um_touch [] (u_id u) (g_friends s),
       g_friend_requests := um_touch [] (u_id u) (g_friend_requests s),
       g_online_clients := um_put (u_id u) fd (g_online_clients s),
       g_next_user_id :=
         (if g_next_user_id s \<le> u_id u then wrap_int32 (u_id u + 1) else g_next_user_id s)\<rparr>"

definition handle_REGISTER :: "'db env \<Rightarrow> int \<Rightarrow> string \<Rightarrow> u32 \<Rightarrow> ('db server, u32) M" where
  "handle_REGISTER e fd payload cur =
     (let kv = parse_kv payload; username = kv_at kv ''username''; password = kv_at kv ''password'';
          phone = kv_at kv ''phone'' in
      if username = [] \<or> password = [] then
        seqE (send fd (code ERROR) ''Missing username/password'' 0) (retE cur)
      else bindE (getsE (\<lambda>s. um_count (g_users_by_name s) username)) (\<lambda>taken.
        if taken then seqE (send fd (code ERROR) ''Username already exists'' 0) (retE cur)
        else bindE (allocate_user e username password phone) (\<lambda>r.
          case r of
            None \<Rightarrow> seqE (send fd (code ERROR) ''Failed to create user in database'' 0) (retE cur)
          | Some uid \<Rightarrow>
              seqE (modifyE (store_registered
                \<lparr>u_id = uid, u_username = username, u_password_hash = password, u_phone = phone,
                 u_socket_fd = fd, u_is_online = True, u_last_seen = 0\<rparr> fd))
              (seqE (log_activity ''REGISTER'' uid (''username='' @ username))
              (seqE (send fd (code SUCCESS) (auth_reply uid username) (u32_of_int uid))
                (retE (u32_of_int uid)))))))"

subsection \<open>LOGIN\<close>

text \<open>The pending friend requests: from the database, copied into memory, or from memory.\<close>

definition login_requests :: "'db env \<Rightarrow> int \<Rightarrow> ('db server, int list) M" where
  "login_requests e uid =
     bindE (getsE has_pg) (\<lambda>pg.
       if pg then
         bindE (pg_call (pg_get_pending_requests (pq e) uid)) (\<lambda>reqs.
         seqE (forE reqs (\<lambda>req. modifyE (\<lambda>s. s\<lparr>g_friend_requests :=
             um_put uid (push_back_new (fr_from_user_id req) (um_at [] (g_friend_requests s) uid))
               (g_friend_requests s)\<rparr>)))
           (retE (map fr_from_user_id reqs)))
       else getsE (\<lambda>s. pending_requests s uid))"

text \<open>The queue is copied and erased.\<close>

definition take_offline :: "int \<Rightarrow> ('db server, pending_msg list) M" where
  "take_offline uid =
     bindE (getsE (\<lambda>s. offline_queue s uid)) (\<lambda>q.
     seqE (modifyE (\<lambda>s. s\<lparr>g_offline_messages := um_erase uid (g_offline_messages s)\<rparr>)) (retE q))"

definition deliver_requests :: "int \<Rightarrow> int list \<Rightarrow> ('db server, unit) M" where
  "deliver_requests fd reqs =
     forE reqs (\<lambda>from.
       bindE (getsE (\<lambda>s. display_name ''User'' s from from)) (\<lambda>name.
         send fd (code FRIEND_REQUEST)
           (serialize_kv [(''fromUserId'', to_string from), (''fromUsername'', name)])
           (u32_of_int from)))"

definition group_name_or_empty :: "'db server \<Rightarrow> int \<Rightarrow> string" where
  "group_name_or_empty s gid = (case um_get (g_groups s) gid of None \<Rightarrow> [] | Some g \<Rightarrow> g_name g)"

definition deliver_invites :: "'db env \<Rightarrow> int \<Rightarrow> int \<Rightarrow> ('db server, unit) M" where
  "deliver_invites e fd uid =
     bindE (getsE has_pg) (\<lambda>pg. whenE pg
       (bindE (pg_call (pg_get_pending_group_invites (pq e) uid)) (\<lambda>invites.
         forE invites (\<lambda>inv.
           bindE (getsE (\<lambda>s. group_name_or_empty s (gi_group_id inv))) (\<lambda>name.
             send fd (code INVITE_TO_GROUP)
               (serialize_kv [(''groupId'', to_string (gi_group_id inv)), (''name'', name),
                              (''fromUserId'', to_string (gi_from_user_id inv))])
               (u32_of_int (gi_from_user_id inv)))))))"

definition deliver_offline :: "int \<Rightarrow> pending_msg list \<Rightarrow> ('db server, unit) M" where
  "deliver_offline fd q = forE q (\<lambda>pm. send fd (pm_type pm) (pm_payload pm) (pm_fromUserId pm))"

definition handle_LOGIN :: "'db env \<Rightarrow> int \<Rightarrow> string \<Rightarrow> u32 \<Rightarrow> ('db server, u32) M" where
  "handle_LOGIN e fd payload cur =
     (let kv = parse_kv payload; username = kv_at kv ''username''; password = kv_at kv ''password'' in
      bindE (getsE (\<lambda>s. um_get (g_users_by_name s) username)) (\<lambda>it.
        if (case it of None \<Rightarrow> True | Some u \<Rightarrow> u_password_hash u \<noteq> password) then
          seqE (send fd (code ERROR) ''Invalid credentials'' 0) (retE cur)
        else let uid = (case it of None \<Rightarrow> 0 | Some u \<Rightarrow> u_id u) in
          seqE (modifyE (\<lambda>s. s\<lparr>g_online_clients := um_put uid fd (g_online_clients s)\<rparr>))
          (seqE (if_pg (pg_update_user_online_status (pq e) uid True))
          (bindE (login_requests e uid) (\<lambda>pendingRequests.
           bindE (take_offline uid) (\<lambda>offlineMessages.
           seqE (send fd (code SUCCESS) (auth_reply uid username) (u32_of_int uid))
           (seqE (log_activity ''LOGIN'' uid (''username='' @ username))
           (seqE (notify_friends_status_change e uid True)
           (seqE (deliver_requests fd pendingRequests)
           (seqE (deliver_invites e fd uid)
           (seqE (deliver_offline fd offlineMessages)
             (retE (u32_of_int uid)))))))))))))"

subsection \<open>LOGOUT\<close>

definition handle_LOGOUT :: "'db env \<Rightarrow> int \<Rightarrow> u32 \<Rightarrow> ('db server, unit) M" where
  "handle_LOGOUT e fd cur =
     seqE (whenE (cur \<noteq> 0)
       (seqE (modifyE (\<lambda>s. s\<lparr>g_online_clients := um_erase (int_of_u32 cur) (g_online_clients s)\<rparr>))
       (seqE (log_activity ''LOGOUT'' (int_of_u32 cur) '''')
         (notify_friends_status_change e (int_of_u32 cur) False))))
       (send fd (code SUCCESS) '''' cur)"

subsection \<open>SEARCH\_USER and GET\_ALL\_USERS\<close>

definition indexed :: "string \<Rightarrow> nat \<Rightarrow> string" where
  "indexed key i = key @ to_string (int i)"

definition search_match :: "int \<Rightarrow> string \<Rightarrow> user \<Rightarrow> bool" where
  "search_match requester query u \<longleftrightarrow>
     u_id u \<noteq> requester \<and> is_substring (map tolower query) (map tolower (u_username u))"

definition search_items :: "'db server \<Rightarrow> int \<Rightarrow> nat \<Rightarrow> user \<Rightarrow> kv_items" where
  "search_items s requester i u =
     [(indexed ''id'' i, to_string (u_id u)), (indexed ''name'' i, u_username u),
      (indexed ''phone'' i, u_phone u),
      (indexed ''isFriend'' i, if are_friends s requester (u_id u) then ''1'' else ''0'')]"

fun search_loop :: "'db server \<Rightarrow> int \<Rightarrow> string \<Rightarrow> user list \<Rightarrow> nat \<Rightarrow> kv_items \<Rightarrow> nat \<times> kv_items" where
  "search_loop s requester query [] cnt items = (cnt, items)"
| "search_loop s requester query (u # us) cnt items =
     (if search_match requester query u then
        let items' = items @ search_items s requester cnt u in
        if 20 \<le> Suc cnt then (Suc cnt, items')
        else search_loop s requester query us (Suc cnt) items'
      else search_loop s requester query us cnt items)"

text \<open>\<^verbatim>\<open>g_friends[requester_id]\<close> is evaluated, and so inserted, once something matches.\<close>

definition handle_SEARCH_USER :: "'db env \<Rightarrow> int \<Rightarrow> string \<Rightarrow> int \<Rightarrow> ('db server, unit) M" where
  "handle_SEARCH_USER e fd payload requester =
     (let query = kv_at (parse_kv payload) ''query'' in
      bindE (getsE (\<lambda>s. search_loop s requester query (um_values (iter_names e) (g_users_by_name s)) 0 []))
        (\<lambda>(cnt, items).
          seqE (whenE (0 < cnt) (touch_friends requester))
            (send fd (code SUCCESS) (serialize_kv ((''count'', to_string (int cnt)) # items))
              (u32_of_int requester))))"

fun all_users_loop :: "'db server \<Rightarrow> int \<Rightarrow> (int \<times> user) list \<Rightarrow> nat \<Rightarrow> kv_items \<Rightarrow> nat \<times> kv_items" where
  "all_users_loop s requester [] cnt items = (cnt, items)"
| "all_users_loop s requester ((uid, u) # us) cnt items =
     (if uid = requester then all_users_loop s requester us cnt items
      else all_users_loop s requester us (Suc cnt)
        (items @ [(indexed ''id'' cnt, to_string uid), (indexed ''name'' cnt, u_username u),
                  (indexed ''isFriend'' cnt, if are_friends s requester uid then ''1'' else ''0'')]))"

definition id_entries :: "'db env \<Rightarrow> (int, 'v) umap \<Rightarrow> (int \<times> 'v) list" where
  "id_entries e m = List.map_filter (\<lambda>k. map_option (Pair k) (um_get m k)) (iter_ids e (um_keys m))"

definition handle_GET_ALL_USERS :: "'db env \<Rightarrow> int \<Rightarrow> int \<Rightarrow> ('db server, unit) M" where
  "handle_GET_ALL_USERS e fd requester =
     bindE (getsE (\<lambda>s. all_users_loop s requester (id_entries e (g_users_by_id s)) 0 []))
       (\<lambda>(cnt, items).
         seqE (whenE (0 < cnt) (touch_friends requester))
           (send fd (code SUCCESS) (serialize_kv ((''count'', to_string (int cnt)) # items))
             (u32_of_int requester)))"

subsection \<open>Preservation\<close>

text \<open>
  For a predicate that the communication steps keep, a handler keeps it as soon as the handler's own
  updates of the state do.
\<close>

context quiet_inv
begin

lemma pres_HEARTBEAT: "pres I (handle_HEARTBEAT fd cur)"
  unfolding handle_HEARTBEAT_def by (rule pres_send)

lemma pres_save_users:
  assumes "\<And>s f. I s \<Longrightarrow> I (s\<lparr>users_file := f\<rparr>)"
  shows "pres I (save_users e)"
  unfolding save_users_def by (rule pres_modifyE) (simp add: assms)

lemma pres_allocate_user:
  assumes "\<And>s f. I s \<Longrightarrow> I (s\<lparr>users_file := f\<rparr>)" "\<And>s n. I s \<Longrightarrow> I (s\<lparr>g_next_user_id := n\<rparr>)"
  shows "pres I (allocate_user e username password phone)"
  unfolding allocate_user_def
  by (intro pres_intros pres_comm pres_save_users pres_modifyE) (simp_all add: assms)

lemma pres_REGISTER:
  assumes "\<And>s f. I s \<Longrightarrow> I (s\<lparr>users_file := f\<rparr>)" "\<And>s n. I s \<Longrightarrow> I (s\<lparr>g_next_user_id := n\<rparr>)"
    and "\<And>s u fd. I s \<Longrightarrow> I (store_registered u fd s)"
  shows "pres I (handle_REGISTER e fd payload cur)"
  unfolding handle_REGISTER_def
  by (intro pres_intros pres_comm pres_allocate_user pres_modifyE) (simp_all add: assms)

lemma pres_login_requests:
  assumes "\<And>s k x. I s \<Longrightarrow> I (s\<lparr>g_friend_requests :=
      um_put k (push_back_new x (um_at [] (g_friend_requests s) k)) (g_friend_requests s)\<rparr>)"
  shows "pres I (login_requests e uid)"
  unfolding login_requests_def
  by (intro pres_intros pres_comm pres_modifyE) (simp_all add: assms)

lemma pres_LOGIN:
  assumes "\<And>s k x. I s \<Longrightarrow> I (s\<lparr>g_friend_requests :=
      um_put k (push_back_new x (um_at [] (g_friend_requests s) k)) (g_friend_requests s)\<rparr>)"
    and "\<And>s k fd. I s \<Longrightarrow> I (s\<lparr>g_online_clients := um_put k fd (g_online_clients s)\<rparr>)"
    and "\<And>s k. I s \<Longrightarrow> I (s\<lparr>g_offline_messages := um_erase k (g_offline_messages s)\<rparr>)"
  shows "pres I (handle_LOGIN e fd payload cur)"
  unfolding handle_LOGIN_def take_offline_def deliver_requests_def deliver_invites_def deliver_offline_def
  by (intro pres_intros pres_comm pres_login_requests pres_modifyE) (simp_all add: assms)

lemma pres_LOGOUT:
  assumes "\<And>s k. I s \<Longrightarrow> I (s\<lparr>g_online_clients := um_erase k (g_online_clients s)\<rparr>)"
  shows "pres I (handle_LOGOUT e fd cur)"
  unfolding handle_LOGOUT_def
  by (intro pres_intros pres_comm pres_modifyE) (simp_all add: assms)

lemma pres_SEARCH_USER: "pres I (handle_SEARCH_USER e fd payload requester)"
  unfolding handle_SEARCH_USER_def by (intro pres_intros pres_comm)

lemma pres_GET_ALL_USERS: "pres I (handle_GET_ALL_USERS e fd requester)"
  unfolding handle_GET_ALL_USERS_def by (intro pres_intros pres_comm)

end

end
