(* ===== verification/Friend_Handlers.thy ===== *)
theory Friend_Handlers
  imports Session_Handlers
begin

text \<open>
  The friendship branches of \<^verbatim>\<open>handle_client\<close>: \<^verbatim>\<open>GET_FRIENDS_LIST\<close>, \<^verbatim>\<open>FRIEND_REQUEST\<close>,
  \<^verbatim>\<open>FRIEND_ACCEPT\<close>, \<^verbatim>\<open>FRIEND_DECLINE\<close> and \<^verbatim>\<open>UNFRIEND\<close>, on the maps \<^verbatim>\<open>g_friends\<close> and
  \<^verbatim>\<open>g_friend_requests\<close>.
\<close>

subsection \<open>GET\_FRIENDS\_LIST\<close>

fun friend_items :: "'db server \<Rightarrow> string \<Rightarrow> string \<Rightarrow> nat \<Rightarrow> int list \<Rightarrow> kv_items" where
  "friend_items s idkey namekey i [] = []"
| "friend_items s idkey namekey i (fid # fids) =
     (indexed idkey i, to_string fid) # (indexed namekey i, display_name ''User'' s fid fid) #
     friend_items s idkey namekey (Suc i) fids"

text \<open>The pending senders: memory first, then what the database adds, copied back to memory.\<close>

definition merged_requests :: "'db env \<Rightarrow> int \<Rightarrow> ('db server, int list) M" where
  "merged_requests e uid =
     bindE (getsE (\<lambda>s. (pending_requests s uid, has_pg s))) (\<lambda>(mem, pg).
       if pg then
         bindE (pg_call (pg_get_pending_requests (pq e) uid)) (\<lambda>reqs.
           let pendingFromUsers = fold push_back_new (map fr_from_user_id reqs) mem in
           seqE (modifyE (\<lambda>s. s\<lparr>g_friend_requests :=
               um_put uid (fold push_back_new pendingFromUsers (um_at [] (g_friend_requests s) uid))
                 (g_friend_requests s)\<rparr>))
             (retE pendingFromUsers))
       else retE mem)"

definition handle_GET_FRIENDS_LIST :: "'db env \<Rightarrow> int \<Rightarrow> u32 \<Rightarrow> ('db server, unit) M" where
  "handle_GET_FRIENDS_LIST e fd cur =
     seqE (touch_friends (int_of_u32 cur))
     (bindE (getsE (\<lambda>s. let fr = friends_listed e s (int_of_u32 cur) in
          (''count'', to_string (int (length fr))) # friend_items s ''id'' ''name'' 0 fr)) (\<lambda>items.
      bindE (merged_requests e (int_of_u32 cur)) (\<lambda>pendingFromUsers.
      bindE (getsE (\<lambda>s. friend_items s ''req_id'' ''req_name'' 0 pendingFromUsers)) (\<lambda>reqs.
        send fd (code SUCCESS)
          (serialize_kv (items @ (''pendingCount'', to_string (int (length pendingFromUsers))) # reqs))
          cur))))"

subsection \<open>FRIEND\_REQUEST\<close>

text \<open>The target: the first user with the given name in the order of the map, or an id that is
  taken as it is. An error is the text of the reply.\<close>

definition request_target :: "'db env \<Rightarrow> kv_map \<Rightarrow> ('db server, string + int) M" where
  "request_target e kv =
     (if um_count kv ''username'' then
        getsE (\<lambda>s.
          case find (\<lambda>(k, u). u_username u = kv_at kv ''username'') (id_entries e (g_users_by_id s)) of
            None \<Rightarrow> Inl ''User not found''
          | Some (k, u) \<Rightarrow> Inr k)
      else if um_count kv ''targetUserId'' then
        bindE (stoi_kv kv ''targetUserId'') (\<lambda>i. retE (Inr i))
      else retE (Inl ''Missing username or targetUserId''))"

text \<open>The check of both directions inserts the maps it reads, the second only when the first is
  false.\<close>

definition already_friends :: "int \<Rightarrow> int \<Rightarrow> ('db server, bool) M" where
  "already_friends a b =
     seqE (touch_friends a)
     (bindE (getsE (\<lambda>s. are_friends s a b)) (\<lambda>f.
       if f then retE True
       else seqE (touch_friends b) (getsE (\<lambda>s. are_friends s b a))))"

text \<open>The database part; an error text stops the handler.\<close>

definition store_request_db :: "'db env \<Rightarrow> int \<Rightarrow> int \<Rightarrow> ('db server, string option) M" where
  "store_request_db e uid target =
     bindE (getsE has_pg) (\<lambda>pg.
       if \<not> pg then retE None
       else bindE (pg_call (pg_has_pending_request (pq e) uid target)) (\<lambda>pending.
         if pending then retE (Some ''Friend request already sent'')
         else bindE (pg_call (pg_send_friend_request (pq e) uid target)) (\<lambda>ok.
           retE (if ok then None else Some ''Failed to send friend request''))))"

definition notify_request :: "u32 \<Rightarrow> int \<Rightarrow> ('db server, unit) M" where
  "notify_request cur target =
     bindE (getsE (\<lambda>s. (um_get (g_online_clients s) target,
                         display_name ''User'' s (int_of_u32 cur) (uint cur)))) (\<lambda>(it, name).
       case it of
         None \<Rightarrow> retE ()
       | Some tfd \<Rightarrow>
           send tfd (code FRIEND_REQUEST)
             (serialize_kv [(''fromUserId'', to_string (uint cur)), (''fromUsername'', name)]) cur)"

definition handle_FRIEND_REQUEST :: "'db env \<Rightarrow> int \<Rightarrow> string \<Rightarrow> u32 \<Rightarrow> ('db server, unit) M" where
  "handle_FRIEND_REQUEST e fd payload cur =
     (let uid = int_of_u32 cur; fail = (\<lambda>msg. send fd (code ERROR) msg cur) in
      bindE (request_target e (parse_kv payload)) (\<lambda>t.
        case t of
          Inl msg \<Rightarrow> fail msg
        | Inr targetId \<Rightarrow>
            if targetId = uid then fail ''Cannot friend yourself''
            else bindE (already_friends uid targetId) (\<lambda>already.
              if already then fail ''Already friends''
              else bindE (store_request_db e uid targetId) (\<lambda>r.
                case r of
                  Some msg \<Rightarrow> fail msg
                | None \<Rightarrow>
                    bindE (getsE (\<lambda>s. uid \<in> set (pending_requests s targetId))) (\<lambda>dup.
                    seqE (modifyE (\<lambda>s. s\<lparr>g_friend_requests :=
                        um_put targetId (push_back_new uid (um_at [] (g_friend_requests s) targetId))
                          (g_friend_requests s)\<rparr>))
                    (if dup then fail ''Friend request already sent''
                     else
                       seqE (notify_request cur targetId)
                       (seqE (log_activity ''FRIEND_REQUEST'' uid (''to_userId='' @ to_string targetId))
                         (send fd (code SUCCESS) ''Friend request sent'' cur))))))))"

subsection \<open>FRIEND\_ACCEPT, FRIEND\_DECLINE and UNFRIEND\<close>

text \<open>\<^verbatim>\<open>auto& vec = g_friend_requests[uid]; vec.erase(std::remove(..., other), vec.end())\<close>.\<close>

definition drop_request :: "int \<Rightarrow> int \<Rightarrow> 'db server \<Rightarrow> 'db server" where
  "drop_request uid other s =
     s\<lparr>g_friend_requests :=
         um_put uid (removeAll other (um_at [] (g_friend_requests s) uid)) (g_friend_requests s)\<rparr>"

definition set_friend :: "int \<Rightarrow> int \<Rightarrow> 'db server \<Rightarrow> 'db server" where
  "set_friend a b s = s\<lparr>g_friends := um_put a (um_put b True (friend_map s a)) (g_friends s)\<rparr>"

definition clear_friend :: "int \<Rightarrow> int \<Rightarrow> 'db server \<Rightarrow> 'db server" where
  "clear_friend a b s = s\<lparr>g_friends := um_put a (um_erase b (friend_map s a)) (g_friends s)\<rparr>"

definition accept_memory :: "int \<Rightarrow> int \<Rightarrow> 'db server \<Rightarrow> 'db server" where
  "accept_memory uid other s =
     set_friend other uid (set_friend uid other (drop_request other uid (drop_request uid other s)))"

definition handle_FRIEND_ACCEPT :: "'db env \<Rightarrow> int \<Rightarrow> string \<Rightarrow> u32 \<Rightarrow> ('db server, unit) M" where
  "handle_FRIEND_ACCEPT e fd payload cur =
     (let uid = int_of_u32 cur in
      bindE (stoi_kv (parse_kv payload) ''userId'') (\<lambda>other.
      bindE (getsE has_pg) (\<lambda>pg.
      bindE (if pg then pg_call (pg_accept_friend_request (pq e) other uid) else retE True) (\<lambda>ok.
        if \<not> ok then send fd (code ERROR) ''Failed to accept friend request'' cur
        else seqE (modifyE (accept_memory uid other))
          (send fd (code SUCCESS) ''Friend request accepted'' cur)))))"

definition handle_FRIEND_DECLINE :: "'db env \<Rightarrow> int \<Rightarrow> string \<Rightarrow> u32 \<Rightarrow> ('db server, unit) M" where
  "handle_FRIEND_DECLINE e fd payload cur =
     (let uid = int_of_u32 cur in
      bindE (stoi_kv (parse_kv payload) ''userId'') (\<lambda>other.
      seqE (if_pg (pg_decline_friend_request (pq e) other uid))
      (seqE (modifyE (drop_request uid other))
        (send fd (code SUCCESS) ''Friend request declined'' cur))))"

definition unfriend_memory :: "int \<Rightarrow> int \<Rightarrow> 'db server \<Rightarrow> 'db server" where
  "unfriend_memory uid other s =
     drop_request other uid (drop_request uid other (clear_friend other uid (clear_friend uid other s)))"

definition handle_UNFRIEND :: "int \<Rightarrow> string \<Rightarrow> u32 \<Rightarrow> ('db server, unit) M" where
  "handle_UNFRIEND fd payload cur =
     (let uid = int_of_u32 cur in
      bindE (stoi_kv (parse_kv payload) ''userId'') (\<lambda>other.
      seqE (modifyE (unfriend_memory uid other))
        (send fd (code SUCCESS) ''Unfriended'' cur)))"

subsection \<open>Preservation\<close>

context quiet_inv
begin

lemma pres_GET_FRIENDS_LIST:
  assumes "\<And>s k xs. I s \<Longrightarrow> I (s\<lparr>g_friend_requests :=
      um_put k (fold push_back_new xs (um_at [] (g_friend_requests s) k)) (g_friend_requests s)\<rparr>)"
  shows "pres I (handle_GET_FRIENDS_LIST e fd cur)"
  unfolding handle_GET_FRIENDS_LIST_def merged_requests_def
  by (intro pres_intros pres_comm pres_modifyE) (simp_all add: assms)

lemma pres_FRIEND_REQUEST:
  assumes "\<And>s k x. I s \<Longrightarrow> I (s\<lparr>g_friend_requests :=
      um_put k (push_back_new x (um_at [] (g_friend_requests s) k)) (g_friend_requests s)\<rparr>)"
  shows "pres I (handle_FRIEND_REQUEST e fd payload cur)"
  unfolding handle_FRIEND_REQUEST_def request_target_def already_friends_def store_request_db_def
    notify_request_def
  by (intro pres_intros pres_comm pres_modifyE) (simp_all add: assms pres_send)

lemma pres_FRIEND_ACCEPT:
  assumes "\<And>s other. I s \<Longrightarrow> I (accept_memory (int_of_u32 cur) other s)"
  shows "pres I (handle_FRIEND_ACCEPT e fd payload cur)"
  unfolding handle_FRIEND_ACCEPT_def
  by (intro pres_intros pres_comm pres_modifyE) (simp_all add: assms)

lemma pres_FRIEND_DECLINE:
  assumes "\<And>s other. I s \<Longrightarrow> I (drop_request (int_of_u32 cur) other s)"
  shows "pres I (handle_FRIEND_DECLINE e fd payload cur)"
  unfolding handle_FRIEND_DECLINE_def
  by (intro pres_intros pres_comm pres_modifyE) (simp_all add: assms)

lemma pres_UNFRIEND:
  assumes "\<And>s other. I s \<Longrightarrow> I (unfriend_memory (int_of_u32 cur) other s)"
  shows "pres I (handle_UNFRIEND fd payload cur)"
  unfolding handle_UNFRIEND_def
  by (intro pres_intros pres_comm pres_modifyE) (simp_all add: assms)

end

end
