(* ===== verification/Message_Handlers.thy ===== *)
theory Message_Handlers
  imports Session_Handlers
begin

text \<open>
  The message branches of \<^verbatim>\<open>handle_client\<close>: \<^verbatim>\<open>DIRECT_MESSAGE\<close>,
  \<^verbatim>\<open>GET_CONVERSATION_HISTORY\<close>, \<^verbatim>\<open>GET_GROUP_HISTORY\<close> and \<^verbatim>\<open>DELETE_CONVERSATION\<close>.
\<close>

definition handle_DIRECT_MESSAGE :: "'db env \<Rightarrow> int \<Rightarrow> string \<Rightarrow> u32 \<Rightarrow> ('db server, unit) M" where
  "handle_DIRECT_MESSAGE e fd payload cur =
     (let kv = parse_kv payload; uid = int_of_u32 cur; timestamp = now_s e * 1000 in
      bindE (stoi_kv kv ''recipientId'') (\<lambda>recipientId.
      let out = serialize_kv [(''senderId'', to_string uid), (''message'', kv_at kv ''message''),
                              (''timestamp'', to_string (timestamp div 1000))] in
      seqE (if_pg (pg_save_message (pq e) uid recipientId (kv_at kv ''message'') timestamp))
      (seqE (deliver (code DIRECT_MESSAGE) out cur recipientId)
      (seqE (log_activity ''DIRECT_MESSAGE'' uid (''to_userId='' @ to_string recipientId))
        (send fd (code SUCCESS) ''Message sent'' cur)))))"

text \<open>\<^verbatim>\<open>kv.count("limit") ? std::stoi(kv["limit"]) : 50\<close>.\<close>

definition history_limit :: "kv_map \<Rightarrow> ('db server, int) M" where
  "history_limit kv = (if um_count kv ''limit'' then stoi_kv kv ''limit'' else retE 50)"

text \<open>The loops read \<^verbatim>\<open>messages[messages.size() - 1 - i]\<close> for \<open>i\<close> from \<open>0\<close>, so they run from the end.\<close>

fun conversation_items :: "message list \<Rightarrow> nat \<Rightarrow> nat \<Rightarrow> kv_items" where
  "conversation_items messages i 0 = []"
| "conversation_items messages i (Suc n) =
     (let msg = messages ! (length messages - 1 - i) in
      [(indexed ''from'' i, to_string (m_from_user_id msg)), (indexed ''to'' i, to_string (m_to_user_id msg)),
       (indexed ''content'' i, m_content msg), (indexed ''timestamp'' i, to_string (m_timestamp msg))] @
      conversation_items messages (Suc i) n)"

definition handle_GET_CONVERSATION_HISTORY ::
  "'db env \<Rightarrow> int \<Rightarrow> string \<Rightarrow> u32 \<Rightarrow> ('db server, unit) M" where
  "handle_GET_CONVERSATION_HISTORY e fd payload cur =
     (let kv = parse_kv payload in
      bindE (stoi_kv kv ''otherUserId'') (\<lambda>otherUserId.
      bindE (history_limit kv) (\<lambda>limit.
      bindE (pg_call (pg_get_conversation (pq e) (int_of_u32 cur) otherUserId limit)) (\<lambda>messages.
        send fd (code SUCCESS)
          (serialize_kv ((''count'', to_string (int (length messages))) #
             conversation_items messages 0 (length messages))) cur))))"

fun group_history_items :: "group_message list \<Rightarrow> nat \<Rightarrow> nat \<Rightarrow> kv_items" where
  "group_history_items messages i 0 = []"
| "group_history_items messages i (Suc n) =
     (let msg = messages ! (length messages - 1 - i) in
      [(indexed ''from'' i, to_string (gm_user_id msg)), (indexed ''content'' i, gm_content msg),
       (indexed ''timestamp'' i, to_string (gm_timestamp msg))] @
      group_history_items messages (Suc i) n)"

definition in_group :: "'db env \<Rightarrow> int \<Rightarrow> int \<Rightarrow> ('db server, bool) M" where
  "in_group e gid uid =
     bindE (getsE has_pg) (\<lambda>pg.
       if pg then
         bindE (pg_call (pg_get_group_members (pq e) gid)) (\<lambda>members.
           retE (list_ex (\<lambda>m. u_id m = uid) members))
       else getsE (\<lambda>s. is_member s gid uid))"

definition handle_GET_GROUP_HISTORY :: "'db env \<Rightarrow> int \<Rightarrow> string \<Rightarrow> u32 \<Rightarrow> ('db server, unit) M" where
  "handle_GET_GROUP_HISTORY e fd payload cur =
     (let kv = parse_kv payload in
      bindE (stoi_kv kv ''groupId'') (\<lambda>gid.
      bindE (history_limit kv) (\<lambda>limit.
      bindE (in_group e gid (int_of_u32 cur)) (\<lambda>member.
        if \<not> member then send fd (code ERROR) ''Not in group'' cur
        else bindE (getsE has_pg) (\<lambda>pg.
          bindE (if pg then pg_call (pg_get_group_messages (pq e) gid limit) else retE []) (\<lambda>messages.
            send fd (code SUCCESS)
              (serialize_kv ((''groupId'', to_string gid) # (''count'', to_string (int (length messages))) #
                 group_history_items messages 0 (length messages))) cur))))))"

definition handle_DELETE_CONVERSATION :: "'db env \<Rightarrow> int \<Rightarrow> string \<Rightarrow> u32 \<Rightarrow> ('db server, unit) M" where
  "handle_DELETE_CONVERSATION e fd payload cur =
     (let uid = int_of_u32 cur in
      bindE (stoi_kv (parse_kv payload) ''otherUserId'') (\<lambda>otherUserId.
      bindE (getsE has_pg) (\<lambda>pg.
      bindE (if pg then pg_call (pg_delete_conversation (pq e) uid otherUserId) else retE False) (\<lambda>success.
        if success then
          seqE (log_activity ''DELETE_CONVERSATION'' uid (''with_userId='' @ to_string otherUserId))
            (send fd (code SUCCESS) ''Conversation deleted'' cur)
        else send fd (code ERROR) ''Failed to delete conversation'' cur))))"

subsection \<open>Preservation\<close>

context quiet_inv
begin

lemma pres_DIRECT_MESSAGE: "pres I (handle_DIRECT_MESSAGE e fd payload cur)"
  unfolding handle_DIRECT_MESSAGE_def by (intro pres_intros pres_comm)

lemma pres_GET_CONVERSATION_HISTORY: "pres I (handle_GET_CONVERSATION_HISTORY e fd payload cur)"
  unfolding handle_GET_CONVERSATION_HISTORY_def history_limit_def by (intro pres_intros pres_comm)

lemma pres_GET_GROUP_HISTORY: "pres I (handle_GET_GROUP_HISTORY e fd payload cur)"
  unfolding handle_GET_GROUP_HISTORY_def history_limit_def in_group_def by (intro pres_intros pres_comm)

lemma pres_DELETE_CONVERSATION: "pres I (handle_DELETE_CONVERSATION e fd payload cur)"
  unfolding handle_DELETE_CONVERSATION_def by (intro pres_intros pres_comm)

end

end
