(* ===== verification/Group_Handlers.thy ===== *)
theory Group_Handlers
  imports Session_Handlers
begin

text \<open>
  The group branches of \<^verbatim>\<open>handle_client\<close>: \<^verbatim>\<open>GET_USER_GROUPS\<close>, \<^verbatim>\<open>CREATE_GROUP\<close>,
  \<^verbatim>\<open>INVITE_TO_GROUP\<close>, \<^verbatim>\<open>ACCEPT_GROUP_INVITE\<close>, \<^verbatim>\<open>DECLINE_GROUP_INVITE\<close>, \<^verbatim>\<open>RENAME_GROUP\<close>,
  \<^verbatim>\<open>SET_GROUP_NICKNAME\<close>, \<^verbatim>\<open>REMOVE_FROM_GROUP\<close>, \<^verbatim>\<open>MAKE_ADMIN\<close>, \<^verbatim>\<open>LEAVE_GROUP\<close> and
  \<^verbatim>\<open>GROUP_MESSAGE\<close>. The announcements inside \<^verbatim>\<open>try { ... } catch (...) {}\<close> are wrapped in
  \<^const>\<open>catch_all\<close>.
\<close>

subsection \<open>Pieces the branches share\<close>

definition dq :: string where "dq = [CHR 0x22]" \<comment> \<open>the double quote\<close>

definition member_ids :: "'db env \<Rightarrow> 'db server \<Rightarrow> int \<Rightarrow> int list" where
  "member_ids e s gid =
     (case um_get (g_groups s) gid of None \<Rightarrow> [] | Some g \<Rightarrow> iter_ids e (um_keys (g_members g)))"

text \<open>\<^verbatim>\<open>auto it = g_groups.find(gid); if (it != g_groups.end()) ...\<close>\<close>

definition update_group :: "int \<Rightarrow> (group \<Rightarrow> group) \<Rightarrow> 'db server \<Rightarrow> 'db server" where
  "update_group gid f s =
     (case um_get (g_groups s) gid of
        None \<Rightarrow> s
      | Some g \<Rightarrow> s\<lparr>g_groups := um_put gid (f g) (g_groups s)\<rparr>)"

text \<open>The list \<^verbatim>\<open>membersToNotify\<close>: from the database, or from \<^verbatim>\<open>g_groups[gid]\<close>.\<close>

definition notify_ids :: "'db env \<Rightarrow> int \<Rightarrow> ('db server, int list) M" where
  "notify_ids e gid =
     bindE (getsE has_pg) (\<lambda>pg.
       if pg then
         bindE (pg_call (pg_get_group_members (pq e) gid)) (\<lambda>us. retE (map u_id us))
       else
         seqE (touch_group gid)
           (getsE (\<lambda>s. member_ids e s gid)))"

definition system_payload :: "'db env \<Rightarrow> int \<Rightarrow> string \<Rightarrow> string" where
  "system_payload e gid sys =
     serialize_kv [(''groupId'', to_string gid), (''senderId'', ''0''), (''message'', sys),
                   (''timestamp'', to_string (now_ms e))]"

definition system_broadcast :: "'db env \<Rightarrow> int \<Rightarrow> string \<Rightarrow> ('db server, int list) M" where
  "system_broadcast e gid sys =
     seqE (if_pg (pg_save_group_message (pq e) gid 0 sys (now_ms e)))
     (bindE (notify_ids e gid) (\<lambda>ids.
      seqE (broadcast (code GROUP_MESSAGE) (system_payload e gid sys) 0 ids) (retE ids)))"

definition actor_name :: "'db server \<Rightarrow> u32 \<Rightarrow> string" where
  "actor_name s cur = display_name ''User'' s (int_of_u32 cur) (uint cur)"

text \<open>\<^verbatim>\<open>if (!csv.empty()) csv += ","; csv += token;\<close>\<close>

definition csv_append :: "string \<Rightarrow> string \<Rightarrow> string" where
  "csv_append csv token = (if csv \<noteq> [] then csv @ '','' else csv) @ token"

subsection \<open>GET\_USER\_GROUPS\<close>

text \<open>\<^verbatim>\<open>membersCsv\<close>, \<^verbatim>\<open>memberNicksCsv\<close>, \<^verbatim>\<open>memberNamesCsv\<close> and \<^verbatim>\<open>memberAdminsCsv\<close>.\<close>

record csvs =
  c_members :: string
  c_nicks :: string
  c_names :: string
  c_admins :: string

definition no_csvs :: csvs where
  "no_csvs = \<lparr>c_members = [], c_nicks = [], c_names = [], c_admins = []\<rparr>"

definition encoded_nick :: "(int, string) umap \<Rightarrow> int \<Rightarrow> string" where
  "encoded_nick nicks uid =
     (let nick = um_at [] nicks uid in if nick = [] then [] else base64_encode nick)"

fun pg_member_csvs ::
  "'db env \<Rightarrow> int \<Rightarrow> (int, string) umap \<Rightarrow> user list \<Rightarrow> csvs \<Rightarrow> ('db server, csvs) M" where
  "pg_member_csvs e gid nicks [] c = retE c"
| "pg_member_csvs e gid nicks (m # ms) c =
     bindE (pg_call (pg_is_group_admin (pq e) gid (u_id m))) (\<lambda>isAdmin.
       pg_member_csvs e gid nicks ms
         \<lparr>c_members = c_members c @ to_string (u_id m) @ (if ms \<noteq> [] then '','' else []),
          c_nicks = csv_append (c_nicks c) (encoded_nick nicks (u_id m)),
          c_names = csv_append (c_names c) (u_username m),
          c_admins = csv_append (c_admins c) (if isAdmin then ''1'' else ''0'')\<rparr>)"

fun mem_member_csvs :: "'db server \<Rightarrow> int list \<Rightarrow> csvs \<Rightarrow> csvs" where
  "mem_member_csvs s [] c = c"
| "mem_member_csvs s (m # ms) c =
     mem_member_csvs s ms
       (c\<lparr>c_members := c_members c @ to_string m @ (if ms \<noteq> [] then '','' else []),
          c_names := csv_append (c_names c) (display_name ''User '' s m m)\<rparr>)"

definition group_csvs :: "'db env \<Rightarrow> group \<Rightarrow> ('db server, csvs) M" where
  "group_csvs e g =
     bindE (getsE has_pg) (\<lambda>pg.
       if pg then
         bindE (pg_call (pg_get_group_members (pq e) (g_id g))) (\<lambda>members.
         bindE (pg_call (pg_get_group_member_nicknames (pq e) (g_id g))) (\<lambda>nicks.
           pg_member_csvs e (g_id g) nicks members no_csvs))
       else getsE (\<lambda>s. mem_member_csvs s (iter_ids e (um_keys (g_members g))) no_csvs))"

definition group_items :: "nat \<Rightarrow> group \<Rightarrow> csvs \<Rightarrow> kv_items" where
  "group_items i g c =
     [(indexed ''groupId'' i, to_string (g_id g)), (indexed ''name'' i, g_name g),
      (indexed ''memberCount'' i,
        to_string (int (length (filter (\<lambda>ch. ch = CHR '','') (c_members c))) + 1)),
      (indexed ''members'' i, c_members c), (indexed ''memberNicks'' i, c_nicks c),
      (indexed ''memberNames'' i, c_names c), (indexed ''memberAdmins'' i, c_admins c)]"

fun user_groups_items :: "'db env \<Rightarrow> nat \<Rightarrow> group list \<Rightarrow> ('db server, kv_items) M" where
  "user_groups_items e i [] = retE []"
| "user_groups_items e i (g # gs) =
     bindE (group_csvs e g) (\<lambda>c.
     bindE (user_groups_items e (Suc i) gs) (\<lambda>rest.
       retE (group_items i g c @ rest)))"

definition user_groups :: "'db env \<Rightarrow> int \<Rightarrow> ('db server, group list) M" where
  "user_groups e uid =
     bindE (getsE has_pg) (\<lambda>pg.
       if pg then pg_call (pg_get_user_groups (pq e) uid)
       else getsE (\<lambda>s. filter (\<lambda>g. um_count (g_members g) uid) (map snd (id_entries e (g_groups s)))))"

definition handle_GET_USER_GROUPS :: "'db env \<Rightarrow> int \<Rightarrow> int \<Rightarrow> u32 \<Rightarrow> ('db server, unit) M" where
  "handle_GET_USER_GROUPS e fd requester cur =
     bindE (user_groups e requester) (\<lambda>groups.
     bindE (user_groups_items e 0 groups) (\<lambda>items.
       send fd (code SUCCESS) (serialize_kv ((''count'', to_string (int (length groups))) # items)) cur))"

subsection \<open>CREATE\_GROUP\<close>

definition parse_members :: "kv_map \<Rightarrow> int list res" where
  "parse_members kv = mapS stoi (filter (\<lambda>t. t \<noteq> []) (getlines (CHR '','') (kv_at kv ''members'')))"

definition new_group :: "int \<Rightarrow> string \<Rightarrow> int \<Rightarrow> int list \<Rightarrow> group" where
  "new_group gid name owner ids =
     \<lparr>g_id = gid, g_name = name, g_ownerId = owner,
      g_members = fold (\<lambda>m. um_put m True) ids (um_put owner True []),
      g_admins = um_put owner True [], g_member_nicknames = []\<rparr>"

text \<open>The group id: \<open>None\<close> when the database refuses. Without a database the group is stored.\<close>

definition allocate_group :: "'db env \<Rightarrow> string \<Rightarrow> int \<Rightarrow> int list \<Rightarrow> ('db server, int option) M" where
  "allocate_group e name uid memberIds =
     bindE (getsE has_pg) (\<lambda>pg.
       if pg then
         bindE (pg_call (pg_create_group (pq e) name uid)) (\<lambda>r.
           case r of
             None \<Rightarrow> retE None
           | Some gid \<Rightarrow>
               seqE (pg_call (pg_set_group_admin (pq e) gid uid True))
               (seqE (forE memberIds (\<lambda>m. bindE (pg_call (pg_add_group_member (pq e) gid m)) (\<lambda>_. retE ())))
                 (retE (Some gid))))
       else
         bindE (getsE g_next_group_id) (\<lambda>gid.
         seqE (modifyE (\<lambda>s. s\<lparr>g_next_group_id := wrap_int32 (gid + 1),
                               g_groups := um_put gid (new_group gid name uid memberIds) (g_groups s)\<rparr>))
           (retE (Some gid))))"

definition store_group :: "int \<Rightarrow> string \<Rightarrow> int \<Rightarrow> int list \<Rightarrow> 'db server \<Rightarrow> 'db server" where
  "store_group gid name uid memberIds s =
     s\<lparr>g_groups := um_put gid
         (new_group gid name uid
           (if has_pg s then filter (are_friends s uid) memberIds else memberIds))
         (g_groups s)\<rparr>"

definition created_payload :: "int \<Rightarrow> string \<Rightarrow> int \<Rightarrow> int list \<Rightarrow> string" where
  "created_payload gid name uid memberIds =
     serialize_kv [(''groupId'', to_string gid), (''name'', name),
       (''memberCount'', to_string (int (length memberIds + 1))),
       (''members'', intersperse_concat (CHR '','') (map to_string (uid # memberIds)))]"

definition handle_CREATE_GROUP :: "'db env \<Rightarrow> int \<Rightarrow> string \<Rightarrow> u32 \<Rightarrow> ('db server, unit) M" where
  "handle_CREATE_GROUP e fd payload cur =
     (let kv = parse_kv payload; uid = int_of_u32 cur;
          name = (if um_count kv ''name'' then kv_at kv ''name'' else ''group_'' @ to_string (now_s e)) in
      bindE (liftE (parse_members kv)) (\<lambda>memberIds.
      bindE (allocate_group e name uid memberIds) (\<lambda>r.
        case r of
          None \<Rightarrow> send fd (code ERROR) ''Failed to create group'' cur
        | Some gid \<Rightarrow>
            if gid = - 1 then send fd (code ERROR) ''Failed to create group'' cur
            else
              seqE (modifyE (store_group gid name uid memberIds))
              (seqE (log_activity ''CREATE_GROUP'' uid
                 (''groupId='' @ to_string gid @ '' name='' @ name @
                  '' members='' @ to_string (int (length memberIds + 1))))
              (seqE (send fd (code SUCCESS) (created_payload gid name uid memberIds) cur)
              (catch_all
                (bindE (getsE (\<lambda>s. actor_name s cur)) (\<lambda>actor.
                 bindE (system_broadcast e gid (actor @ '' created the group'')) (\<lambda>_. retE ())))))))))"

subsection \<open>INVITE\_TO\_GROUP, ACCEPT\_GROUP\_INVITE and DECLINE\_GROUP\_INVITE\<close>

definition add_member :: "int \<Rightarrow> group \<Rightarrow> group" where
  "add_member uid g = g\<lparr>g_members := um_put uid True (g_members g)\<rparr>"

definition announce_added :: "'db env \<Rightarrow> int \<Rightarrow> int \<Rightarrow> u32 \<Rightarrow> ('db server, unit) M" where
  "announce_added e gid uid cur =
     catch_all
       (bindE (getsE (\<lambda>s. actor_name s cur @ '' added '' @ display_name ''User'' s uid uid @ '' to the group''))
         (\<lambda>sys. bindE (system_broadcast e gid sys) (\<lambda>_. retE ())))"

definition notify_invited :: "int \<Rightarrow> int \<Rightarrow> u32 \<Rightarrow> ('db server, unit) M" where
  "notify_invited gid uid cur =
     bindE (getsE (\<lambda>s. online_fd s uid)) (\<lambda>tfd.
       whenE (tfd \<noteq> - 1)
         (seqE (touch_group gid)
         (bindE (getsE (\<lambda>s. g_name (um_at empty_group (g_groups s) gid))) (\<lambda>name.
           send tfd (code INVITE_TO_GROUP)
             (serialize_kv [(''groupId'', to_string gid), (''name'', name),
                            (''fromUserId'', to_string (uint cur))]) cur))))"

definition handle_INVITE_TO_GROUP :: "'db env \<Rightarrow> int \<Rightarrow> string \<Rightarrow> u32 \<Rightarrow> ('db server, unit) M" where
  "handle_INVITE_TO_GROUP e fd payload cur =
     (let kv = parse_kv payload in
      bindE (stoi_kv kv ''groupId'') (\<lambda>gid.
      bindE (stoi_kv kv ''userId'') (\<lambda>uid.
      bindE (getsE (\<lambda>s. (is_member s gid (int_of_u32 cur), has_pg s))) (\<lambda>(ok, pg).
        if \<not> ok then send fd (code ERROR) ''Invite failed'' cur
        else bindE (if pg then pg_call (pg_add_group_member (pq e) gid uid) else retE True) (\<lambda>added.
          if \<not> added then send fd (code ERROR) ''Invite failed (db)'' cur
          else
            seqE (modifyE (update_group gid (add_member uid)))
            (seqE (notify_invited gid uid cur)
            (seqE (announce_added e gid uid cur)
              (send fd (code SUCCESS) ''Added'' cur))))))))"

text \<open>
  The membership update of an acceptance. Whether an invitation exists is not looked up. Without a
  database the group has to exist.
\<close>

definition accept_invite :: "'db env \<Rightarrow> int \<Rightarrow> int \<Rightarrow> ('db server, bool) M" where
  "accept_invite e gid uid =
     bindE (getsE (\<lambda>s. (has_pg s, um_count (g_groups s) gid))) (\<lambda>(pg, known).
       if pg then
         bindE (pg_call (pg_add_group_member (pq e) gid uid)) (\<lambda>added.
           if added then
             seqE (modifyE (update_group gid (add_member uid)))
             (seqE (pg_call (pg_delete_group_invite (pq e) gid uid)) (retE True))
           else retE False)
       else seqE (modifyE (update_group gid (add_member uid))) (retE known))"

definition notify_joined :: "'db env \<Rightarrow> int \<Rightarrow> int \<Rightarrow> u32 \<Rightarrow> ('db server, unit) M" where
  "notify_joined e gid uid cur =
     bindE (getsE (\<lambda>s. member_ids e s gid)) (\<lambda>ids.
       forE ids (\<lambda>memberUid.
         if memberUid = uid then retE ()
         else bindE (getsE (\<lambda>s. um_get (g_online_clients s) memberUid)) (\<lambda>it.
           case it of
             None \<Rightarrow> retE ()
           | Some tfd \<Rightarrow>
               send tfd (code SUCCESS)
                 (serialize_kv [(''groupId'', to_string gid), (''userId'', to_string uid)]) cur)))"

definition handle_ACCEPT_GROUP_INVITE :: "'db env \<Rightarrow> int \<Rightarrow> string \<Rightarrow> u32 \<Rightarrow> ('db server, unit) M" where
  "handle_ACCEPT_GROUP_INVITE e fd payload cur =
     (let uid = int_of_u32 cur in
      bindE (stoi_kv (parse_kv payload) ''groupId'') (\<lambda>gid.
      bindE (accept_invite e gid uid) (\<lambda>ok.
        if ok then seqE (notify_joined e gid uid cur) (send fd (code SUCCESS) ''Accepted'' cur)
        else send fd (code ERROR) ''Accept failed'' cur)))"

definition handle_DECLINE_GROUP_INVITE :: "'db env \<Rightarrow> int \<Rightarrow> string \<Rightarrow> u32 \<Rightarrow> ('db server, unit) M" where
  "handle_DECLINE_GROUP_INVITE e fd payload cur =
     bindE (stoi_kv (parse_kv payload) ''groupId'') (\<lambda>gid.
     seqE (if_pg (pg_delete_group_invite (pq e) gid (int_of_u32 cur)))
       (send fd (code SUCCESS) ''Declined'' cur))"

subsection \<open>RENAME\_GROUP\<close>

definition announce_rename :: "'db env \<Rightarrow> int \<Rightarrow> string \<Rightarrow> u32 \<Rightarrow> ('db server, unit) M" where
  "announce_rename e gid newName cur =
     catch_all
       (bindE (getsE (\<lambda>s. actor_name s cur @ '' renamed the group to '' @ dq @ newName @ dq)) (\<lambda>sys.
        bindE (system_broadcast e gid sys) (\<lambda>ids.
          broadcast (code SUCCESS)
            (serialize_kv [(''groupId'', to_string gid), (''name'', newName), (''action'', ''renamed'')])
            cur ids)))"

definition handle_RENAME_GROUP :: "'db env \<Rightarrow> int \<Rightarrow> string \<Rightarrow> u32 \<Rightarrow> ('db server, unit) M" where
  "handle_RENAME_GROUP e fd payload cur =
     (let kv = parse_kv payload; newName = kv_at kv ''name'' in
      bindE (stoi_kv kv ''groupId'') (\<lambda>gid.
      bindE (getsE (\<lambda>s. is_member s gid (int_of_u32 cur))) (\<lambda>ok.
        if \<not> ok then send fd (code ERROR) ''Rename failed'' cur
        else
          seqE (modifyE (update_group gid (\<lambda>g. g\<lparr>g_name := newName\<rparr>)))
          (seqE (if_pg (pg_rename_group (pq e) gid newName))
          (seqE (announce_rename e gid newName cur)
            (send fd (code SUCCESS) ''Renamed'' cur))))))"

subsection \<open>SET\_GROUP\_NICKNAME\<close>

definition nickname_text :: "'db server \<Rightarrow> int \<Rightarrow> int \<Rightarrow> string \<Rightarrow> string" where
  "nickname_text s actorId uid nick =
     (let actor = display_name ''User '' s actorId actorId; target = display_name ''User '' s uid uid in
      if uid = actorId then
        if nick = [] then actor @ '' removed their nickname''
        else actor @ '' set their nickname to '' @ dq @ nick @ dq
      else
        if nick = [] then actor @ '' removed '' @ target @ sq @ ''s nickname''
        else actor @ '' set '' @ target @ sq @ ''s nickname to '' @ dq @ nick @ dq)"

definition announce_nickname :: "'db env \<Rightarrow> int \<Rightarrow> int \<Rightarrow> string \<Rightarrow> u32 \<Rightarrow> ('db server, unit) M" where
  "announce_nickname e gid uid nick cur =
     catch_all
       (bindE (getsE (\<lambda>s. nickname_text s (int_of_u32 cur) uid nick)) (\<lambda>sys.
        seqE (if_pg (pg_save_group_message (pq e) gid 0 sys (now_ms e)))
        (bindE (getsE (\<lambda>s. member_ids e s gid)) (\<lambda>ids.
          broadcast (code GROUP_MESSAGE) (system_payload e gid sys) 0 ids))))"

definition handle_SET_GROUP_NICKNAME :: "'db env \<Rightarrow> int \<Rightarrow> string \<Rightarrow> u32 \<Rightarrow> ('db server, unit) M" where
  "handle_SET_GROUP_NICKNAME e fd payload cur =
     (let kv = parse_kv payload; nick = kv_at kv ''nick'' in
      bindE (stoi_kv kv ''groupId'') (\<lambda>gid.
      bindE (stoi_kv kv ''userId'') (\<lambda>uid.
      bindE (getsE (\<lambda>s. is_member s gid uid)) (\<lambda>ok.
        if \<not> ok then send fd (code ERROR) ''Set nickname failed'' cur
        else
          seqE (modifyE (update_group gid
            (\<lambda>g. g\<lparr>g_member_nicknames := um_put uid nick (g_member_nicknames g)\<rparr>)))
          (seqE (if_pg (pg_set_group_nickname (pq e) gid uid nick))
          (seqE (announce_nickname e gid uid nick cur)
            (send fd (code SUCCESS) ''Nickname set'' cur)))))))"

subsection \<open>REMOVE\_FROM\_GROUP\<close>

definition remove_permitted :: "'db env \<Rightarrow> int \<Rightarrow> int \<Rightarrow> int \<Rightarrow> ('db server, bool) M" where
  "remove_permitted e gid uid requester =
     bindE (getsE (\<lambda>s. (has_pg s, um_count (g_groups s) gid, is_admin s gid requester))) (\<lambda>(pg, known, adm).
       if pg then
         if uid = requester then retE True
         else pg_call (pg_is_group_admin (pq e) gid requester)
       else retE (known \<and> (uid = requester \<or> adm)))"

definition drop_member :: "int \<Rightarrow> group \<Rightarrow> group" where
  "drop_member uid g = g\<lparr>g_members := um_erase uid (g_members g), g_admins := um_erase uid (g_admins g)\<rparr>"

definition announce_removed :: "'db env \<Rightarrow> int \<Rightarrow> int \<Rightarrow> u32 \<Rightarrow> ('db server, unit) M" where
  "announce_removed e gid uid cur =
     catch_all
       (bindE (getsE (\<lambda>s. actor_name s cur @ '' removed '' @ display_name ''User'' s uid uid @ '' from the group''))
         (\<lambda>sys. bindE (system_broadcast e gid sys) (\<lambda>_. retE ())))"

text \<open>The list \<^verbatim>\<open>remainingMembers\<close>: as \<open>notify_ids\<close>, but with \<^verbatim>\<open>find\<close> in memory.\<close>

definition remaining_ids :: "'db env \<Rightarrow> int \<Rightarrow> ('db server, int list) M" where
  "remaining_ids e gid =
     bindE (getsE has_pg) (\<lambda>pg.
       if pg then
         bindE (pg_call (pg_get_group_members (pq e) gid)) (\<lambda>us. retE (map u_id us))
       else getsE (\<lambda>s. member_ids e s gid))"

definition notify_removed :: "'db env \<Rightarrow> int \<Rightarrow> int \<Rightarrow> ('db server, unit) M" where
  "notify_removed e gid uid =
     seqE (catch_all (deliver (code GROUP_MESSAGE)
         (serialize_kv [(''groupId'', to_string gid), (''action'', ''removed'')]) 0 uid))
       (catch_all (bindE (remaining_ids e gid) (\<lambda>ids.
         broadcast (code SUCCESS)
           (serialize_kv [(''groupId'', to_string gid), (''userId'', to_string uid),
                          (''action'', ''memberRemoved'')]) 0 ids)))"

definition handle_REMOVE_FROM_GROUP :: "'db env \<Rightarrow> int \<Rightarrow> string \<Rightarrow> u32 \<Rightarrow> ('db server, unit) M" where
  "handle_REMOVE_FROM_GROUP e fd payload cur =
     (let kv = parse_kv payload in
      bindE (stoi_kv kv ''groupId'') (\<lambda>gid.
      bindE (stoi_kv kv ''userId'') (\<lambda>uid.
      bindE (remove_permitted e gid uid (int_of_u32 cur)) (\<lambda>permitted.
        if \<not> permitted then send fd (code ERROR) ''Not permitted'' cur
        else bindE (getsE has_pg) (\<lambda>pg.
          bindE (if pg then pg_call (pg_remove_group_member (pq e) gid uid) else retE True) (\<lambda>removed.
            if \<not> removed then send fd (code ERROR) ''Remove failed (db)'' cur
            else
              seqE (modifyE (update_group gid (drop_member uid)))
              (seqE (announce_removed e gid uid cur)
              (seqE (notify_removed e gid uid)
                (send fd (code SUCCESS) ''Removed'' cur)))))))))"

subsection \<open>MAKE\_ADMIN\<close>

definition admin_permitted :: "'db env \<Rightarrow> int \<Rightarrow> int \<Rightarrow> ('db server, bool) M" where
  "admin_permitted e gid requester =
     bindE (getsE (\<lambda>s. (has_pg s, is_admin s gid requester))) (\<lambda>(pg, adm).
       if pg then pg_call (pg_is_group_admin (pq e) gid requester) else retE adm)"

definition announce_admin :: "'db env \<Rightarrow> int \<Rightarrow> int \<Rightarrow> u32 \<Rightarrow> ('db server, unit) M" where
  "announce_admin e gid uid cur =
     catch_all
       (bindE (getsE (\<lambda>s. actor_name s cur @ '' made '' @ display_name ''User'' s uid uid @ '' an admin''))
         (\<lambda>sys. bindE (system_broadcast e gid sys) (\<lambda>ids.
           broadcast (code SUCCESS)
             (serialize_kv [(''groupId'', to_string gid), (''userId'', to_string uid), (''isAdmin'', ''true'')])
             cur ids)))"

definition promote :: "int \<Rightarrow> group \<Rightarrow> group" where
  "promote uid g = g\<lparr>g_admins := um_put uid True (g_admins g)\<rparr>"

definition handle_MAKE_ADMIN :: "'db env \<Rightarrow> int \<Rightarrow> string \<Rightarrow> u32 \<Rightarrow> ('db server, unit) M" where
  "handle_MAKE_ADMIN e fd payload cur =
     (let kv = parse_kv payload in
      bindE (stoi_kv kv ''groupId'') (\<lambda>gid.
      bindE (stoi_kv kv ''userId'') (\<lambda>uid.
      bindE (admin_permitted e gid (int_of_u32 cur)) (\<lambda>permitted.
        if \<not> permitted then send fd (code ERROR) ''Not permitted'' cur
        else bindE (getsE has_pg) (\<lambda>pg.
          bindE (if pg then pg_call (pg_set_group_admin (pq e) gid uid True) else retE True) (\<lambda>done.
            if \<not> done then send fd (code ERROR) ''Make admin failed (db)'' cur
            else
              seqE (modifyE (update_group gid (promote uid)))
              (seqE (announce_admin e gid uid cur)
                (send fd (code SUCCESS) ''Made admin'' cur))))))))"

subsection \<open>LEAVE\_GROUP\<close>

text \<open>Only \<^verbatim>\<open>members\<close> is changed; a group without members is erased.\<close>

definition leave_memory :: "int \<Rightarrow> int \<Rightarrow> ('db server, bool \<times> bool) M" where
  "leave_memory gid uid =
     bindE (getsE (\<lambda>s. um_get (g_groups s) gid)) (\<lambda>it.
       case it of
         None \<Rightarrow> retE (False, False)
       | Some g \<Rightarrow>
           let members = um_erase uid (g_members g) in
           if members = [] then
             seqE (modifyE (\<lambda>s. s\<lparr>g_groups := um_erase gid (g_groups s)\<rparr>)) (retE (True, True))
           else
             seqE (modifyE (\<lambda>s. s\<lparr>g_groups := um_put gid (g\<lparr>g_members := members\<rparr>) (g_groups s)\<rparr>))
               (retE (True, False)))"

definition handle_LEAVE_GROUP :: "'db env \<Rightarrow> int \<Rightarrow> string \<Rightarrow> u32 \<Rightarrow> ('db server, unit) M" where
  "handle_LEAVE_GROUP e fd payload cur =
     bindE (stoi_kv (parse_kv payload) ''groupId'') (\<lambda>gid.
     bindE (leave_memory gid (int_of_u32 cur)) (\<lambda>(ok, deleted).
     bindE (getsE has_pg) (\<lambda>pg.
     bindE (if ok \<and> pg then pg_call (pg_remove_group_member (pq e) gid (int_of_u32 cur)) else retE True)
       (\<lambda>removed.
         if \<not> removed then send fd (code ERROR) ''Leave failed (db)'' cur
         else send fd (code SUCCESS) (if deleted then ''Group deleted'' else ''Left group'') cur))))"

subsection \<open>GROUP\_MESSAGE\<close>

text \<open>The recipients: \<open>None\<close> when the sender is not a member.\<close>

definition message_recipients :: "'db env \<Rightarrow> int \<Rightarrow> int \<Rightarrow> ('db server, int list option) M" where
  "message_recipients e gid uid =
     bindE (getsE (\<lambda>s. (has_pg s, is_member s gid uid, member_ids e s gid))) (\<lambda>(pg, member, ids).
       if pg then
         bindE (pg_call (pg_is_group_member (pq e) gid uid)) (\<lambda>ok.
           if ok then
             bindE (pg_call (pg_get_group_members (pq e) gid)) (\<lambda>us.
               retE (Some (filter (\<lambda>i. i \<noteq> uid) (map u_id us))))
           else retE None)
       else retE (if member then Some (filter (\<lambda>i. i \<noteq> uid) ids) else None))"

definition handle_GROUP_MESSAGE :: "'db env \<Rightarrow> int \<Rightarrow> string \<Rightarrow> u32 \<Rightarrow> ('db server, unit) M" where
  "handle_GROUP_MESSAGE e fd payload cur =
     (let kv = parse_kv payload; uid = int_of_u32 cur; message = kv_at kv ''message'' in
      bindE (stoi_kv kv ''groupId'') (\<lambda>gid.
      bindE (message_recipients e gid uid) (\<lambda>r.
        case r of
          None \<Rightarrow> send fd (code ERROR) ''Not in group'' cur
        | Some members \<Rightarrow>
            seqE (if_pg (pg_save_group_message (pq e) gid uid message (now_ms e)))
            (seqE (broadcast (code GROUP_MESSAGE)
               (serialize_kv [(''groupId'', to_string gid), (''senderId'', to_string uid),
                              (''message'', message), (''timestamp'', to_string (now_ms e))])
               cur members)
            (seqE (log_activity ''GROUP_MESSAGE'' uid (''groupId='' @ to_string gid))
              (send fd (code SUCCESS) ''Group message sent'' cur))))))"

subsection \<open>Preservation\<close>

context quiet_inv
begin

lemma pres_pg_member_csvs: "pres I (pg_member_csvs e gid nicks ms c)"
  by (induction ms arbitrary: c) (auto intro: pres_intros pres_comm)

lemma pres_user_groups_items: "pres I (user_groups_items e i gs)"
  by (induction gs arbitrary: i)
     (auto simp: group_csvs_def intro!: pres_intros pres_comm pres_pg_member_csvs)

lemma pres_GET_USER_GROUPS: "pres I (handle_GET_USER_GROUPS e fd requester cur)"
  unfolding handle_GET_USER_GROUPS_def user_groups_def
  by (intro pres_intros pres_comm pres_user_groups_items)

lemma pres_DECLINE_GROUP_INVITE: "pres I (handle_DECLINE_GROUP_INVITE e fd payload cur)"
  unfolding handle_DECLINE_GROUP_INVITE_def by (intro pres_intros pres_comm)

lemma pres_GROUP_MESSAGE: "pres I (handle_GROUP_MESSAGE e fd payload cur)"
  unfolding handle_GROUP_MESSAGE_def message_recipients_def by (intro pres_intros pres_comm)

end

text \<open>
  The announcements to a group evaluate \<^verbatim>\<open>g_groups[gid]\<close>, which inserts an empty group under an
  unknown id. A \<open>group_inv\<close> survives that for one id; a \<open>comm_inv\<close> survives it for every id.
\<close>

locale group_inv = quiet_inv I for I :: "'db server \<Rightarrow> bool" +
  fixes gid :: int
  assumes I_touch_here: "I s \<Longrightarrow> I (s\<lparr>g_groups := um_touch empty_group gid (g_groups s)\<rparr>)"
begin

lemma pres_touch_group: "pres I (touch_group gid)"
  unfolding touch_group_def by (rule pres_modifyE) (rule I_touch_here)

lemma pres_notify_ids: "pres I (notify_ids e gid)"
  unfolding notify_ids_def by (intro pres_intros pres_comm pres_touch_group)

lemma pres_system_broadcast: "pres I (system_broadcast e gid sys)"
  unfolding system_broadcast_def by (intro pres_intros pres_comm pres_notify_ids)

lemma pres_announce:
  "pres I (announce_added e gid uid cur)" "pres I (announce_rename e gid n cur)"
  "pres I (announce_nickname e gid uid n cur)" "pres I (announce_removed e gid uid cur)"
  "pres I (announce_admin e gid uid cur)" "pres I (notify_removed e gid uid)"
  "pres I (notify_joined e gid uid cur)" "pres I (notify_invited gid uid cur)"
  unfolding announce_added_def announce_rename_def announce_nickname_def announce_removed_def
    announce_admin_def notify_removed_def notify_joined_def notify_invited_def remaining_ids_def
  by (intro pres_intros pres_comm pres_touch_group pres_system_broadcast)+

end

locale comm_inv = quiet_inv I for I :: "'db server \<Rightarrow> bool" +
  assumes I_touch_group: "I s \<Longrightarrow> I (s\<lparr>g_groups := um_touch empty_group k (g_groups s)\<rparr>)"

sublocale comm_inv \<subseteq> each: group_inv I gid for gid
  by unfold_locales (rule I_touch_group)

context comm_inv
begin

lemma pres_CREATE_GROUP:
  assumes "\<And>s gid name ids. I s \<Longrightarrow> I (store_group gid name (int_of_u32 cur) ids s)"
    and "\<And>s n gid name ids. I s \<Longrightarrow> I (s\<lparr>g_next_group_id := n,
          g_groups := um_put gid (new_group gid name (int_of_u32 cur) ids) (g_groups s)\<rparr>)"
  shows "pres I (handle_CREATE_GROUP e fd payload cur)"
  unfolding handle_CREATE_GROUP_def allocate_group_def
  by (intro pres_intros pres_comm each.pres_system_broadcast pres_modifyE) (simp_all add: assms)

lemma pres_INVITE_TO_GROUP:
  assumes "\<And>s gid uid. I s \<Longrightarrow> I (update_group gid (add_member uid) s)"
  shows "pres I (handle_INVITE_TO_GROUP e fd payload cur)"
  unfolding handle_INVITE_TO_GROUP_def
  by (intro pres_intros pres_comm each.pres_announce pres_modifyE) (simp_all add: assms)

lemma pres_ACCEPT_GROUP_INVITE:
  assumes "\<And>s gid. I s \<Longrightarrow> I (update_group gid (add_member (int_of_u32 cur)) s)"
  shows "pres I (handle_ACCEPT_GROUP_INVITE e fd payload cur)"
  unfolding handle_ACCEPT_GROUP_INVITE_def accept_invite_def
  by (intro pres_intros pres_comm each.pres_announce pres_modifyE) (simp_all add: assms)

lemma pres_RENAME_GROUP:
  assumes "\<And>s gid n. I s \<Longrightarrow> I (update_group gid (\<lambda>g. g\<lparr>g_name := n\<rparr>) s)"
  shows "pres I (handle_RENAME_GROUP e fd payload cur)"
  unfolding handle_RENAME_GROUP_def
  by (intro pres_intros pres_comm each.pres_announce pres_modifyE) (simp_all add: assms)

lemma pres_SET_GROUP_NICKNAME:
  assumes "\<And>s gid uid n. I s \<Longrightarrow>
    I (update_group gid (\<lambda>g. g\<lparr>g_member_nicknames := um_put uid n (g_member_nicknames g)\<rparr>) s)"
  shows "pres I (handle_SET_GROUP_NICKNAME e fd payload cur)"
  unfolding handle_SET_GROUP_NICKNAME_def
  by (intro pres_intros pres_comm each.pres_announce pres_modifyE) (simp_all add: assms)

lemma pres_REMOVE_FROM_GROUP:
  assumes "\<And>s gid uid. I s \<Longrightarrow> I (update_group gid (drop_member uid) s)"
  shows "pres I (handle_REMOVE_FROM_GROUP e fd payload cur)"
  unfolding handle_REMOVE_FROM_GROUP_def remove_permitted_def
  by (intro pres_intros pres_comm each.pres_announce pres_modifyE) (simp_all add: assms)

lemma pres_MAKE_ADMIN:
  assumes "\<And>s gid uid. I s \<Longrightarrow> I (update_group gid (promote uid) s)"
  shows "pres I (handle_MAKE_ADMIN e fd payload cur)"
  unfolding handle_MAKE_ADMIN_def admin_permitted_def
  by (intro pres_intros pres_comm each.pres_announce pres_modifyE) (simp_all add: assms)

lemma pres_LEAVE_GROUP:
  assumes "\<And>s gid. I s \<Longrightarrow> I (snd (leave_memory gid (int_of_u32 cur) s))"
  shows "pres I (handle_LEAVE_GROUP e fd payload cur)"
proof -
  have "pres I (leave_memory gid (int_of_u32 cur))" for gid
    by (rule presI) (rule assms)
  then show ?thesis
    unfolding handle_LEAVE_GROUP_def by (intro pres_intros pres_comm)
qed

end

end
