(* ===== verification/Chat_Network.thy ===== *)
theory Chat_Network
  imports Chat_Protocol
begin

text \<open>
  \<^verbatim>\<open>server-cpp/src/network_utils.cpp\<close>: \<open>recv_all\<close>, \<open>send_all\<close> and \<open>send_message\<close>, and the part of
  \<open>handle_client\<close> that reads one frame. The system calls \<^verbatim>\<open>recv\<close> and \<^verbatim>\<open>send\<close> are parameters. The
  contract of \<^verbatim>\<open>recv\<close> on a TCP socket is the locale \<open>tcp_stream\<close>; the receive queue of a socket, a
  list of segments of any sizes, implements it.
\<close>

subsection \<open>Bytes and characters\<close>

definition byte_of_char :: "char \<Rightarrow> byte" where
  "byte_of_char c = word_of_nat (of_char c)"

definition char_of_byte :: "byte \<Rightarrow> char" where
  "char_of_byte b = char_of (unat b)"

definition bytes_of :: "string \<Rightarrow> byte list" where
  "bytes_of s = map byte_of_char s"

definition string_of :: "byte list \<Rightarrow> string" where
  "string_of bs = map char_of_byte bs"

lemma char_of_byte_of_char [simp]: "char_of_byte (byte_of_char c) = c"
proof -
  have "unat (word_of_nat (of_char c) :: byte) = of_char c"
    by (simp add: unat_of_nat)
  then show ?thesis by (simp add: char_of_byte_def byte_of_char_def)
qed

lemma byte_of_char_of_byte [simp]: "byte_of_char (char_of_byte b) = b"
proof -
  have "unat b < 256" using unsigned_less [of b, where ?'a = nat] by simp
  then show ?thesis by (simp add: char_of_byte_def byte_of_char_def)
qed

lemma string_of_bytes_of [simp]: "string_of (bytes_of s) = s"
  by (simp add: string_of_def bytes_of_def comp_def)

lemma bytes_of_string_of [simp]: "bytes_of (string_of bs) = bs"
  by (simp add: string_of_def bytes_of_def comp_def)

lemma length_bytes_of [simp]: "length (bytes_of s) = length s"
  by (simp add: bytes_of_def)

lemma bytes_of_Nil [simp]: "bytes_of [] = []"
  by (simp add: bytes_of_def)

lemma bytes_of_eq_Nil [simp]: "bytes_of s = [] \<longleftrightarrow> s = []"
  by (simp add: bytes_of_def)

subsection \<open>recv\_all\<close>

datatype recv_ret = R_data "byte list" | R_zero | R_err

datatype recv_all_ret = Got "byte list" | Stopped int

text \<open>
  \<open>recv_all rcv k n acc\<close>: the loop of \<^verbatim>\<open>recv_all\<close> with \<open>acc\<close> already in the buffer and \<open>n\<close> bytes
  to go. A result of \<^verbatim>\<open>r <= 0\<close> is returned at once.
\<close>

function recv_all ::
  "('k \<Rightarrow> nat \<Rightarrow> recv_ret \<times> 'k) \<Rightarrow> 'k \<Rightarrow> nat \<Rightarrow> byte list \<Rightarrow> recv_all_ret \<times> 'k" where
  "recv_all rcv k n acc =
     (if n = 0 then (Got acc, k)
      else case rcv k n of
          (R_data bs, k') \<Rightarrow>
            if bs = [] then (Stopped 0, k') else recv_all rcv k' (n - length bs) (acc @ bs)
        | (R_zero, k') \<Rightarrow> (Stopped 0, k')
        | (R_err, k') \<Rightarrow> (Stopped (- 1), k'))"
  by pat_completeness auto
termination
  by (relation "measure (\<lambda>(rcv, k, n, acc). n)") (auto simp: neq_Nil_conv)

declare recv_all.simps [simp del]

text \<open>
  What \<^verbatim>\<open>recv(2)\<close> promises on a stream socket: it returns a non-empty prefix of what is still to
  arrive, of at most the requested size, and stops only at the end of the stream.
\<close>

locale tcp_stream =
  fixes rcv :: "'k \<Rightarrow> nat \<Rightarrow> recv_ret \<times> 'k"
    and rem :: "'k \<Rightarrow> byte list"
  assumes rcv_data: "0 < n \<Longrightarrow> rem k \<noteq> [] \<Longrightarrow>
      \<exists>bs k'. rcv k n = (R_data bs, k') \<and> bs \<noteq> [] \<and> length bs \<le> n \<and> rem k = bs @ rem k'"
    and rcv_end: "0 < n \<Longrightarrow> rem k = [] \<Longrightarrow>
      (\<exists>k'. rcv k n = (R_zero, k') \<and> rem k' = []) \<or> (\<exists>k'. rcv k n = (R_err, k') \<and> rem k' = [])"
begin

lemma recv_all_Got:
  assumes "n \<le> length (rem k)"
  shows "\<exists>k'. recv_all rcv k n acc = (Got (acc @ take n (rem k)), k') \<and> rem k' = drop n (rem k)"
  using assms
proof (induction n arbitrary: k acc rule: less_induct)
  case (less n)
  show ?case
  proof (cases "n = 0")
    case True
    then show ?thesis by (simp add: recv_all.simps [of rcv k])
  next
    case False
    with less.prems have "rem k \<noteq> []" by auto
    with False obtain bs k1 where r: "rcv k n = (R_data bs, k1)" "bs \<noteq> []" "length bs \<le> n"
      and rem: "rem k = bs @ rem k1"
      using rcv_data [of n k] by blast
    have "n - length bs < n" using False r(2) by (cases bs) auto
    moreover have "n - length bs \<le> length (rem k1)" using less.prems rem by simp
    ultimately obtain k' where
      "recv_all rcv k1 (n - length bs) (acc @ bs) = (Got ((acc @ bs) @ take (n - length bs) (rem k1)), k')"
      "rem k' = drop (n - length bs) (rem k1)"
      using less.IH by blast
    with False r rem show ?thesis by (simp add: recv_all.simps [of rcv k])
  qed
qed

lemma recv_all_Stopped:
  assumes "length (rem k) < n"
  shows "\<exists>r k'. recv_all rcv k n acc = (Stopped r, k') \<and> r \<le> 0 \<and> rem k' = []"
  using assms
proof (induction n arbitrary: k acc rule: less_induct)
  case (less n)
  show ?case
  proof (cases "rem k = []")
    case True
    with less.prems rcv_end [of n k] show ?thesis
      by (auto simp: recv_all.simps [of rcv k])
  next
    case False
    with less.prems obtain bs k1 where r: "rcv k n = (R_data bs, k1)" "bs \<noteq> []" "length bs \<le> n"
      and rem: "rem k = bs @ rem k1"
      using rcv_data [of n k] by (metis gr_implies_not0 neq0_conv)
    have "n - length bs < n" using less.prems r(2) by (cases bs) auto
    moreover have "length (rem k1) < n - length bs" using less.prems rem by simp
    ultimately have
      "\<exists>r k'. recv_all rcv k1 (n - length bs) (acc @ bs) = (Stopped r, k') \<and> r \<le> 0 \<and> rem k' = []"
      by (rule less.IH)
    with less.prems r show ?thesis by (auto simp: recv_all.simps [of rcv k])
  qed
qed

end

subsection \<open>The receive queue of a socket\<close>

text \<open>
  The segments that have arrived and not been read yet, and whether the connection ends in an
  error. Any behaviour of \<^verbatim>\<open>recv\<close> on a byte stream is the behaviour of some list of segments.
\<close>

record sock =
  segs :: "byte list list"
  broken :: bool

fun recv_segs :: "byte list list \<Rightarrow> nat \<Rightarrow> (byte list \<times> byte list list) option" where
  "recv_segs [] n = None"
| "recv_segs ([] # ss) n = recv_segs ss n"
| "recv_segs ((b # bs) # ss) n = Some (take n (b # bs), drop n (b # bs) # ss)"

definition sock_recv :: "sock \<Rightarrow> nat \<Rightarrow> recv_ret \<times> sock" where
  "sock_recv k n =
     (case recv_segs (segs k) n of
        Some (bs, ss) \<Rightarrow> (R_data bs, k\<lparr>segs := ss\<rparr>)
      | None \<Rightarrow> (if broken k then R_err else R_zero, k))"

definition stream :: "sock \<Rightarrow> byte list" where
  "stream k = concat (segs k)"

lemma recv_segs_Some:
  "concat ss \<noteq> [] \<Longrightarrow> 0 < n \<Longrightarrow>
   \<exists>bs ss'. recv_segs ss n = Some (bs, ss') \<and> bs \<noteq> [] \<and> length bs \<le> n \<and> concat ss = bs @ concat ss'"
  by (induction ss n rule: recv_segs.induct) auto

lemma recv_segs_None: "concat ss = [] \<Longrightarrow> recv_segs ss n = None"
  by (induction ss n rule: recv_segs.induct) auto

interpretation sk: tcp_stream sock_recv stream
proof
  fix n :: nat and k
  assume "0 < n" and "stream k \<noteq> []"
  then obtain bs ss where "recv_segs (segs k) n = Some (bs, ss)" "bs \<noteq> []" "length bs \<le> n"
    "concat (segs k) = bs @ concat ss"
    using recv_segs_Some [of "segs k" n] by (auto simp: stream_def)
  then show "\<exists>bs k'. sock_recv k n = (R_data bs, k') \<and> bs \<noteq> [] \<and> length bs \<le> n \<and> stream k = bs @ stream k'"
    by (auto simp: sock_recv_def stream_def)
next
  fix n :: nat and k
  assume "stream k = []"
  then have "recv_segs (segs k) n = None"
    by (simp add: stream_def recv_segs_None)
  with \<open>stream k = []\<close>
  show "(\<exists>k'. sock_recv k n = (R_zero, k') \<and> stream k' = []) \<or>
        (\<exists>k'. sock_recv k n = (R_err, k') \<and> stream k' = [])"
    by (simp add: sock_recv_def)
qed

subsection \<open>send\_all and send\_message\<close>

text \<open>
  \<open>send_all script bs\<close>: the return values of the successive \<^verbatim>\<open>send\<close> calls are \<open>script\<close>; a call
  that never returns is the end of the script, and the result is then \<open>None\<close>. The second
  component is what the kernel accepted.
\<close>

fun send_all :: "int list \<Rightarrow> byte list \<Rightarrow> byte list \<Rightarrow> (bool \<times> byte list \<times> int list) option" where
  "send_all script [] out = Some (True, out, script)"
| "send_all [] (b # bs) out = None"
| "send_all (r # script) (b # bs) out =
     (if r \<le> 0 then Some (False, out, script)
      else send_all script (drop (nat r) (b # bs)) (out @ take (nat r) (b # bs)))"

definition frame :: "u64 \<Rightarrow> u8 \<Rightarrow> string \<Rightarrow> u32 \<Rightarrow> byte list" where
  "frame ts ty payload userId =
     write_header ts ty (word_of_nat (length payload)) userId @ bytes_of payload"

definition send_message ::
  "u64 \<Rightarrow> int list \<Rightarrow> u8 \<Rightarrow> string \<Rightarrow> u32 \<Rightarrow> (bool \<times> byte list \<times> int list) option" where
  "send_message ts script ty payload userId =
     (case send_all script (write_header ts ty (word_of_nat (length payload)) userId) [] of
        None \<Rightarrow> None
      | Some (ok, out, script') \<Rightarrow>
          if \<not> ok then Some (False, out, script')
          else if payload = [] then Some (True, out, script')
          else send_all script' (bytes_of payload) out)"

lemma send_all_True: "send_all script bs out = Some (True, sent, rest) \<Longrightarrow> sent = out @ bs"
  by (induction script bs out rule: send_all.induct) (auto split: if_splits)

lemma send_all_prefix:
  "send_all script bs out = Some (ok, sent, rest) \<Longrightarrow> \<exists>p q. bs = p @ q \<and> sent = out @ p"
proof (induction script bs out rule: send_all.induct)
  case (3 r script b bs out)
  then show ?case
    by (auto split: if_splits) (metis append_take_drop_id append.assoc append_Nil)+
qed auto

text \<open>A call that reports success has handed over exactly the frame, however \<^verbatim>\<open>send\<close> splits it.\<close>

lemma send_message_frame:
  "send_message ts script ty payload userId = Some (True, sent, rest) \<Longrightarrow>
   sent = frame ts ty payload userId"
  by (auto simp: send_message_def frame_def split: option.splits if_splits dest!: send_all_True)

subsection \<open>Reading one frame\<close>

datatype frame_result = F_closed | F_invalid header | F_msg header string

definition read_frame :: "sock \<Rightarrow> frame_result \<times> sock" where
  "read_frame k =
     (case recv_all sock_recv k HEADER_SIZE [] of
        (Stopped r, k') \<Rightarrow> (F_closed, k')
      | (Got header_buf, k') \<Rightarrow>
          let h = parse_header header_buf in
          if \<not> valid_header h then (F_invalid h, k')
          else if h_length h = 0 then (F_msg h [], k')
          else case recv_all sock_recv k' (unat (h_length h)) [] of
              (Stopped r, k'') \<Rightarrow> (F_closed, k'')
            | (Got payload, k'') \<Rightarrow> (F_msg h (string_of payload), k''))"

abbreviation sent_header :: "u64 \<Rightarrow> u8 \<Rightarrow> string \<Rightarrow> u32 \<Rightarrow> header" where
  "sent_header ts ty payload userId \<equiv>
     \<lparr>h_magic = MAGIC, h_version = VERSION, h_type = ty, h_length = word_of_nat (length payload),
      h_ts = ts, h_userId = userId, h_checksum = 0\<rparr>"

lemma valid_sent_header [simp]: "valid_header (sent_header ts ty payload userId)"
  by (simp add: valid_header_def)

lemma read_frame_frame:
  assumes st: "stream k = frame ts ty payload userId @ rest" and len: "length payload < 2 ^ 32"
  shows "\<exists>k'. read_frame k = (F_msg (sent_header ts ty payload userId) payload, k') \<and> stream k' = rest"
proof -
  let ?hb = "write_header ts ty (word_of_nat (length payload)) userId"
  have st': "stream k = ?hb @ bytes_of payload @ rest"
    by (simp add: st frame_def)
  obtain k1 where k1: "recv_all sock_recv k HEADER_SIZE [] = (Got ?hb, k1)"
    "stream k1 = bytes_of payload @ rest"
    using sk.recv_all_Got [of HEADER_SIZE k "[]"] by (auto simp: st')
  have u: "unat (word_of_nat (length payload) :: u32) = length payload"
    using len by (simp add: unat_of_nat)
  show ?thesis
  proof (cases "payload = []")
    case True
    with k1 show ?thesis by (simp add: read_frame_def parse_write_header valid_header_def)
  next
    case False
    then have nz: "(word_of_nat (length payload) :: u32) \<noteq> 0"
      using u by (metis length_0_conv unat_0)
    obtain k2 where k2: "recv_all sock_recv k1 (length payload) [] = (Got (bytes_of payload), k2)"
      "stream k2 = rest"
      using sk.recv_all_Got [of "length payload" k1 "[]"] by (auto simp: k1(2))
    with k1 nz u show ?thesis
      by (simp add: read_frame_def parse_write_header)
  qed
qed

text \<open>
  C18: what one side sends with a successful \<open>send_message\<close>, however \<^verbatim>\<open>send\<close> splits it, the receive loop of
  the server reads back as one message with the same type, sender and payload, however the network cuts the
  bytes into segments; and what follows it on the connection is untouched.
\<close>

theorem sent_message_received:
  assumes "send_message ts script ty payload userId = Some (True, sent, script')"
    and "concat (segs k) = sent @ rest" and "length payload < 2 ^ 32"
  shows "\<exists>h k'. read_frame k = (F_msg h payload, k') \<and> concat (segs k') = rest \<and>
    h_type h = ty \<and> h_userId h = userId \<and> h_ts h = ts"
proof -
  have "stream k = frame ts ty payload userId @ rest"
    using assms(2) send_message_frame [OF assms(1)] by (simp add: stream_def)
  from read_frame_frame [OF this assms(3)] show ?thesis by (auto simp: stream_def)
qed

theorem sent_message_received_witness:
  "\<exists>sent script'. send_message 5 [10, 30, 1] (code DIRECT_MESSAGE) ''m'' 3 = Some (True, sent, script') \<and>
    (\<exists>h k'. read_frame \<lparr>segs = [take 3 sent, [], drop 3 sent], broken = False\<rparr> = (F_msg h ''m'', k') \<and>
      concat (segs k') = [] \<and> h_type h = code DIRECT_MESSAGE \<and> h_userId h = 3 \<and> h_ts h = 5)"
proof -
  let ?f = "frame 5 (code DIRECT_MESSAGE) ''m'' 3"
  have sent: "send_message 5 [10, 30, 1] (code DIRECT_MESSAGE) ''m'' 3 = Some (True, ?f, [])"
    by code_simp
  from sent_message_received [OF sent, of "\<lparr>segs = [take 3 ?f, [], drop 3 ?f], broken = False\<rparr>" "[]"]
  have "\<exists>h k'. read_frame \<lparr>segs = [take 3 ?f, [], drop 3 ?f], broken = False\<rparr> = (F_msg h ''m'', k') \<and>
      concat (segs k') = [] \<and> h_type h = code DIRECT_MESSAGE \<and> h_userId h = 3 \<and> h_ts h = 5"
    by (simp del: code.simps)
  with sent show ?thesis by blast
qed

text \<open>Each frame consumes at least a header, so a connection is read to its end.\<close>

lemma read_frame_consumes:
  assumes "read_frame k = (F_msg h p, k')"
  shows "length (stream k') + HEADER_SIZE \<le> length (stream k)"
proof -
  from assms have enough: "HEADER_SIZE \<le> length (stream k)"
    using sk.recv_all_Stopped [of k HEADER_SIZE "[]"]
    by (cases "HEADER_SIZE \<le> length (stream k)") (auto simp: read_frame_def)
  obtain k1 hb where k1: "recv_all sock_recv k HEADER_SIZE [] = (Got hb, k1)"
    "stream k1 = drop HEADER_SIZE (stream k)"
    using sk.recv_all_Got [OF enough, of "[]"] by auto
  have "length (stream k1) + HEADER_SIZE = length (stream k)"
    using enough k1(2) by simp
  moreover have "length (stream k') \<le> length (stream k1)"
  proof (cases "h_length (parse_header hb) = 0")
    case True
    with assms k1 show ?thesis by (auto simp: read_frame_def Let_def split: if_splits)
  next
    case False
    let ?n = "unat (h_length (parse_header hb))"
    show ?thesis
    proof (cases "?n \<le> length (stream k1)")
      case True
      from sk.recv_all_Got [OF True, of "[]"] False assms k1(1) show ?thesis
        by (auto simp: read_frame_def Let_def split: if_splits)
    next
      case short: False
      then have "length (stream k1) < ?n" by simp
      from sk.recv_all_Stopped [OF this, of "[]"] False assms k1(1) show ?thesis
        by (auto simp: read_frame_def Let_def split: if_splits)
    qed
  qed
  ultimately show ?thesis by simp
qed

lemma read_frame_progress: "read_frame k = (F_msg h p, k') \<Longrightarrow> length (stream k') < length (stream k)"
  using read_frame_consumes [of k h p k'] by (simp add: HEADER_SIZE_def)

end
