(* ===== verification/Server_Loop.thy ===== *)
theory Server_Loop
  imports Friend_Handlers Message_Handlers Group_Handlers Chat_Network
begin

text \<open>
  The rest of \<^verbatim>\<open>handle_client\<close> in \<^verbatim>\<open>message_handler.cpp\<close> (the \<^verbatim>\<open>switch\<close>, the receive loop and the
  \<^verbatim>\<open>cleanup\<close> block) and \<^verbatim>\<open>main.cpp\<close> (the connection attempts and the loading of the caches at start),
  and the server as a step relation over its open connections.
\<close>

subsection \<open>The switch\<close>

text \<open>\<^verbatim>\<open>requester_id\<close>: the id in the header when there is one.\<close>

definition requester_id :: "header \<Rightarrow> u32 \<Rightarrow> int" where
  "requester_id h cur = (if h_userId h \<noteq> 0 then int_of_u32 (h_userId h) else int_of_u32 cur)"

text \<open>The result says whether the loop goes on (\<^verbatim>\<open>LOGOUT\<close> jumps to \<^verbatim>\<open>cleanup\<close>) and the value of
  \<^verbatim>\<open>current_user_id\<close>.\<close>

definition stay :: "u32 \<Rightarrow> ('db server, unit) M \<Rightarrow> ('db server, bool \<times> u32) M" where
  "stay cur m = seqE m (retE (True, cur))"

definition switch_user :: "('db server, u32) M \<Rightarrow> ('db server, bool \<times> u32) M" where
  "switch_user m = bindE m (\<lambda>cur. retE (True, cur))"

definition handle_default :: "int \<Rightarrow> u32 \<Rightarrow> ('db server, unit) M" where
  "handle_default fd cur = send fd (code SUCCESS) '''' cur"

definition dispatch :: "'db env \<Rightarrow> int \<Rightarrow> header \<Rightarrow> string \<Rightarrow> u32 \<Rightarrow> ('db server, bool \<times> u32) M" where
  "dispatch e fd h payload cur =
     (case type_of_code (h_type h) of
        Some HEARTBEAT \<Rightarrow> stay cur (handle_HEARTBEAT fd cur)
      | Some REGISTER \<Rightarrow> switch_user (handle_REGISTER e fd payload cur)
      | Some LOGIN \<Rightarrow> switch_user (handle_LOGIN e fd payload cur)
      | Some LOGOUT \<Rightarrow> seqE (handle_LOGOUT e fd cur) (retE (False, cur))
      | Some SEARCH_USER \<Rightarrow> stay cur (handle_SEARCH_USER e fd payload (requester_id h cur))
      | Some GET_ALL_USERS \<Rightarrow> stay cur (handle_GET_ALL_USERS e fd (requester_id h cur))
      | Some GET_FRIENDS_LIST \<Rightarrow> stay cur (handle_GET_FRIENDS_LIST e fd cur)
      | Some FRIEND_REQUEST \<Rightarrow> stay cur (handle_FRIEND_REQUEST e fd payload cur)
      | Some FRIEND_ACCEPT \<Rightarrow> stay cur (handle_FRIEND_ACCEPT e fd payload cur)
      | Some FRIEND_DECLINE \<Rightarrow> stay cur (handle_FRIEND_DECLINE e fd payload cur)
      | Some UNFRIEND \<Rightarrow> stay cur (handle_UNFRIEND fd payload cur)
      | Some DIRECT_MESSAGE \<Rightarrow> stay cur (handle_DIRECT_MESSAGE e fd payload cur)
      | Some GET_CONVERSATION_HISTORY \<Rightarrow> stay cur (handle_GET_CONVERSATION_HISTORY e fd payload cur)
      | Some GET_GROUP_HISTORY \<Rightarrow> stay cur (handle_GET_GROUP_HISTORY e fd payload cur)
      | Some GET_USER_GROUPS \<Rightarrow> stay cur (handle_GET_USER_GROUPS e fd (requester_id h cur) cur)
      | Some DELETE_CONVERSATION \<Rightarrow> stay cur (handle_DELETE_CONVERSATION e fd payload cur)
      | Some CREATE_GROUP \<Rightarrow> stay cur (handle_CREATE_GROUP e fd payload cur)
      | Some INVITE_TO_GROUP \<Rightarrow> stay cur (handle_INVITE_TO_GROUP e fd payload cur)
      | Some ACCEPT_GROUP_INVITE \<Rightarrow> stay cur (handle_ACCEPT_GROUP_INVITE e fd payload cur)
      | Some DECLINE_GROUP_INVITE \<Rightarrow> stay cur (handle_DECLINE_GROUP_INVITE e fd payload cur)
      | Some RENAME_GROUP \<Rightarrow> stay cur (handle_RENAME_GROUP e fd payload cur)
      | Some SET_GROUP_NICKNAME \<Rightarrow> stay cur (handle_SET_GROUP_NICKNAME e fd payload cur)
      | Some REMOVE_FROM_GROUP \<Rightarrow> stay cur (handle_REMOVE_FROM_GROUP e fd payload cur)
      | Some MAKE_ADMIN \<Rightarrow> stay cur (handle_MAKE_ADMIN e fd payload cur)
      | Some LEAVE_GROUP \<Rightarrow> stay cur (handle_LEAVE_GROUP e fd payload cur)
      | Some GROUP_MESSAGE \<Rightarrow> stay cur (handle_GROUP_MESSAGE e fd payload cur)
      | _ \<Rightarrow> stay cur (handle_default fd cur))"

lemma pres_stay: "pres I m \<Longrightarrow> pres I (stay cur m)"
  unfolding stay_def by (intro pres_intros)

lemma pres_switch_user: "pres I m \<Longrightarrow> pres I (switch_user m)"
  unfolding switch_user_def by (intro pres_intros)

lemma pres_logout: "pres I m \<Longrightarrow> pres I (seqE m (retE x))"
  by (intro pres_intros)

subsection \<open>The receive loop and the cleanup block\<close>

definition cleanup :: "'db env \<Rightarrow> u32 \<Rightarrow> ('db server, unit) M" where
  "cleanup e cur =
     whenE (cur \<noteq> 0)
       (seqE (modifyE (\<lambda>s. s\<lparr>g_online_clients := um_erase (int_of_u32 cur) (g_online_clients s)\<rparr>))
         (notify_friends_status_change e (int_of_u32 cur) False))"

text \<open>
  The loop on one connection, with the environment of the \<open>n\<close>-th request given by \<open>es n\<close> (the
  clock moves between requests). It ends because every frame takes bytes from the stream.
\<close>

function serve :: "(nat \<Rightarrow> 'db env) \<Rightarrow> nat \<Rightarrow> int \<Rightarrow> sock \<Rightarrow> u32 \<Rightarrow> ('db server, nat \<times> u32) M" where
  "serve es n fd k cur s =
     (case read_frame k of
        (F_closed, k') \<Rightarrow> (Inr (n, cur), s)
      | (F_invalid h, k') \<Rightarrow> seqE (send fd (code ERROR) ''Invalid header'' 0) (retE (n, cur)) s
      | (F_msg h payload, k') \<Rightarrow>
          (case dispatch (es n) fd h payload cur s of
             (Inl ex, s') \<Rightarrow> (Inl ex, s')
           | (Inr (go, cur'), s') \<Rightarrow> if go then serve es (Suc n) fd k' cur' s' else (Inr (Suc n, cur'), s')))"
  by pat_completeness auto
termination
  by (relation "measure (\<lambda>(es, n, fd, k, cur, s). length (stream k))") (auto dest!: read_frame_progress [OF sym])

declare serve.simps [simp del]

definition handle_client :: "(nat \<Rightarrow> 'db env) \<Rightarrow> int \<Rightarrow> sock \<Rightarrow> ('db server, unit) M" where
  "handle_client es fd k = bindE (serve es 0 fd k 0) (\<lambda>(n, cur). cleanup (es n) cur)"

subsection \<open>main: connecting and loading\<close>

text \<open>The connection attempts: at most \<open>n\<close> of them, until one succeeds.\<close>

fun connect_attempts :: "'db pg_lib \<Rightarrow> nat \<Rightarrow> ('db pg, bool) M" where
  "connect_attempts lib 0 = retE False"
| "connect_attempts lib (Suc n) =
     bindE (pg_initialize lib) (\<lambda>ok. if ok then retE True else connect_attempts lib n)"

text \<open>\<^verbatim>\<open>std::max(1, std::stoi(env))\<close> for \<^verbatim>\<open>DB_CONNECT_RETRIES\<close> and
  \<^verbatim>\<open>DB_CONNECT_RETRY_DELAY_SECONDS\<close>, with a default for an unset variable.\<close>

definition env_at_least_1 :: "int \<Rightarrow> string option \<Rightarrow> int res" where
  "env_at_least_1 d v = (case v of None \<Rightarrow> Inr d | Some t \<Rightarrow> bindS (stoi t) (\<lambda>i. Inr (max 1 i)))"

text \<open>\<^verbatim>\<open>PORT\<close>, cut to 16 bits by \<^verbatim>\<open>htons\<close>.\<close>

definition server_port :: "string option \<Rightarrow> 16 word res" where
  "server_port v = (case v of None \<Rightarrow> Inr 8080 | Some t \<Rightarrow> bindS (stoi t) (\<lambda>i. Inr (word_of_int i)))"

definition cache_user :: "user \<Rightarrow> 'db server \<Rightarrow> 'db server" where
  "cache_user u s =
     (let su = u\<lparr>u_socket_fd := - 1, u_is_online := False, u_last_seen := 0\<rparr> in
      s\<lparr>g_users_by_id := um_put (u_id u) su (g_users_by_id s),
        g_users_by_name := um_put (u_username u) su (g_users_by_name s)\<rparr>)"

text \<open>The friends of one user, as the database lists them: one direction at a time.\<close>

definition cache_friends :: "int \<Rightarrow> user list \<Rightarrow> 'db server \<Rightarrow> 'db server" where
  "cache_friends uid fs = fold (\<lambda>f. set_friend uid (u_id f)) fs"

fun load_cached_users :: "'db pg_lib \<Rightarrow> user list \<Rightarrow> int \<Rightarrow> ('db pg \<times> 'db server, int) M" where
  "load_cached_users lib [] max_id = retE max_id"
| "load_cached_users lib (u # us) max_id = (\<lambda>(p, s).
     let s' = cache_user u s in
     case pg_get_friends lib (u_id u) p of
       (Inl ex, p') \<Rightarrow> (Inl ex, (p', s'))
     | (Inr fs, p') \<Rightarrow>
         load_cached_users lib us (if max_id < u_id u then u_id u else max_id)
           (p', cache_friends (u_id u) fs s'))"

fun load_admins :: "'db pg_lib \<Rightarrow> int \<Rightarrow> user list \<Rightarrow> group \<Rightarrow> ('db pg, group) M" where
  "load_admins lib gid [] g = retE g"
| "load_admins lib gid (m # ms) g =
     bindE (pg_is_group_admin lib gid (u_id m)) (\<lambda>adm.
       load_admins lib gid ms
         (g\<lparr>g_members := um_put (u_id m) True (g_members g), g_admins := um_put (u_id m) adm (g_admins g)\<rparr>))"

definition load_group :: "'db pg_lib \<Rightarrow> group \<Rightarrow> ('db server, unit) M" where
  "load_group lib g =
     bindE (getsE (\<lambda>s. um_count (g_groups s) (g_id g))) (\<lambda>known.
       if known then retE ()
       else bindE (pg_call (pg_get_group_members lib (g_id g))) (\<lambda>members.
         bindE (pg_call (load_admins lib (g_id g) members
             \<lparr>g_id = g_id g, g_name = g_name g, g_ownerId = g_ownerId g, g_members = [], g_admins = [],
              g_member_nicknames = []\<rparr>)) (\<lambda>dg.
           modifyE (\<lambda>s. s\<lparr>g_groups := um_put (g_id g) dg (g_groups s),
             g_next_group_id := (if g_next_group_id s \<le> g_id g then wrap_int32 (g_id g + 1)
                                 else g_next_group_id s)\<rparr>))))"

definition load_groups :: "'db pg_lib \<Rightarrow> user list \<Rightarrow> ('db server, unit) M" where
  "load_groups lib us =
     forE us (\<lambda>u. bindE (pg_call (pg_get_user_groups lib (u_id u))) (\<lambda>gs. forE gs (load_group lib)))"

definition load_database :: "'db pg_lib \<Rightarrow> 'db pg \<Rightarrow> ('db server, unit) M" where
  "load_database lib p = (\<lambda>s.
     case pg_get_all_users lib p of
       (Inl ex, p') \<Rightarrow> (Inl ex, s)
     | (Inr us, p') \<Rightarrow>
         (case load_cached_users lib us 0 (p', s) of
            (Inl ex, (p'', s')) \<Rightarrow> (Inl ex, s')
          | (Inr max_id, (p'', s')) \<Rightarrow>
              load_groups lib us (s'\<lparr>g_next_user_id := wrap_int32 (max_id + 1), g_pg_persistence := Some p''\<rparr>)))"

definition load_file :: "('db server, unit) M" where
  "load_file = bindE (load_users 1) (\<lambda>next_id. modifyE (\<lambda>s. s\<lparr>g_next_user_id := next_id\<rparr>))"

text \<open>
  What \<^verbatim>\<open>main\<close> does before it opens its socket: \<open>p\<close> is the fresh \<^verbatim>\<open>PostgresPersistence\<close> object (not
  connected yet); \<open>retries\<close> and \<open>delay\<close> are the environment variables. The delay only sleeps, but a
  malformed one stops the program.
\<close>

definition load_caches ::
  "'db pg_lib \<Rightarrow> string option \<Rightarrow> string option \<Rightarrow> 'db pg \<Rightarrow> ('db server, unit) M" where
  "load_caches lib retries delay p =
     bindE (liftE (env_at_least_1 10 retries)) (\<lambda>n.
     bindE (liftE (env_at_least_1 2 delay)) (\<lambda>_ s.
       case connect_attempts lib (nat n) p of
         (Inl ex, p') \<Rightarrow> (Inl ex, s)
       | (Inr ok, p') \<Rightarrow> if ok then load_database lib p' s else load_file s))"

text \<open>The start up to the port, which is read once the socket is there.\<close>

definition startup ::
  "'db pg_lib \<Rightarrow> string option \<Rightarrow> string option \<Rightarrow> string option \<Rightarrow> 'db pg \<Rightarrow> ('db server, 16 word) M" where
  "startup lib retries delay port p = seqE (load_caches lib retries delay p) (liftE (server_port port))"

text \<open>
  The rest of \<^verbatim>\<open>main\<close> up to the loop that accepts: \<open>fd\<close> is the result of \<^verbatim>\<open>socket\<close>, \<open>bind_ok\<close> and \<open>listen_ok\<close>
  whether \<^verbatim>\<open>bind\<close> and \<^verbatim>\<open>listen\<close> succeed. The process exits with a code or listens on a descriptor and a port.
\<close>

datatype main_result = Exit int | Listening int "16 word"

definition open_server ::
  "'db pg_lib \<Rightarrow> string option \<Rightarrow> string option \<Rightarrow> string option \<Rightarrow> 'db pg \<Rightarrow> int \<Rightarrow> bool \<Rightarrow> bool \<Rightarrow>
     ('db server, main_result) M" where
  "open_server lib retries delay port p fd bind_ok listen_ok =
     seqE (load_caches lib retries delay p)
       (if fd < 0 then retE (Exit 1)
        else bindE (liftE (server_port port)) (\<lambda>w.
          if \<not> bind_ok then retE (Exit 1)
          else if \<not> listen_ok then retE (Exit 1)
          else retE (Listening fd w)))"

subsection \<open>The server and its connections\<close>

text \<open>
  A configuration holds the global state, the open connections (their unread input and their
  \<^verbatim>\<open>current_user_id\<close>) and whether the process is still running. A step accepts a connection, lets
  more bytes arrive, or runs one request of one connection; requests of different connections
  interleave in any order. An exception that leaves a handler ends the process.
\<close>

record 'db config =
  c_server :: "'db server"
  c_conns :: "int \<rightharpoonup> (sock \<times> u32)"
  c_running :: bool

inductive step :: "'db config \<Rightarrow> 'db config \<Rightarrow> bool" where
  accept: "c_running c \<Longrightarrow> 0 \<le> fd \<Longrightarrow> c_conns c fd = None \<Longrightarrow>
    step c (c\<lparr>c_conns := (c_conns c)(fd \<mapsto> (k, 0))\<rparr>)"
| arrive: "c_running c \<Longrightarrow> c_conns c fd = Some (k, cur) \<Longrightarrow>
    step c (c\<lparr>c_conns := (c_conns c)(fd \<mapsto> (k\<lparr>segs := segs k @ [bs]\<rparr>, cur))\<rparr>)"
| request: "c_running c \<Longrightarrow> c_conns c fd = Some (k, cur) \<Longrightarrow> env_ok e \<Longrightarrow>
    read_frame k = (F_msg h payload, k') \<Longrightarrow>
    dispatch e fd h payload cur (c_server c) = (Inr (True, cur'), s') \<Longrightarrow>
    step c (c\<lparr>c_server := s', c_conns := (c_conns c)(fd \<mapsto> (k', cur'))\<rparr>)"
| logout: "c_running c \<Longrightarrow> c_conns c fd = Some (k, cur) \<Longrightarrow> env_ok e \<Longrightarrow>
    read_frame k = (F_msg h payload, k') \<Longrightarrow>
    seqE (dispatch e fd h payload cur) (cleanup e cur) (c_server c) = (Inr (), s') \<Longrightarrow>
    fst (dispatch e fd h payload cur (c_server c)) = Inr (False, cur) \<Longrightarrow>
    step c (c\<lparr>c_server := s', c_conns := (c_conns c)(fd := None)\<rparr>)"
| close: "c_running c \<Longrightarrow> c_conns c fd = Some (k, cur) \<Longrightarrow> env_ok e \<Longrightarrow>
    read_frame k = (F_closed, k') \<Longrightarrow> cleanup e cur (c_server c) = (Inr (), s') \<Longrightarrow>
    step c (c\<lparr>c_server := s', c_conns := (c_conns c)(fd := None)\<rparr>)"
| invalid: "c_running c \<Longrightarrow> c_conns c fd = Some (k, cur) \<Longrightarrow> env_ok e \<Longrightarrow>
    read_frame k = (F_invalid h, k') \<Longrightarrow>
    seqE (send fd (code ERROR) ''Invalid header'' 0) (cleanup e cur) (c_server c) = (Inr (), s') \<Longrightarrow>
    step c (c\<lparr>c_server := s', c_conns := (c_conns c)(fd := None)\<rparr>)"
| crash: "c_running c \<Longrightarrow> c_conns c fd = Some (k, cur) \<Longrightarrow> env_ok e \<Longrightarrow>
    read_frame k = (F_msg h payload, k') \<Longrightarrow>
    dispatch e fd h payload cur (c_server c) = (Inl ex, s') \<Longrightarrow>
    step c (c\<lparr>c_server := s', c_conns := Map.empty, c_running := False\<rparr>)"

inductive_cases stepE: "step c c'"

text \<open>
  The loop of \<^verbatim>\<open>main\<close> that accepts: each result of \<^verbatim>\<open>accept\<close> with what the connection has sent so far. A failed
  one is skipped; the thread of a new connection runs the receive loop without a user.
\<close>

fun accept_loop :: "(int \<times> sock) list \<Rightarrow> 'db config \<Rightarrow> 'db config" where
  "accept_loop [] c = c"
| "accept_loop ((cfd, k) # rs) c =
     (if cfd < 0 then accept_loop rs c
      else accept_loop rs (c\<lparr>c_conns := (c_conns c)(cfd \<mapsto> (k, 0))\<rparr>))"

definition started :: "'db server \<Rightarrow> 'db config" where
  "started s = \<lparr>c_server = s, c_conns = Map.empty, c_running = True\<rparr>"

inductive reachable :: "'db server \<Rightarrow> 'db config \<Rightarrow> bool" for s0 where
  reach_init: "reachable s0 (started s0)"
| reach_step: "reachable s0 c \<Longrightarrow> step c c' \<Longrightarrow> reachable s0 c'"

subsection \<open>Invariants of the server\<close>

text \<open>
  The contract of an invariant, in layers. A \<open>table_inv\<close> survives the communication steps and the updates of the
  users, friends, requests and online tables; an \<open>account_inv\<close> also survives that a login takes a queue. They may
  depend on the groups, and then a request keeps them if the group handler it runs does; a \<open>memory_inv\<close> does not
  depend on the groups. A \<open>server_inv\<close> is both, so every request keeps it, and it holds in all reachable configurations.
\<close>

locale table_inv = quiet_inv I for I :: "'db server \<Rightarrow> bool" +
  assumes I_file: "I s \<Longrightarrow> I (s\<lparr>users_file := f\<rparr>)"
    and I_next_user: "I s \<Longrightarrow> I (s\<lparr>g_next_user_id := n\<rparr>)"
    and I_register: "I s \<Longrightarrow> I (store_registered u fd s)"
    and I_online: "I s \<Longrightarrow> I (s\<lparr>g_online_clients := um_put k fd (g_online_clients s)\<rparr>)"
    and I_offline: "I s \<Longrightarrow> I (s\<lparr>g_online_clients := um_erase k (g_online_clients s)\<rparr>)"
    and I_requests: "I s \<Longrightarrow> I (s\<lparr>g_friend_requests :=
      um_put k (fold push_back_new xs (um_at [] (g_friend_requests s) k)) (g_friend_requests s)\<rparr>)"
    and I_accept: "I s \<Longrightarrow> I (accept_memory a b s)"
    and I_drop: "I s \<Longrightarrow> I (drop_request a b s)"
    and I_unfriend: "I s \<Longrightarrow> I (unfriend_memory a b s)"
begin

lemma I_request: "I s \<Longrightarrow> I (s\<lparr>g_friend_requests :=
    um_put k (push_back_new x (um_at [] (g_friend_requests s) k)) (g_friend_requests s)\<rparr>)"
  using I_requests [of s k "[x]"] by simp

lemmas pres_table_handlers =
  pres_HEARTBEAT pres_REGISTER [OF I_file I_next_user I_register]
  pres_LOGOUT [OF I_offline] pres_SEARCH_USER pres_GET_ALL_USERS pres_GET_FRIENDS_LIST [OF I_requests]
  pres_FRIEND_REQUEST [OF I_request] pres_FRIEND_ACCEPT [OF I_accept] pres_FRIEND_DECLINE [OF I_drop]
  pres_UNFRIEND [OF I_unfriend] pres_DIRECT_MESSAGE pres_GET_CONVERSATION_HISTORY pres_GET_GROUP_HISTORY
  pres_GET_USER_GROUPS pres_DELETE_CONVERSATION pres_DECLINE_GROUP_INVITE pres_GROUP_MESSAGE

lemma pres_default: "pres I (handle_default fd cur)"
  unfolding handle_default_def by (rule pres_send)

lemma pres_dispatch_tables:
  assumes "h_type h = code LOGIN \<Longrightarrow> pres I (handle_LOGIN e fd payload cur)"
    and "h_type h = code CREATE_GROUP \<Longrightarrow> pres I (handle_CREATE_GROUP e fd payload cur)"
    and "h_type h = code INVITE_TO_GROUP \<Longrightarrow> pres I (handle_INVITE_TO_GROUP e fd payload cur)"
    and "h_type h = code ACCEPT_GROUP_INVITE \<Longrightarrow> pres I (handle_ACCEPT_GROUP_INVITE e fd payload cur)"
    and "h_type h = code RENAME_GROUP \<Longrightarrow> pres I (handle_RENAME_GROUP e fd payload cur)"
    and "h_type h = code SET_GROUP_NICKNAME \<Longrightarrow> pres I (handle_SET_GROUP_NICKNAME e fd payload cur)"
    and "h_type h = code REMOVE_FROM_GROUP \<Longrightarrow> pres I (handle_REMOVE_FROM_GROUP e fd payload cur)"
    and "h_type h = code MAKE_ADMIN \<Longrightarrow> pres I (handle_MAKE_ADMIN e fd payload cur)"
    and "h_type h = code LEAVE_GROUP \<Longrightarrow> pres I (handle_LEAVE_GROUP e fd payload cur)"
  shows "pres I (dispatch e fd h payload cur)"
proof -
  note rules = pres_stay pres_switch_user pres_logout pres_table_handlers pres_default
  show ?thesis
  proof (cases "type_of_code (h_type h)")
    case None
    then show ?thesis by (simp add: dispatch_def rules)
  next
    case (Some t)
    then have "h_type h = code t" by (simp add: type_of_code_Some)
    with assms Some show ?thesis by (cases t) (simp_all add: dispatch_def rules)
  qed
qed

lemma pres_cleanup: "pres I (cleanup e cur)"
  unfolding cleanup_def by (intro pres_intros pres_modifyE pres_notify I_offline)

end

text \<open>Only a login takes a queue.\<close>

locale account_inv = table_inv I for I :: "'db server \<Rightarrow> bool" +
  assumes I_take: "I s \<Longrightarrow> I (s\<lparr>g_offline_messages := um_erase k (g_offline_messages s)\<rparr>)"
begin

lemmas pres_account_handlers = pres_table_handlers pres_LOGIN [OF I_request I_online I_take]
lemmas pres_dispatch_groups = pres_dispatch_tables [OF pres_LOGIN [OF I_request I_online I_take]]

end

locale memory_inv = table_inv I for I :: "'db server \<Rightarrow> bool" +
  assumes I_group: "I s \<Longrightarrow> I (s\<lparr>g_next_group_id := n, g_groups := gs\<rparr>)"
begin

lemma I_groups: "I s \<Longrightarrow> I (s\<lparr>g_groups := gs\<rparr>)"
proof -
  assume "I s"
  from I_group [OF this, where n = "g_next_group_id s" and gs = gs] show ?thesis by simp
qed

lemma I_update_group: "I s \<Longrightarrow> I (update_group gid f s)"
  by (auto simp: update_group_def intro: I_groups split: option.split)

lemma I_leave: "I s \<Longrightarrow> I (snd (leave_memory gid uid s))"
  by (auto simp: leave_memory_def Let_def intro: I_groups split: option.split)

end

sublocale memory_inv \<subseteq> comm_inv I
  by unfold_locales (rule I_groups)

context memory_inv
begin

lemma pres_dispatch_login:
  assumes "h_type h = code LOGIN \<Longrightarrow> pres I (handle_LOGIN e fd payload cur)"
  shows "pres I (dispatch e fd h payload cur)"
  by (rule pres_dispatch_tables [OF assms], assumption)
     (intro pres_CREATE_GROUP pres_INVITE_TO_GROUP pres_ACCEPT_GROUP_INVITE pres_RENAME_GROUP
        pres_SET_GROUP_NICKNAME pres_REMOVE_FROM_GROUP pres_MAKE_ADMIN pres_LEAVE_GROUP;
      auto simp: store_group_def intro: I_group I_groups I_update_group I_leave)+

end

locale server_inv = account_inv I + memory_inv I for I :: "'db server \<Rightarrow> bool"
begin

lemma pres_dispatch: "pres I (dispatch e fd h payload cur)"
  by (rule pres_dispatch_login) (rule pres_LOGIN [OF I_request I_online I_take])

lemma step_inv:
  assumes "step c c'" and "I (c_server c)"
  shows "I (c_server c')"
  using assms
proof (cases rule: step.cases)
  case (request fd k cur e h payload k' cur' s')
  then show ?thesis using presD [OF pres_dispatch assms(2), of e fd h payload cur] by simp
next
  case (logout fd k cur e h payload k' s')
  then show ?thesis
    using presD [OF pres_seqE [OF pres_dispatch pres_cleanup] assms(2), of e fd h payload cur e cur] by simp
next
  case (close fd k cur e k' s')
  then show ?thesis using presD [OF pres_cleanup assms(2), of e cur] by simp
next
  case (invalid fd k cur e h k' s')
  then show ?thesis
    using presD [OF pres_seqE [OF pres_send pres_cleanup] assms(2), of fd "code ERROR" "''Invalid header''" 0 e cur]
    by simp
next
  case (crash fd k cur e h payload k' ex s')
  then show ?thesis using presD [OF pres_dispatch assms(2), of e fd h payload cur] by simp
qed simp_all

lemma reachable_inv:
  assumes "reachable s0 c" and "I s0"
  shows "I (c_server c)"
  using assms by (induction) (auto simp: started_def intro: step_inv)

lemma serve_inv: "I s \<Longrightarrow> I (snd (serve es n fd k cur s))"
proof (induction es n fd k cur s rule: serve.induct)
  case (1 es n fd k cur s)
  obtain f k' where f: "read_frame k = (f, k')" by (cases "read_frame k")
  show ?case
  proof (cases f)
    case F_closed
    with f "1.prems" show ?thesis by (simp add: serve.simps [of es n])
  next
    case (F_invalid h)
    with f presD [OF pres_seqE [OF pres_send pres_retE] "1.prems"] show ?thesis
      by (simp add: serve.simps [of es n])
  next
    case (F_msg h payload)
    have *: "I (snd (dispatch (es n) fd h payload cur s))" by (rule presD [OF pres_dispatch "1.prems"])
    with F_msg f "1.IH" show ?thesis
      by (subst serve.simps) (force split: prod.split sum.split)
  qed
qed

lemma pres_handle_client: "pres I (handle_client es fd k)"
proof -
  have "pres I (serve es 0 fd k 0)" by (rule presI) (rule serve_inv)
  then show ?thesis unfolding handle_client_def by (intro pres_intros pres_cleanup)
qed

end

subsection \<open>From main to the configurations\<close>

text \<open>A server that listens has been started, and nothing else than a failed system call makes it exit.\<close>

lemma open_server_result:
  assumes "open_server lib retries delay port p fd bind_ok listen_ok s = (Inr r, s')"
  shows "(r = Exit 1 \<and> (fd < 0 \<or> \<not> bind_ok \<or> \<not> listen_ok)) \<or>
    (\<exists>w. r = Listening fd w \<and> startup lib retries delay port p s = (Inr w, s'))"
  using assms
  by (auto simp: open_server_def startup_def seqE_Inr_iff bindE_Inr_iff split: if_splits)

text \<open>The connections that \<^verbatim>\<open>main\<close> accepts are steps of the server, when the system gives fresh descriptors.\<close>

lemma accept_loop_reachable:
  assumes "reachable s0 c" and "c_running c" and "distinct (filter (\<lambda>fd. 0 \<le> fd) (map fst rs))"
    and "\<forall>fd\<in>set (map fst rs). c_conns c fd = None"
  shows "reachable s0 (accept_loop rs c)"
  using assms
proof (induction rs arbitrary: c)
  case (Cons r rs)
  obtain cfd k where r: "r = (cfd, k)" by (cases r)
  show ?case
  proof (cases "cfd < 0")
    case True
    with Cons r show ?thesis by simp
  next
    case False
    let ?c = "c\<lparr>c_conns := (c_conns c)(cfd \<mapsto> (k, 0))\<rparr>"
    have "reachable s0 ?c"
      by (rule reach_step [OF Cons.prems(1)], rule step.accept) (use Cons.prems False r in auto)
    moreover have "\<forall>fd\<in>set (map fst rs). c_conns ?c fd = None"
      using Cons.prems(3,4) False r by (auto simp: not_less)
    ultimately show ?thesis using Cons.IH [of ?c] Cons.prems(2,3) False r by auto
  qed
qed simp

subsection \<open>Invariants from the start on\<close>

text \<open>
  A \<open>boot_inv\<close> is also kept by the loading of the caches, from the database or from the file, so it
  holds from the empty process on.
\<close>

lemma pres_load_file:
  assumes "\<And>s u. I s \<Longrightarrow> I (store_loaded u s)" and "\<And>s n. I s \<Longrightarrow> I (s\<lparr>g_next_user_id := n\<rparr>)"
  shows "pres I load_file"
proof -
  have "pres I (load_lines ls m)" for ls m
    by (induction ls arbitrary: m) (auto intro!: pres_intros pres_modifyE assms)
  then show ?thesis
    unfolding load_file_def load_users_def by (intro pres_intros pres_modifyE assms)
qed

locale boot_inv = server_inv I for I :: "'db server \<Rightarrow> bool" +
  assumes I_cache: "I s \<Longrightarrow> I (cache_user u s)"
    and I_cache_friend: "I s \<Longrightarrow> I (set_friend a b s)"
    and I_loaded: "I s \<Longrightarrow> I (store_loaded u s)"
    and I_connected: "I s \<Longrightarrow> I (s\<lparr>g_pg_persistence := Some p\<rparr>)"
    and I_fresh: "I (initial_server\<lparr>users_file := f\<rparr>)"
begin

lemma I_cache_friends: "I s \<Longrightarrow> I (cache_friends uid fs s)"
  unfolding cache_friends_def by (induction fs arbitrary: s) (auto intro: I_cache_friend)

lemma load_cached_users_inv: "I s \<Longrightarrow> I (snd (snd (load_cached_users lib us m (p, s))))"
proof (induction us arbitrary: m p s)
  case (Cons u us)
  then show ?case
    by (auto simp: Let_def I_cache I_cache_friends split: prod.split sum.split)
qed simp

lemma I_loaded_group: "I s \<Longrightarrow> I (s\<lparr>g_groups := gs, g_next_group_id := n\<rparr>)"
proof -
  assume "I s"
  have "s\<lparr>g_groups := gs, g_next_group_id := n\<rparr> = s\<lparr>g_next_group_id := n, g_groups := gs\<rparr>" by simp
  then show ?thesis by (metis I_group \<open>I s\<close>)
qed

lemma pres_load_group: "pres I (load_group lib g)"
  unfolding load_group_def by (intro pres_intros pres_pg_call pres_modifyE I_loaded_group)

lemma pres_load_database: "pres I (load_database lib p)"
proof (rule presI)
  fix s
  assume s: "I s"
  have groups: "pres I (load_groups lib us)" for us
    unfolding load_groups_def by (intro pres_intros pres_pg_call pres_load_group)
  have "I (snd (load_groups lib us (t\<lparr>g_next_user_id := n, g_pg_persistence := Some q\<rparr>)))"
    if "I t" for us t n q
    using presD [OF groups I_connected [OF I_next_user [OF that]]] by blast
  moreover have "I t" if "load_cached_users lib us m (q, s) = (r, q', t)" for us m q r q' t
    using load_cached_users_inv [OF s, of lib us m q] that by simp
  ultimately show "I (snd (load_database lib p s))"
    using s by (auto simp: load_database_def split: prod.split sum.split)
qed

lemma pres_startup: "pres I (startup lib retries delay port p)"
proof -
  have "pres I (\<lambda>s. case connect_attempts lib n p of
      (Inl ex, p') \<Rightarrow> (Inl ex, s) | (Inr ok, p') \<Rightarrow> if ok then load_database lib p' s else load_file s)" for n
    by (rule presI) (auto simp: presD [OF pres_load_database] presD [OF pres_load_file [OF I_loaded I_next_user]] split: prod.split sum.split)
  then show ?thesis unfolding startup_def load_caches_def by (intro pres_intros)
qed

lemma running_inv:
  assumes "startup lib retries delay port p (initial_server\<lparr>users_file := f\<rparr>) = (Inr w, s0)"
    and "reachable s0 c"
  shows "I (c_server c)"
proof (rule reachable_inv [OF assms(2)])
  show "I s0" using presD [OF pres_startup I_fresh, of lib retries delay port p f] assms(1) by simp
qed

end

subsection \<open>Whether there is a database does not change\<close>

lemma has_pg_Some: "g_pg_persistence s = Some p \<Longrightarrow> has_pg s"
  by (simp add: has_pg_def)

lemma has_pg_frames [simp]:
  "has_pg (store_registered u fd s) = has_pg s"
  "has_pg (accept_memory a b s) = has_pg s" "has_pg (unfriend_memory a b s) = has_pg s"
  "has_pg (drop_request a b s) = has_pg s" "has_pg (update_group gid g s) = has_pg s"
  "has_pg (snd (leave_memory gid x s)) = has_pg s" "has_pg (store_group gid m x ids s) = has_pg s"
  by (simp_all add: has_pg_def store_registered_def accept_memory_def unfriend_memory_def
      drop_request_def set_friend_def clear_friend_def update_group_def leave_memory_def store_group_def
      Let_def split: option.split)

end
