(* ===== verification/Server_Invariants.thy ===== *)
theory Server_Invariants
  imports Server_Loop
begin

text \<open>
  Invariants of the running server, each an interpretation of the contract \<^verbatim>\<open>server_inv\<close>:
  friendship is symmetric, nobody has two pending requests from the same user, and the maps are
  keyed by what they store. They hold in every reachable configuration, over all interleavings of
  the requests of all connections, with and without a database, and after a crash too.
\<close>

subsection \<open>Friendship is symmetric\<close>

definition friends_symmetric :: "'db server \<Rightarrow> bool" where
  "friends_symmetric s \<longleftrightarrow> (\<forall>a b. are_friends s a b = are_friends s b a)"

lemma are_friends_set_friend [simp]:
  "are_friends (set_friend x y s) a b = ((a = x \<and> b = y) \<or> are_friends s a b)"
  by (simp add: are_friends_def friend_map_def set_friend_def)

lemma are_friends_clear_friend [simp]:
  "are_friends (clear_friend x y s) a b = (\<not> (a = x \<and> b = y) \<and> are_friends s a b)"
  by (simp add: are_friends_def friend_map_def clear_friend_def)

lemma are_friends_drop_request [simp]: "are_friends (drop_request x y s) = are_friends s"
  by (simp add: fun_eq_iff are_friends_def friend_map_def drop_request_def)

lemma pending_set_friend [simp]:
  "pending_requests (set_friend x y s) = pending_requests s"
  "pending_requests (clear_friend x y s) = pending_requests s"
  by (simp_all add: fun_eq_iff pending_requests_def set_friend_def clear_friend_def)

lemma pending_drop_request [simp]:
  "pending_requests (drop_request x y s) u =
     (if u = x then removeAll y (pending_requests s x) else pending_requests s u)"
  by (simp add: pending_requests_def drop_request_def)

lemma are_friends_accept:
  "are_friends (accept_memory x y s) a b = ((a = x \<and> b = y) \<or> (a = y \<and> b = x) \<or> are_friends s a b)"
  by (auto simp: accept_memory_def)

lemma are_friends_unfriend:
  "are_friends (unfriend_memory x y s) a b =
     (\<not> (a = x \<and> b = y) \<and> \<not> (a = y \<and> b = x) \<and> are_friends s a b)"
  by (auto simp: unfriend_memory_def)

lemma are_friends_frames [simp]:
  "are_friends (s\<lparr>users_file := f\<rparr>) = are_friends s"
  "are_friends (s\<lparr>g_next_user_id := n\<rparr>) = are_friends s"
  "are_friends (s\<lparr>g_online_clients := c\<rparr>) = are_friends s"
  "are_friends (s\<lparr>g_friend_requests := r\<rparr>) = are_friends s"
  "are_friends (s\<lparr>g_next_group_id := n\<rparr>) = are_friends s"
  "are_friends (store_registered u fd s) = are_friends s"
  by (simp_all add: fun_eq_iff are_friends_def friend_map_def store_registered_def)

lemma pending_frames [simp]:
  "pending_requests (s\<lparr>users_file := f\<rparr>) = pending_requests s"
  "pending_requests (s\<lparr>g_next_user_id := n\<rparr>) = pending_requests s"
  "pending_requests (s\<lparr>g_online_clients := c\<rparr>) = pending_requests s"
  "pending_requests (s\<lparr>g_next_group_id := n\<rparr>) = pending_requests s"
  "pending_requests (store_registered u fd s) = pending_requests s"
  by (simp_all add: fun_eq_iff pending_requests_def store_registered_def)

interpretation fs: server_inv friends_symmetric
  by unfold_locales (auto simp: friends_symmetric_def are_friends_accept are_friends_unfriend)

text \<open>Without a database no friendship is loaded at start.\<close>

interpretation hp: comm_inv has_pg
  by unfold_locales (simp_all add: has_pg_def)

lemma load_database_has_pg:
  assumes "load_database lib p s = (Inr x, s')"
  shows "has_pg s'"
proof -
  have "pres has_pg (load_groups lib us)" for us
    unfolding load_groups_def load_group_def
    by (intro pres_intros hp.pres_pg_call pres_modifyE) (simp add: has_pg_def)
  from presD [OF this] have "has_pg (snd (load_groups lib us (t\<lparr>g_next_user_id := n, g_pg_persistence := Some q\<rparr>)))"
    for us t n q
    by (simp add: has_pg_def)
  with assms show ?thesis
    by (auto simp: load_database_def split: prod.splits sum.splits) (metis snd_conv)
qed

lemma startup_loads:
  assumes "startup lib retries delay port p s = (Inr w, s0)"
  shows "(\<exists>n q x. connect_attempts lib n p = (Inr True, q) \<and> load_database lib q s = (Inr x, s0)) \<or> (\<exists>r. load_file s = (r, s0))"
proof -
  obtain n x where "(case connect_attempts lib n p of
      (Inl ex, p') \<Rightarrow> (Inl ex, s)
    | (Inr ok, p') \<Rightarrow> if ok then load_database lib p' s else load_file s) = (Inr (x :: unit), s0)"
    using assms unfolding startup_def load_caches_def bindE_Inr_iff seqE_Inr_iff run_liftE by fastforce
  then show ?thesis by (cases "connect_attempts lib n p") (auto split: sum.splits if_splits)
qed

lemma startup_memory:
  assumes "startup lib retries delay port p s = (Inr w, s0)" and "\<not> has_pg s0"
  shows "\<exists>r. load_file s = (r, s0)"
  using startup_loads [OF assms(1)] assms(2) by (auto dest: load_database_has_pg)

lemma load_file_friends:
  fixes s :: "'db server"
  assumes "load_file (initial_server\<lparr>users_file := f\<rparr>) = (r, s)"
  shows "friends_symmetric s"
proof -
  let ?I = "\<lambda>t :: 'db server. \<forall>a b. \<not> are_friends t a b"
  have "pres ?I load_file"
    by (rule pres_load_file) (simp_all add: are_friends_def friend_map_def store_loaded_def)
  moreover have "?I (initial_server\<lparr>users_file := f\<rparr>)"
    by (simp add: are_friends_def friend_map_def initial_server_def)
  ultimately have "?I (snd (load_file (initial_server\<lparr>users_file := f\<rparr>)))" by (rule presD)
  with assms show ?thesis by (simp add: friends_symmetric_def)
qed

text \<open>
  What is loaded from a database: \<open>serves_friends lib F\<close> says that the queries of the loading succeed on a
  connection that is up, which stays up, and that they answer the relation \<open>F\<close> among the stored users. Then \<open>F\<close>
  is what the server has loaded. A query that fails is answered like an empty one, and then friendships are missing
  on one side.
\<close>

definition serves_friends :: "'db pg_lib \<Rightarrow> (int \<Rightarrow> int \<Rightarrow> bool) \<Rightarrow> bool" where
  "serves_friends lib F \<longleftrightarrow>
     (\<forall>c d d'. PQconnectdb lib c d = (True, d') \<longrightarrow> PQstatus_ok lib d') \<and>
     (\<forall>p us p'. pg_is_connected lib p \<longrightarrow> pg_get_all_users lib p = (Inr us, p') \<longrightarrow>
        pg_is_connected lib p' \<and> (\<forall>a b. F a b \<longrightarrow> a \<in> u_id ` set us)) \<and>
     (\<forall>uid p fs p'. pg_is_connected lib p \<longrightarrow> pg_get_friends lib uid p = (Inr fs, p') \<longrightarrow>
        pg_is_connected lib p' \<and> u_id ` set fs = {v. F uid v})"

lemma are_friends_cache [simp]:
  "are_friends (cache_user u s) = are_friends s"
  "are_friends (cache_friends uid fs s) a b \<longleftrightarrow> a = uid \<and> b \<in> u_id ` set fs \<or> are_friends s a b"
proof -
  show "are_friends (cache_user u s) = are_friends s"
    by (simp add: fun_eq_iff are_friends_def friend_map_def cache_user_def Let_def)
  show "are_friends (cache_friends uid fs s) a b \<longleftrightarrow> a = uid \<and> b \<in> u_id ` set fs \<or> are_friends s a b"
    unfolding cache_friends_def by (induction fs arbitrary: s) auto
qed

lemma load_cached_friends:
  assumes "serves_friends lib F" and "pg_is_connected lib p" and "load_cached_users lib us m (p, s) = (Inr n, (p', s'))"
  shows "are_friends s' a b \<longleftrightarrow> a \<in> u_id ` set us \<and> F a b \<or> are_friends s a b"
  using assms(2,3)
proof (induction us arbitrary: m p s)
  case (Cons u us)
  obtain fs q where q: "pg_get_friends lib (u_id u) p = (Inr fs, q)"
    using Cons.prems(2) by (auto simp: Let_def split: prod.splits sum.splits)
  with assms(1) Cons.prems(1) have "pg_is_connected lib q" "u_id ` set fs = {v. F (u_id u) v}"
    unfolding serves_friends_def by blast+
  with Cons.IH [of q] Cons.prems(2) q show ?case by (auto simp: Let_def)
qed (simp add: retE_def)

lemma connected_attempt:
  "serves_friends lib F \<Longrightarrow> connect_attempts lib n p = (Inr True, p') \<Longrightarrow> pg_is_connected lib p'"
proof (induction n arbitrary: p)
  case (Suc n)
  obtain ok d where c: "PQconnectdb lib (pg_conn_str p) (pg_db p) = (ok, d)"
    by (cases "PQconnectdb lib (pg_conn_str p) (pg_db p)")
  show ?case
  proof (cases ok)
    case True
    with c have "PQconnectdb lib (pg_conn_str p) (pg_db p) = (True, d)" by simp
    with Suc.prems(1) have "PQstatus_ok lib d" unfolding serves_friends_def by blast
    with c True Suc.prems(2) show ?thesis
      by (auto simp: pg_initialize_def pg_connect_def bindE_def retE_def pg_is_connected_def)
  qed (use c Suc in \<open>auto simp: pg_initialize_def pg_connect_def bindE_def\<close>)
qed (simp add: retE_def)

lemma load_groups_friends: "are_friends (snd (load_groups lib us s)) = are_friends s"
proof -
  have "pres (\<lambda>t. are_friends t = are_friends s) (load_groups lib us)"
    unfolding load_groups_def load_group_def
    by (intro pres_intros pres_modifyE presI)
      (auto simp: pg_call_def are_friends_def friend_map_def fun_eq_iff split: option.splits prod.splits)
  from presD [OF this] show ?thesis by simp
qed

lemma loaded_friends_symmetric:
  fixes f
  assumes "startup lib retries delay port p (initial_server\<lparr>users_file := f\<rparr>) = (Inr w, s0)"
    and "serves_friends lib F" and "\<And>a b. F a b = F b a"
  shows "friends_symmetric s0"
  using startup_loads [OF assms(1)]
proof (elim disjE exE conjE)
  fix n q x
  let ?start = "initial_server\<lparr>users_file := f\<rparr>"
  assume "connect_attempts lib n p = (Inr True, q)" and load: "load_database lib q ?start = (Inr x, s0)"
  from connected_attempt [OF assms(2) this(1)] have q: "pg_is_connected lib q" .
  obtain us q' m q'' t where us: "pg_get_all_users lib q = (Inr us, q')"
    and t: "load_cached_users lib us 0 (q', ?start) = (Inr m, (q'', t))"
    and s0: "s0 = snd (load_groups lib us (t\<lparr>g_next_user_id := wrap_int32 (m + 1), g_pg_persistence := Some q''\<rparr>))"
    using load by (auto simp: load_database_def split: prod.splits sum.splits)
  have "pg_is_connected lib q'" and all: "\<forall>a b. F a b \<longrightarrow> a \<in> u_id ` set us"
    using assms(2) q us unfolding serves_friends_def by blast+
  from load_cached_friends [OF assms(2) this(1) t] have "are_friends t a b \<longleftrightarrow> a \<in> u_id ` set us \<and> F a b" for a b
    by (simp add: are_friends_def friend_map_def initial_server_def)
  with all have "are_friends t a b \<longleftrightarrow> F a b" for a b by blast
  moreover have "are_friends s0 = are_friends t"
    unfolding s0 load_groups_friends by (simp add: fun_eq_iff are_friends_def friend_map_def)
  ultimately show ?thesis using assms(3) by (simp add: friends_symmetric_def)
qed (rule load_file_friends)

text \<open>
  C1: from the start of the process on, by any interleaving of connections and requests, the
  friendship relation of the server is symmetric. When the friendships come from a database, the relation that was
  loaded at the start has to be.
\<close>

theorem friendship_always_symmetric:
  assumes "startup lib retries delay port p (initial_server\<lparr>users_file := f\<rparr>) = (Inr w, s0)"
    and "has_pg s0 \<Longrightarrow> friends_symmetric s0" and "reachable s0 c"
  shows "are_friends (c_server c) a b = are_friends (c_server c) b a"
proof -
  have "friends_symmetric s0"
  proof (cases "has_pg s0")
    case False
    then obtain r where "load_file (initial_server\<lparr>users_file := f\<rparr>) = (r, s0)"
      using startup_memory [OF assms(1)] by blast
    then show ?thesis by (rule load_file_friends)
  qed (rule assms(2))
  then show ?thesis using fs.reachable_inv [OF assms(3)] by (simp add: friends_symmetric_def)
qed

subsection \<open>Pending requests are distinct\<close>

definition requests_distinct :: "'db server \<Rightarrow> bool" where
  "requests_distinct s \<longleftrightarrow> (\<forall>u. distinct (pending_requests s u))"

lemma pending_put:
  "pending_requests (s\<lparr>g_friend_requests := um_put k v (g_friend_requests s)\<rparr>) u =
     (if u = k then v else pending_requests s u)"
  by (simp add: pending_requests_def)

lemma distinct_fold_pending:
  "requests_distinct s \<Longrightarrow>
   requests_distinct (s\<lparr>g_friend_requests :=
     um_put k (fold push_back_new xs (um_at [] (g_friend_requests s) k)) (g_friend_requests s)\<rparr>)"
  by (auto simp: requests_distinct_def pending_put) (simp add: pending_requests_def)

lemma pending_loading:
  "pending_requests (cache_user u s) v = pending_requests s v"
  "pending_requests (store_loaded u s) v = pending_requests s v"
  "pending_requests initial_server v = []"
  by (simp_all add: pending_requests_def cache_user_def store_loaded_def initial_server_def Let_def)

interpretation rd: boot_inv requests_distinct
  by unfold_locales
     (auto simp: requests_distinct_def accept_memory_def unfriend_memory_def distinct_removeAll
       pending_loading intro: distinct_fold_pending [unfolded requests_distinct_def, rule_format])

text \<open>
  In every reachable configuration nobody has two pending requests from the same user, even
  though three handlers append to the list and two of them copy rows of the database into it.
\<close>

lemma pending_always_distinct:
  assumes "startup lib retries delay port p (initial_server\<lparr>users_file := f\<rparr>) = (Inr w, s0)"
    and "reachable s0 c"
  shows "distinct (pending_requests (c_server c) u)"
  using rd.running_inv [OF assms] by (simp add: requests_distinct_def)

subsection \<open>The maps are keyed by what they store\<close>

definition maps_ok :: "'db server \<Rightarrow> bool" where
  "maps_ok s \<longleftrightarrow> users_keyed s \<and> um_ok (g_users_by_name s) \<and> um_ok (g_users_by_id s) \<and>
     um_ok (g_online_clients s) \<and> um_ok (g_friend_requests s) \<and> um_ok (g_offline_messages s)"

lemma maps_ok_register: "maps_ok s \<Longrightarrow> maps_ok (store_registered u fd s)"
  by (auto simp: maps_ok_def users_keyed_def store_registered_def)

lemma maps_ok_loading:
  "maps_ok s \<Longrightarrow> maps_ok (cache_user u s)" "maps_ok s \<Longrightarrow> maps_ok (store_loaded u s)"
  "maps_ok (initial_server\<lparr>users_file := f\<rparr>)"
  by (auto simp: maps_ok_def users_keyed_def cache_user_def store_loaded_def initial_server_def Let_def)

interpretation mo: boot_inv maps_ok
proof unfold_locales
  fix s :: "'a server" and u fd f
  show "maps_ok ((initial_server :: 'a server)\<lparr>users_file := f\<rparr>)" by (rule maps_ok_loading)
  assume "maps_ok s"
  then show "maps_ok (store_registered u fd s)" "maps_ok (cache_user u s)" "maps_ok (store_loaded u s)"
    by (auto intro: maps_ok_register maps_ok_loading)
qed (auto simp: maps_ok_def users_keyed_def accept_memory_def unfriend_memory_def drop_request_def
       set_friend_def clear_friend_def)

text \<open>
  C26: in every reachable configuration the user found under a name has that name, the user found
  under an id has that id, and the lookup tables hold no key twice.
\<close>

theorem user_maps_always_keyed:
  assumes "startup lib retries delay port p (initial_server\<lparr>users_file := f\<rparr>) = (Inr w, s0)"
    and "reachable s0 c"
  shows "um_ok (g_users_by_name (c_server c)) \<and> um_ok (g_users_by_id (c_server c)) \<and>
    (\<forall>n u. um_get (g_users_by_name (c_server c)) n = Some u \<longrightarrow> u_username u = n) \<and>
    (\<forall>i u. um_get (g_users_by_id (c_server c)) i = Some u \<longrightarrow> u_id u = i)"
  using mo.running_inv [OF assms] by (simp add: maps_ok_def users_keyed_def)

subsection \<open>A run\<close>

text \<open>A server started on a users file, and a connection that sends one request to it.\<close>

definition sample_boot :: "(16 word) res \<times> sample_db server" where
  "sample_boot =
     startup (pq sample_env) (Some ''1'') None None (sample_pg\<lparr>pg_conn := False\<rparr>)
       (initial_server\<lparr>users_file := Some (user_line alice @ [newline] @ user_line bob @ [newline])\<rparr>)"

definition sample_request :: "(bool \<times> u32) res \<times> sample_db server" where
  "sample_request =
     dispatch sample_env 4 (sent_header 0 (code FRIEND_ACCEPT) ''userId=1'' 0) ''userId=1'' 0 (snd sample_boot)"

lemma sample_boot_run:
  "startup (pq sample_env) (Some ''1'') None None (sample_pg\<lparr>pg_conn := False\<rparr>)
     (initial_server\<lparr>users_file := Some (user_line alice @ [newline] @ user_line bob @ [newline])\<rparr>) =
   (Inr 8080, snd sample_boot)"
proof -
  have "fst sample_boot = Inr 8080" by code_simp
  then show ?thesis by (metis prod.collapse sample_boot_def)
qed

lemma sample_boot_memory: "\<not> has_pg (snd sample_boot)"
  by code_simp

lemma one_request_reachable:
  assumes run: "dispatch sample_env 4 (sent_header 0 ty m 0) m 0 (snd sample_boot) = (Inr (True, 0), s')"
    and "length m < 2 ^ 32"
  shows "\<exists>c. reachable (snd sample_boot) c \<and> c_server c = s'"
proof -
  let ?k = "\<lparr>segs = [frame 0 ty m 0], broken = False\<rparr>"
  let ?c = "(started (snd sample_boot))\<lparr>c_conns := [4 \<mapsto> (?k, 0)]\<rparr>"
  have 1: "reachable (snd sample_boot) ?c"
    using accept [of "started (snd sample_boot)" 4 ?k]
    by (auto simp: started_def intro: reach_step reach_init [unfolded started_def])
  obtain k' where k': "read_frame ?k = (F_msg (sent_header 0 ty m 0) m, k')"
    using read_frame_frame [of ?k 0 ty m 0 "[]"] assms(2) by (auto simp: stream_def)
  have "dispatch sample_env 4 (sent_header 0 ty m 0) m 0 (c_server ?c) = (Inr (True, 0), s')"
    using run by (simp add: started_def)
  then have "step ?c (?c\<lparr>c_server := s', c_conns := (c_conns ?c)(4 \<mapsto> (k', 0))\<rparr>)"
    by (rule request [OF _ _ env_ok_sample(2) k', rotated 2]) (simp_all add: started_def)
  from reach_step [OF 1 this] show ?thesis by (intro exI conjI) (assumption, simp)
qed

lemma sample_reachable: "\<exists>c. reachable (snd sample_boot) c \<and> c_server c = snd sample_request"
proof (rule one_request_reachable)
  have "fst sample_request = Inr (True, 0)" by code_simp
  then show "dispatch sample_env 4 (sent_header 0 (code FRIEND_ACCEPT) ''userId=1'' 0) ''userId=1'' 0 (snd sample_boot) =
      (Inr (True, 0), snd sample_request)"
    by (simp only: sample_request_def) (metis prod.collapse)
qed simp

text \<open>A database with two users that are friends, as the hypothesis on a database asks for.\<close>

definition friends_query :: "int \<Rightarrow> string" where
  "friends_query uid =
     ''SELECT u.id, u.username, u.password_hash, u.phone, u.is_online, u.last_seen '' @
     ''FROM v_user_friends vuf JOIN users u ON vuf.friend_id = u.id '' @
     ''WHERE vuf.user_id = '' @ to_string uid @ '' ORDER BY u.username''"

definition user_row :: "string \<Rightarrow> string option list" where
  "user_row i = [Some i, Some (''u'' @ i), Some ''p'', Some '''', Some ''f'', None]"

definition two_friends :: "string \<Rightarrow> string option list list" where
  "two_friends q =
     (if q = friends_query 1 then [user_row ''2''] else if q = friends_query 2 then [user_row ''1'']
      else if take 12 q = ''SELECT u.id,'' then [] else [user_row ''1'', user_row ''2''])"

lemma friends_query_inj: "friends_query a = friends_query b \<longleftrightarrow> a = b"
  using to_string_inj by (auto simp: friends_query_def)

lemma sample_rows:
  assumes "pg_is_connected (sample_lib True (\<lambda>_. False) answer) p" and "q \<notin> {''BEGIN'', ''COMMIT'', ''ROLLBACK''}"
  shows "\<exists>p'. exec_rows (sample_lib True (\<lambda>_. False) answer) q decode p = (mapS decode (answer q), p') \<and>
    pg_is_connected (sample_lib True (\<lambda>_. False) answer) p'"
  using assms by (cases "pg_db p")
    (simp add: exec_rows_def bindE_def pg_execute_def sample_lib_def sample_exec_def pg_is_connected_def)

lemma two_friends_served:
  "serves_friends (sample_lib True (\<lambda>_. False) two_friends) (\<lambda>a b. (a, b) \<in> {(1, 2), (2, 1)})"
proof -
  have rows: "(case mapS user_of_row [user_row ''1'', user_row ''2''] of Inl _ \<Rightarrow> False | Inr us \<Rightarrow> map u_id us = [1, 2])"
    "(case mapS user_of_row [user_row ''1''] of Inl _ \<Rightarrow> False | Inr us \<Rightarrow> map u_id us = [1])"
    "(case mapS user_of_row [user_row ''2''] of Inl _ \<Rightarrow> False | Inr us \<Rightarrow> map u_id us = [2])"
    by code_simp+
  let ?lib = "sample_lib True (\<lambda>_. False) two_friends"
  have special: "friends_query uid \<notin> {''BEGIN'', ''COMMIT'', ''ROLLBACK''}" for uid
    by (simp add: friends_query_def)
  have friends: "pg_is_connected ?lib p' \<and> u_id ` set fs = {v. (uid, v) \<in> {(1, 2), (2, 1)}}"
    if "pg_is_connected ?lib p" "pg_get_friends ?lib uid p = (Inr fs, p')" for uid p fs p'
  proof -
    have "mapS user_of_row (two_friends (friends_query uid)) = Inr fs" and "pg_is_connected ?lib p'"
      using sample_rows [OF that(1) special, of uid user_of_row] that(2)
      by (auto simp: pg_get_friends_def friends_query_def)
    moreover have "two_friends (friends_query uid) = (if uid = 1 then [user_row ''2''] else if uid = 2 then [user_row ''1''] else [])"
      by (simp add: two_friends_def friends_query_inj) (simp add: friends_query_def)
    ultimately show ?thesis using rows(2,3) by (auto split: if_splits dest: arg_cong [of _ _ set])
  qed
  have users: "pg_is_connected ?lib p' \<and> u_id ` set us = {1, 2}"
    if "pg_is_connected ?lib p" "pg_get_all_users ?lib p = (Inr us, p')" for p us p'
  proof -
    let ?q = "''SELECT id, username, password_hash, phone, is_online, last_seen '' @ ''FROM users ORDER BY username''"
    have "mapS user_of_row (two_friends ?q) = Inr us" and "pg_is_connected ?lib p'"
      using sample_rows [OF that(1), of ?q user_of_row] that(2) by (auto simp: pg_get_all_users_def)
    moreover have "two_friends ?q = [user_row ''1'', user_row ''2'']"
      by (simp add: two_friends_def friends_query_def)
    ultimately have "map u_id us = [1, 2]" using rows(1) by simp
    then show ?thesis using \<open>pg_is_connected ?lib p'\<close> by (metis list.set(1,2) list.set_map)
  qed
  have "\<forall>c d d'. PQconnectdb ?lib c d = (True, d') \<longrightarrow> PQstatus_ok ?lib d'" by (simp add: sample_lib_def)
  moreover have "\<forall>p us p'. pg_is_connected ?lib p \<longrightarrow> pg_get_all_users ?lib p = (Inr us, p') \<longrightarrow>
      pg_is_connected ?lib p' \<and> (\<forall>a b. (a, b) \<in> {(1, 2), (2, 1)} \<longrightarrow> a \<in> u_id ` set us)"
    using users by (metis Pair_inject insert_iff singletonD)
  moreover have "\<forall>uid p fs p'. pg_is_connected ?lib p \<longrightarrow> pg_get_friends ?lib uid p = (Inr fs, p') \<longrightarrow>
      pg_is_connected ?lib p' \<and> u_id ` set fs = {v. (uid, v) \<in> {(1, 2), (2, 1)}}"
    using friends by (intro allI impI)
  ultimately show ?thesis unfolding serves_friends_def by (intro conjI)
qed

theorem friendship_always_symmetric_witness:
  "\<exists>c. reachable (snd sample_boot) c \<and> are_friends (c_server c) 1 0 \<and> are_friends (c_server c) 0 1"
proof -
  obtain c where c: "reachable (snd sample_boot) c" "c_server c = snd sample_request"
    using sample_reachable by blast
  have "are_friends (snd sample_request) 1 0" by code_simp
  moreover have "are_friends (c_server c) 1 0 = are_friends (c_server c) 0 1"
    by (rule friendship_always_symmetric [OF sample_boot_run _ c(1)]) (simp add: sample_boot_memory)
  ultimately show ?thesis using c by auto
qed

theorem user_maps_always_keyed_witness:
  "\<exists>c. reachable (snd sample_boot) c \<and> um_ok (g_users_by_name (c_server c)) \<and>
    (\<forall>i u. um_get (g_users_by_id (c_server c)) i = Some u \<longrightarrow> u_id u = i)"
  using sample_reachable user_maps_always_keyed [OF sample_boot_run] by blast

end
