(* ===== verification/Social_Graph.thy ===== *)
theory Social_Graph
  imports Server_Invariants
begin

text \<open>
  What the friendship requests promise, as a graph: a set of friendships and a set of open requests, and one
  transition per event. Without a database every request of the server acts on the graph of its tables as the
  event it stands for, so the runs of the server are runs of the graph, and the graph's invariants are the
  server's.
\<close>

subsection \<open>The specification\<close>

text \<open>\<open>(a, b)\<close> in \<open>requests\<close>: \<open>a\<close> has asked \<open>b\<close>.\<close>

record social =
  friendships :: "(int \<times> int) set"
  requests :: "(int \<times> int) set"

text \<open>In each event the first user acts.\<close>

datatype social_event = Ask int int | Befriend int int | Refuse int int | Part int int | Nothing

fun social_next :: "social_event \<Rightarrow> social \<Rightarrow> social" where
  "social_next (Ask a b) g =
     (if a = b \<or> (a, b) \<in> friendships g \<or> (b, a) \<in> friendships g then g
      else g\<lparr>requests := insert (a, b) (requests g)\<rparr>)"
| "social_next (Befriend a b) g =
     g\<lparr>friendships := friendships g \<union> {(a, b), (b, a)}, requests := requests g - {(a, b), (b, a)}\<rparr>"
| "social_next (Refuse a b) g = g\<lparr>requests := requests g - {(b, a)}\<rparr>"
| "social_next (Part a b) g =
     g\<lparr>friendships := friendships g - {(a, b), (b, a)}, requests := requests g - {(a, b), (b, a)}\<rparr>"
| "social_next Nothing g = g"

definition social_step :: "social \<Rightarrow> social \<Rightarrow> bool" where
  "social_step g g' \<longleftrightarrow> (\<exists>ev. g' = social_next ev g)"

definition social_ok :: "social \<Rightarrow> bool" where
  "social_ok g \<longleftrightarrow> sym (friendships g) \<and> (\<forall>(a, b)\<in>requests g. a \<noteq> b \<and> (a, b) \<notin> friendships g)"

lemma social_next_ok: "social_ok g \<Longrightarrow> social_ok (social_next ev g)"
  by (cases ev) (auto simp: social_ok_def sym_def)

lemma social_steps_ok: "social_step\<^sup>*\<^sup>* g g' \<Longrightarrow> social_ok g \<Longrightarrow> social_ok g'"
  by (induction rule: rtranclp_induct) (auto simp: social_step_def social_next_ok)

subsection \<open>The graph of a server and the event of a request\<close>

definition social_of :: "'db server \<Rightarrow> social" where
  "social_of s = \<lparr>friendships = {(a, b). are_friends s a b}, requests = {(a, b). a \<in> set (pending_requests s b)}\<rparr>"

definition named_event :: "(int \<Rightarrow> int \<Rightarrow> social_event) \<Rightarrow> string \<Rightarrow> u32 \<Rightarrow> social_event" where
  "named_event ev payload cur =
     (case stoi (kv_at (parse_kv payload) ''userId'') of Inl _ \<Rightarrow> Nothing | Inr other \<Rightarrow> ev (int_of_u32 cur) other)"

definition request_event :: "'db env \<Rightarrow> header \<Rightarrow> string \<Rightarrow> u32 \<Rightarrow> 'db server \<Rightarrow> social_event" where
  "request_event e h payload cur s =
     (case type_of_code (h_type h) of
        Some FRIEND_REQUEST \<Rightarrow>
          (case fst (request_target e (parse_kv payload) s) of
             Inr (Inr target) \<Rightarrow> Ask (int_of_u32 cur) target
           | _ \<Rightarrow> Nothing)
      | Some FRIEND_ACCEPT \<Rightarrow> named_event Befriend payload cur
      | Some FRIEND_DECLINE \<Rightarrow> named_event Refuse payload cur
      | Some UNFRIEND \<Rightarrow> named_event Part payload cur
      | _ \<Rightarrow> Nothing)"

lemma social_of_eqI:
  assumes "are_friends s = are_friends t" and "\<And>u. set (pending_requests s u) = set (pending_requests t u)"
  shows "social_of s = social_of t"
  using assms by (simp add: social_of_def)

lemma social_of_frames [simp]:
  "social_of (s\<lparr>outbox := x\<rparr>) = social_of s" "social_of (s\<lparr>activity := y\<rparr>) = social_of s"
  "social_of (s\<lparr>g_offline_messages := z\<rparr>) = social_of s" "social_of (s\<lparr>users_file := f\<rparr>) = social_of s"
  "social_of (s\<lparr>g_friends := um_touch [] k (g_friends s)\<rparr>) = social_of s"
  "social_of (s\<lparr>g_groups := gs\<rparr>) = social_of s" "social_of (s\<lparr>g_next_group_id := n\<rparr>) = social_of s"
  "social_of (s\<lparr>g_next_user_id := n\<rparr>) = social_of s" "social_of (s\<lparr>g_online_clients := c\<rparr>) = social_of s"
  "social_of (store_registered u fd s) = social_of s"
  by (simp_all add: social_of_def)

text \<open>The four updates of the tables are the four transitions of the graph.\<close>

lemma social_of_accept: "social_of (accept_memory a b s) = social_next (Befriend a b) (social_of s)"
  by (auto simp: social_of_def are_friends_accept) (auto simp: accept_memory_def split: if_splits)

lemma social_of_drop: "social_of (drop_request a b s) = social_next (Refuse a b) (social_of s)"
  by (auto simp: social_of_def split: if_splits)

lemma social_of_unfriend: "social_of (unfriend_memory a b s) = social_next (Part a b) (social_of s)"
  by (auto simp: social_of_def are_friends_unfriend) (auto simp: unfriend_memory_def split: if_splits)

lemma social_of_ask:
  assumes "a \<noteq> b" and "\<not> are_friends s a b" and "\<not> are_friends s b a"
  shows "social_of (s\<lparr>g_friend_requests :=
      um_put b (push_back_new a (um_at [] (g_friend_requests s) b)) (g_friend_requests s)\<rparr>) =
    social_next (Ask a b) (social_of s)"
  using assms by (auto simp: social_of_def pending_put split: if_splits) (auto simp: pending_requests_def)

subsection \<open>Requests refine events\<close>

text \<open>The part of a request after its update of the tables keeps the graph.\<close>

definition graph_is :: "social \<Rightarrow> 'db server \<Rightarrow> bool" where
  "graph_is g s \<longleftrightarrow> \<not> has_pg s \<and> social_of s = g"

interpretation gi: comm_inv "graph_is g"
  by unfold_locales (auto simp: graph_is_def dest: has_pg_Some)

lemma graph_is_groups:
  "graph_is g s \<Longrightarrow> graph_is g (s\<lparr>g_groups := gs\<rparr>)"
  "graph_is g s \<Longrightarrow> graph_is g (s\<lparr>g_next_group_id := n, g_groups := gs\<rparr>)"
  "graph_is g s \<Longrightarrow> graph_is g (update_group gid f s)"
  "graph_is g s \<Longrightarrow> graph_is g (snd (leave_memory gid uid s))"
  by (auto simp: graph_is_def update_group_def leave_memory_def Let_def split: option.split)

lemma graph_is_accounts:
  "graph_is g s \<Longrightarrow> graph_is g (s\<lparr>users_file := f\<rparr>)" "graph_is g s \<Longrightarrow> graph_is g (s\<lparr>g_next_user_id := n\<rparr>)"
  "graph_is g s \<Longrightarrow> graph_is g (store_registered u fd s)" "graph_is g s \<Longrightarrow> graph_is g (s\<lparr>g_online_clients := c\<rparr>)"
  "graph_is g s \<Longrightarrow> graph_is g (s\<lparr>g_offline_messages := q\<rparr>)"
  by (auto simp: graph_is_def)

lemma pres_memory_requests:
  "pres (graph_is g) (login_requests e uid)" "pres (graph_is g) (merged_requests e uid)"
proof -
  have "login_requests e uid s = (Inr (pending_requests s uid), s)" "merged_requests e uid s = (Inr (pending_requests s uid), s)"
    if "\<not> has_pg s" for s
    using that by (simp_all add: login_requests_def merged_requests_def)
  then show "pres (graph_is g) (login_requests e uid)" "pres (graph_is g) (merged_requests e uid)"
    by (auto intro!: presI simp: graph_is_def)
qed

lemma pres_graph_login: "pres (graph_is g) (handle_LOGIN e fd payload cur)"
  unfolding handle_LOGIN_def take_offline_def deliver_requests_def deliver_invites_def deliver_offline_def
  by (intro pres_intros gi.pres_comm pres_memory_requests pres_modifyE) (simp_all add: graph_is_accounts)

lemma pres_graph_friends_list: "pres (graph_is g) (handle_GET_FRIENDS_LIST e fd cur)"
  unfolding handle_GET_FRIENDS_LIST_def by (intro pres_intros gi.pres_comm pres_memory_requests)

lemmas pres_graph =
  gi.pres_HEARTBEAT gi.pres_REGISTER [OF graph_is_accounts(1-3)] pres_graph_login
  gi.pres_LOGOUT [OF graph_is_accounts(4)] gi.pres_SEARCH_USER gi.pres_GET_ALL_USERS pres_graph_friends_list
  gi.pres_DIRECT_MESSAGE gi.pres_GET_CONVERSATION_HISTORY gi.pres_GET_GROUP_HISTORY gi.pres_GET_USER_GROUPS
  gi.pres_DELETE_CONVERSATION gi.pres_DECLINE_GROUP_INVITE gi.pres_GROUP_MESSAGE
  gi.pres_CREATE_GROUP [unfolded store_group_def, OF graph_is_groups(1,2)]
  gi.pres_INVITE_TO_GROUP [OF graph_is_groups(3)] gi.pres_ACCEPT_GROUP_INVITE [OF graph_is_groups(3)]
  gi.pres_RENAME_GROUP [OF graph_is_groups(3)] gi.pres_SET_GROUP_NICKNAME [OF graph_is_groups(3)]
  gi.pres_REMOVE_FROM_GROUP [OF graph_is_groups(3)] gi.pres_MAKE_ADMIN [OF graph_is_groups(3)]
  gi.pres_LEAVE_GROUP [OF graph_is_groups(4)]

lemma graph_isD: "pres (graph_is (social_of s)) m \<Longrightarrow> \<not> has_pg s \<Longrightarrow> graph_is (social_of s) (snd (m s))"
  by (erule presD) (simp add: graph_is_def)

lemma named_refines:
  assumes "\<not> has_pg s"
  shows "graph_is (social_next (named_event Befriend payload cur) (social_of s)) (snd (handle_FRIEND_ACCEPT e fd payload cur s))"
    and "graph_is (social_next (named_event Refuse payload cur) (social_of s)) (snd (handle_FRIEND_DECLINE e fd payload cur s))"
    and "graph_is (social_next (named_event Part payload cur) (social_of s)) (snd (handle_UNFRIEND fd payload cur s))"
proof -
  note step = graph_is_def social_of_accept social_of_drop social_of_unfriend
  let ?stoi = "stoi (kv_at (parse_kv payload) ''userId'')"
  have tail: "graph_is g (snd (seqE (modifyE f) (send fd ty msg cur) s))" if "graph_is g (f s)" for g f ty msg
    using presD [OF gi.pres_send that] by simp
  show "graph_is (social_next (named_event Befriend payload cur) (social_of s)) (snd (handle_FRIEND_ACCEPT e fd payload cur s))"
    using assms tail
    by (cases ?stoi) (simp_all add: step handle_FRIEND_ACCEPT_def named_event_def Let_def stoi_kv_def del: social_next.simps(1-4))
  show "graph_is (social_next (named_event Refuse payload cur) (social_of s)) (snd (handle_FRIEND_DECLINE e fd payload cur s))"
    using assms tail
    by (cases ?stoi) (simp_all add: step handle_FRIEND_DECLINE_def named_event_def Let_def stoi_kv_def del: social_next.simps(1-4))
  show "graph_is (social_next (named_event Part payload cur) (social_of s)) (snd (handle_UNFRIEND fd payload cur s))"
    using assms tail
    by (cases ?stoi) (simp_all add: step handle_UNFRIEND_def named_event_def Let_def stoi_kv_def del: social_next.simps(1-4))
qed

lemma request_target_state: "request_target e kv s = (fst (request_target e kv s), s)"
  by (simp add: request_target_def stoi_kv_def bindE_def split: sum.split)

lemma already_friends_run:
  fixes s :: "'a server"
  assumes "\<not> has_pg s"
  obtains s' where "already_friends a b s = (Inr (are_friends s a b \<or> are_friends s b a), s')"
    and "\<not> has_pg s'" and "social_of s' = social_of s" and "are_friends s' = are_friends s"
proof -
  let ?s1 = "s\<lparr>g_friends := um_touch [] a (g_friends s)\<rparr>"
  let ?s2 = "?s1\<lparr>g_friends := um_touch [] b (g_friends ?s1)\<rparr>"
  have touch: "are_friends (t\<lparr>g_friends := um_touch [] k (g_friends t)\<rparr>) = are_friends t" for t :: "'a server" and k
    by (simp add: fun_eq_iff)
  have fr: "are_friends ?s1 = are_friends s" "are_friends ?s2 = are_friends s"
    using touch [of a s] touch [of b ?s1] by (simp_all only:)
  have soc: "social_of ?s2 = social_of s"
    using social_of_frames(5) [of a s] social_of_frames(5) [of b ?s1] by (simp only:)
  show thesis
  proof (cases "are_friends s a b")
    case True
    then show ?thesis
      using assms fr(1) by (intro that [of ?s1]) (auto simp: already_friends_def touch_friends_def has_pg_def)
  next
    case False
    then have "already_friends a b s = (Inr (are_friends s b a), ?s2)"
      using fr by (simp add: already_friends_def touch_friends_def)
    with False assms fr(2) soc show ?thesis by (intro that [of ?s2]) (simp_all add: has_pg_def)
  qed
qed

text \<open>Between two users who are not friends the request is stored; what follows keeps the graph.\<close>

lemma ask_stores:
  assumes run: "request_target e (parse_kv payload) s = (Inr (Inr target), s)"
    and already: "already_friends (int_of_u32 cur) target s =
      (Inr (are_friends s (int_of_u32 cur) target \<or> are_friends s target (int_of_u32 cur)), s')"
    and s': "\<not> has_pg s'" "social_of s' = social_of s" "are_friends s' = are_friends s"
    and new: "\<not> (target = int_of_u32 cur \<or> are_friends s (int_of_u32 cur) target \<or> are_friends s target (int_of_u32 cur))"
  shows "graph_is (social_next (Ask (int_of_u32 cur) target) (social_of s)) (snd (handle_FRIEND_REQUEST e fd payload cur s))"
proof -
  let ?uid = "int_of_u32 cur"
  let ?s3 = "s'\<lparr>g_friend_requests :=
    um_put target (push_back_new ?uid (um_at [] (g_friend_requests s') target)) (g_friend_requests s')\<rparr>"
  have stored: "graph_is (social_next (Ask ?uid target) (social_of s)) ?s3"
    using new s' social_of_ask [of ?uid target s'] by (simp add: graph_is_def has_pg_def del: social_next.simps)
  have tail: "pres (graph_is g) (seqE (notify_request cur target)
      (seqE (log_activity ''FRIEND_REQUEST'' ?uid (''to_userId='' @ to_string target))
        (send fd (code SUCCESS) ''Friend request sent'' cur)))" for g
    unfolding notify_request_def by (intro pres_intros gi.pres_comm)
  have "store_request_db e ?uid target s' = (Inr None, s')"
    using s'(1) by (simp add: store_request_db_def)
  moreover have "already_friends ?uid target s = (Inr False, s')" using already new by simp
  ultimately show ?thesis
    using new run presD [OF tail stored] presD [OF gi.pres_send stored]
    by (simp add: handle_FRIEND_REQUEST_def Let_def run_bindE_Inr [of "already_friends ?uid target" s False s']
        del: social_next.simps code.simps)
qed

lemma ask_refines:
  assumes "\<not> has_pg s"
  shows "graph_is (social_next
      (case fst (request_target e (parse_kv payload) s) of
         Inr (Inr target) \<Rightarrow> Ask (int_of_u32 cur) target | _ \<Rightarrow> Nothing) (social_of s))
    (snd (handle_FRIEND_REQUEST e fd payload cur s))"
proof -
  let ?uid = "int_of_u32 cur"
  have sends: "graph_is (social_of s) (snd (send fd ty msg cur t))" if "\<not> has_pg t" "social_of t = social_of s"
    for ty msg t
    using that by (intro presD [OF gi.pres_send]) (simp add: graph_is_def)
  show ?thesis
  proof (cases "fst (request_target e (parse_kv payload) s)")
    case (Inl ex)
    then have "request_target e (parse_kv payload) s = (Inl ex, s)" by (metis request_target_state)
    with assms show ?thesis by (simp add: handle_FRIEND_REQUEST_def Let_def graph_is_def)
  next
    case (Inr t)
    then have run: "request_target e (parse_kv payload) s = (Inr t, s)" by (metis request_target_state)
    show ?thesis
    proof (cases t)
      case msg: (Inl msg)
      with run assms sends [of s] show ?thesis by (simp add: handle_FRIEND_REQUEST_def Let_def)
    next
      case target: (Inr target)
      obtain s' where s': "already_friends ?uid target s = (Inr (are_friends s ?uid target \<or> are_friends s target ?uid), s')"
          "\<not> has_pg s'" "social_of s' = social_of s" "are_friends s' = are_friends s"
        using already_friends_run [OF assms] by blast
      show ?thesis
      proof (cases "target = ?uid \<or> are_friends s ?uid target \<or> are_friends s target ?uid")
        case True
        then have "social_next (Ask ?uid target) (social_of s) = social_of s" by (auto simp: social_of_def)
        with True run target s' assms sends [of s] sends [of s'] show ?thesis
          by (auto simp: handle_FRIEND_REQUEST_def Let_def simp del: social_next.simps)
      next
        case False
        with target run s' show ?thesis by (simp add: Inr ask_stores del: social_next.simps)
      qed
    qed
  qed
qed

lemma dispatch_graph:
  assumes "\<not> has_pg s"
  shows "graph_is (social_next (request_event e h payload cur s) (social_of s)) (snd (dispatch e fd h payload cur s))"
proof (cases "type_of_code (h_type h)")
  case None
  with graph_isD [OF gi.pres_send assms] show ?thesis
    by (simp add: dispatch_def request_event_def stay_def handle_default_def)
next
  case (Some t)
  with assms show ?thesis
    by (cases t)
      (simp_all add: dispatch_def request_event_def stay_def switch_user_def handle_default_def
        graph_isD pres_graph gi.pres_send named_refines ask_refines del: social_next.simps(1-4))
qed

text \<open>
  C2: the server refines the graph, without a database. Every request, of any type and with any payload,
  changes the friendships and open requests in its tables exactly as the event it stands for changes the
  graph, and requests that stand for none leave the graph alone, also those that end in an exception.
\<close>

theorem requests_refine_graph:
  assumes "\<not> has_pg s"
  shows "social_of (snd (dispatch e fd h payload cur s)) =
    social_next (request_event e h payload cur s) (social_of s)"
  using dispatch_graph [OF assms] by (simp add: graph_is_def)

subsection \<open>Runs\<close>

lemma load_file_social:
  fixes s :: "'db server"
  assumes "load_file (initial_server\<lparr>users_file := f\<rparr>) = (r, s)"
  shows "social_of s = \<lparr>friendships = {}, requests = {}\<rparr>"
proof -
  let ?I = "\<lambda>t :: 'db server. social_of t = \<lparr>friendships = {}, requests = {}\<rparr>"
  have "pres ?I load_file"
    by (rule pres_load_file) (simp_all add: social_of_def pending_requests_def are_friends_def friend_map_def store_loaded_def)
  moreover have "?I (initial_server\<lparr>users_file := f\<rparr>)"
    by (simp add: social_of_def are_friends_def friend_map_def initial_server_def pending_requests_def)
  ultimately have "?I (snd (load_file (initial_server\<lparr>users_file := f\<rparr>)))" by (rule presD)
  with assms show ?thesis by simp
qed

lemma cleanup_graph: "pres (graph_is g) (cleanup e cur)"
  unfolding cleanup_def by (intro pres_intros pres_modifyE gi.pres_notify graph_is_accounts(4))

lemma step_graph:
  assumes "step c c'" and "\<not> has_pg (c_server c)"
  shows "\<exists>ev. graph_is (social_next ev (social_of (c_server c))) (c_server c')"
  using assms(1)
proof (cases rule: step.cases)
  case (request fd k cur e h payload k' cur' s')
  then show ?thesis using dispatch_graph [OF assms(2), of e h payload cur fd] by auto
next
  case (logout fd k cur e h payload k' s')
  then obtain s1 where s1: "dispatch e fd h payload cur (c_server c) = (Inr (False, cur), s1)"
    by (metis prod.collapse)
  with logout have run: "cleanup e cur s1 = (Inr (), s')" by simp
  have "graph_is (social_next (request_event e h payload cur (c_server c)) (social_of (c_server c))) s1"
    using dispatch_graph [OF assms(2), of e h payload cur fd] s1 by simp
  from presD [OF cleanup_graph this, of e cur] logout(1) show ?thesis by (auto simp: run)
next
  case (close fd k cur e k' s')
  with graph_isD [OF cleanup_graph assms(2), of e cur] show ?thesis by (intro exI [of _ Nothing]) simp
next
  case (invalid fd k cur e h k' s')
  with graph_isD [OF pres_seqE [OF gi.pres_send cleanup_graph] assms(2),
      of fd "code ERROR" "''Invalid header''" 0 e cur] show ?thesis
    by (intro exI [of _ Nothing]) simp
next
  case (crash fd k cur e h payload k' ex s')
  then show ?thesis using dispatch_graph [OF assms(2), of e h payload cur fd] by auto
qed (use assms(2) in \<open>auto simp: graph_is_def intro!: exI [of _ Nothing]\<close>)

lemma reachable_graph:
  assumes "reachable s0 c" and "\<not> has_pg s0"
  shows "\<not> has_pg (c_server c) \<and> social_step\<^sup>*\<^sup>* (social_of s0) (social_of (c_server c))"
  using assms
proof (induction)
  case reach_init
  then show ?case by (simp add: started_def)
next
  case (reach_step c c')
  then obtain ev where "graph_is (social_next ev (social_of (c_server c))) (c_server c')"
    using step_graph by blast
  with reach_step show ?case
    by (auto simp: graph_is_def social_step_def intro: rtranclp.rtrancl_into_rtrancl)
qed

text \<open>
  A server that was started without a database never shows an open friend request between two users who
  are already friends, or of a user to itself, after any interleaving of requests: a request is refused
  between friends, and accepting one removes the requests of both directions.
\<close>

lemma no_requests_between_friends:
  assumes "startup lib retries delay port p (initial_server\<lparr>users_file := f\<rparr>) = (Inr w, s0)" and "\<not> has_pg s0"
    and "reachable s0 c" and "a \<in> set (pending_requests (c_server c) b)"
  shows "a \<noteq> b \<and> \<not> are_friends (c_server c) a b"
proof -
  obtain r where load: "load_file (initial_server\<lparr>users_file := f\<rparr>) = (r, s0)"
    using startup_memory [OF assms(1,2)] by blast
  have "social_ok (social_of s0)" using load_file_social [OF load] by (simp add: social_ok_def)
  then have "social_ok (social_of (c_server c))" using reachable_graph [OF assms(3,2)] social_steps_ok by blast
  with assms(4) show ?thesis by (auto simp: social_ok_def social_of_def)
qed

subsection \<open>Instances\<close>

theorem requests_refine_graph_witness:
  "social_of (snd (dispatch sample_env 5 (sent_header 0 (code FRIEND_ACCEPT) ''userId=2'' 0) ''userId=2'' 3 sample_server)) =
    social_next (Befriend 3 2) (social_of sample_server)"
proof -
  have "request_event sample_env (sent_header 0 (code FRIEND_ACCEPT) ''userId=2'' 0) ''userId=2'' 3 sample_server =
      Befriend 3 2"
    by code_simp
  with requests_refine_graph [OF has_pg_sample(1), of sample_env 5 "sent_header 0 (code FRIEND_ACCEPT) ''userId=2'' 0"
      "''userId=2''" 3] show ?thesis
    by (simp only:)
qed

end
