(* ===== verification/Group_Spec.thy ===== *)
theory Group_Spec
  imports Server_Loop
begin

text \<open>
  What the group requests promise, as a hall of rooms: every group is a room with a title, the people in
  it, its chiefs and the nicknames given in it, and every request is one transition of the hall, whose
  guards say who may do what. Without a database every request of the server acts on the hall of its
  group table as the event it stands for, and the event is read off the request alone.
\<close>

subsection \<open>The specification\<close>

record room =
  title :: string
  people :: "int set"
  chiefs :: "int set"
  nicks :: "int \<rightharpoonup> string"

text \<open>\<open>next_room\<close> is the id of the next room.\<close>

record hall =
  next_room :: int
  rooms :: "int \<rightharpoonup> room"

text \<open>In each event the first user acts, in the room with the second argument as its id.\<close>

datatype group_event =
    Open_room int string "int list"
  | Bring int int int
  | Enter int int
  | Retitle int int string
  | Nickname int int int string
  | Expel int int int
  | Promote int int int
  | Quit int int
  | No_change

definition people_in :: "hall \<Rightarrow> int \<Rightarrow> int set" where
  "people_in w gid = (case rooms w gid of None \<Rightarrow> {} | Some r \<Rightarrow> people r)"

definition chiefs_in :: "hall \<Rightarrow> int \<Rightarrow> int set" where
  "chiefs_in w gid = (case rooms w gid of None \<Rightarrow> {} | Some r \<Rightarrow> chiefs r)"

definition alter :: "int \<Rightarrow> (room \<Rightarrow> room) \<Rightarrow> hall \<Rightarrow> hall" where
  "alter gid f w = w\<lparr>rooms := (rooms w)(gid := map_option f (rooms w gid))\<rparr>"

fun hall_next :: "group_event \<Rightarrow> hall \<Rightarrow> hall" where
  "hall_next (Open_room a name ids) w =
     \<lparr>next_room = wrap_int32 (next_room w + 1),
      rooms = (rooms w)(next_room w \<mapsto>
        \<lparr>title = name, people = insert a (set ids), chiefs = {a}, nicks = Map.empty\<rparr>)\<rparr>"
| "hall_next (Bring a gid b) w =
     (if a \<in> people_in w gid then alter gid (people_update (insert b)) w else w)"
| "hall_next (Enter a gid) w = alter gid (people_update (insert a)) w"
| "hall_next (Retitle a gid name) w =
     (if a \<in> people_in w gid then alter gid (title_update (\<lambda>_. name)) w else w)"
| "hall_next (Nickname a gid b name) w =
     (if b \<in> people_in w gid then alter gid (nicks_update (\<lambda>m. m(b \<mapsto> name))) w else w)"
| "hall_next (Expel a gid b) w =
     (if a = b \<or> a \<in> chiefs_in w gid
      then alter gid (\<lambda>r. r\<lparr>people := people r - {b}, chiefs := chiefs r - {b}\<rparr>) w else w)"
| "hall_next (Promote a gid b) w =
     (if a \<in> chiefs_in w gid then alter gid (chiefs_update (insert b)) w else w)"
| "hall_next (Quit a gid) w =
     (if people_in w gid \<subseteq> {a} then w\<lparr>rooms := (rooms w)(gid := None)\<rparr>
      else alter gid (people_update (\<lambda>p. p - {a})) w)"
| "hall_next No_change w = w"

subsection \<open>Who the guards let through\<close>

lemma people_gained:
  assumes "u \<in> people_in (hall_next ev w) gid" and "u \<notin> people_in w gid"
  shows "(\<exists>a. ev = Bring a gid u \<and> a \<in> people_in w gid) \<or> ev = Enter u gid \<or>
    (\<exists>a name ids. ev = Open_room a name ids \<and> gid = next_room w)"
  using assms by (cases ev) (auto simp: people_in_def chiefs_in_def alter_def split: if_splits option.splits)

lemma people_lost:
  assumes "u \<notin> people_in (hall_next ev w) gid" and "u \<in> people_in w gid"
  shows "(\<exists>a. ev = Expel a gid u \<and> (a = u \<or> a \<in> chiefs_in w gid)) \<or> ev = Quit u gid \<or>
    (\<exists>a name ids. ev = Open_room a name ids \<and> gid = next_room w)"
  using assms by (cases ev) (auto simp: people_in_def chiefs_in_def alter_def split: if_splits option.splits)

lemma chiefs_gained:
  assumes "u \<in> chiefs_in (hall_next ev w) gid" and "u \<notin> chiefs_in w gid"
  shows "(\<exists>a. ev = Promote a gid u \<and> a \<in> chiefs_in w gid) \<or>
    (\<exists>name ids. ev = Open_room u name ids \<and> gid = next_room w)"
  using assms by (cases ev) (auto simp: people_in_def chiefs_in_def alter_def split: if_splits option.splits)

subsection \<open>The hall of a server and the event of a request\<close>

definition room_of :: "group \<Rightarrow> room" where
  "room_of g =
     \<lparr>title = g_name g, people = {u. um_count (g_members g) u}, chiefs = {u. um_at False (g_admins g) u},
      nicks = um_get (g_member_nicknames g)\<rparr>"

definition hall_of :: "'db server \<Rightarrow> hall" where
  "hall_of s = \<lparr>next_room = g_next_group_id s, rooms = (\<lambda>gid. map_option room_of (um_get (g_groups s) gid))\<rparr>"

text \<open>The ids of the payload; a malformed one is no event.\<close>

definition at_group :: "string \<Rightarrow> (int \<Rightarrow> group_event) \<Rightarrow> group_event" where
  "at_group payload ev =
     (case stoi (kv_at (parse_kv payload) ''groupId'') of Inl _ \<Rightarrow> No_change | Inr gid \<Rightarrow> ev gid)"

definition at_member :: "string \<Rightarrow> (int \<Rightarrow> int \<Rightarrow> group_event) \<Rightarrow> group_event" where
  "at_member payload ev = at_group payload (\<lambda>gid.
     case stoi (kv_at (parse_kv payload) ''userId'') of Inl _ \<Rightarrow> No_change | Inr uid \<Rightarrow> ev gid uid)"

definition open_event :: "'db env \<Rightarrow> string \<Rightarrow> int \<Rightarrow> group_event" where
  "open_event e payload a =
     (case parse_members (parse_kv payload) of
        Inl _ \<Rightarrow> No_change
      | Inr ids \<Rightarrow> Open_room a (if um_count (parse_kv payload) ''name'' then kv_at (parse_kv payload) ''name''
          else ''group_'' @ to_string (now_s e)) ids)"

definition group_event_of :: "'db env \<Rightarrow> header \<Rightarrow> string \<Rightarrow> u32 \<Rightarrow> group_event" where
  "group_event_of e h payload cur =
     (let a = int_of_u32 cur in
      case type_of_code (h_type h) of
        Some CREATE_GROUP \<Rightarrow> open_event e payload a
      | Some INVITE_TO_GROUP \<Rightarrow> at_member payload (Bring a)
      | Some ACCEPT_GROUP_INVITE \<Rightarrow> at_group payload (Enter a)
      | Some RENAME_GROUP \<Rightarrow> at_group payload (\<lambda>gid. Retitle a gid (kv_at (parse_kv payload) ''name''))
      | Some SET_GROUP_NICKNAME \<Rightarrow> at_member payload (\<lambda>gid u. Nickname a gid u (kv_at (parse_kv payload) ''nick''))
      | Some REMOVE_FROM_GROUP \<Rightarrow> at_member payload (Expel a)
      | Some MAKE_ADMIN \<Rightarrow> at_member payload (Promote a)
      | Some LEAVE_GROUP \<Rightarrow> at_group payload (Quit a)
      | _ \<Rightarrow> No_change)"

lemma people_of_server: "people_in (hall_of s) gid = {u. is_member s gid u}"
  by (simp add: people_in_def hall_of_def is_member_def room_of_def split: option.split)

lemma chiefs_of_server: "chiefs_in (hall_of s) gid = {u. is_admin s gid u}"
  by (simp add: chiefs_in_def hall_of_def is_admin_def room_of_def split: option.split)

lemma hall_frames [simp]:
  "hall_of (s\<lparr>outbox := x\<rparr>) = hall_of s" "hall_of (s\<lparr>activity := y\<rparr>) = hall_of s"
  "hall_of (s\<lparr>g_offline_messages := z\<rparr>) = hall_of s" "hall_of (s\<lparr>g_friends := f\<rparr>) = hall_of s"
  "hall_of (s\<lparr>g_pg_persistence := p\<rparr>) = hall_of s" "hall_of (s\<lparr>users_file := w\<rparr>) = hall_of s"
  "hall_of (s\<lparr>g_next_user_id := n\<rparr>) = hall_of s" "hall_of (s\<lparr>g_online_clients := c\<rparr>) = hall_of s"
  "hall_of (s\<lparr>g_friend_requests := r\<rparr>) = hall_of s" "hall_of (store_registered u fd s) = hall_of s"
  "hall_of (accept_memory a b s) = hall_of s" "hall_of (unfriend_memory a b s) = hall_of s"
  "hall_of (drop_request a b s) = hall_of s"
  by (simp_all add: hall_of_def store_registered_def accept_memory_def unfriend_memory_def drop_request_def
      set_friend_def clear_friend_def)

text \<open>An update of one group is the change of its room.\<close>

lemma hall_of_update:
  assumes "\<And>g. room_of (f g) = F (room_of g)"
  shows "hall_of (update_group gid f s) = alter gid F (hall_of s)"
  using assms by (auto simp: hall_of_def update_group_def alter_def fun_eq_iff split: option.split)

lemma hall_updates:
  "hall_of (update_group gid (add_member u) s) = alter gid (people_update (insert u)) (hall_of s)"
  "hall_of (update_group gid (\<lambda>g. g\<lparr>g_name := n\<rparr>) s) = alter gid (title_update (\<lambda>_. n)) (hall_of s)"
  "hall_of (update_group gid (\<lambda>g. g\<lparr>g_member_nicknames := um_put u n (g_member_nicknames g)\<rparr>) s) =
     alter gid (nicks_update (\<lambda>m. m(u \<mapsto> n))) (hall_of s)"
  "hall_of (update_group gid (drop_member u) s) =
     alter gid (\<lambda>r. r\<lparr>people := people r - {u}, chiefs := chiefs r - {u}\<rparr>) (hall_of s)"
  "hall_of (update_group gid (promote u) s) = alter gid (chiefs_update (insert u)) (hall_of s)"
  by (rule hall_of_update; auto simp: room_of_def add_member_def drop_member_def promote_def fun_eq_iff)+

lemma um_erase_Nil_iff: "um_erase k m = [] \<longleftrightarrow> {u. um_count m u} \<subseteq> {k}"
proof -
  have "um_erase k m = [] \<longleftrightarrow> set (um_keys (um_erase k m)) = {}" by (cases "um_erase k m") auto
  also have "\<dots> \<longleftrightarrow> set (um_keys m) - {k} = {}" by (simp only: um_key_erase)
  finally show ?thesis by (auto simp: um_count_iff_key)
qed

lemma hall_of_leave: "hall_of (snd (leave_memory gid a s)) = hall_next (Quit a gid) (hall_of s)"
proof (cases "um_get (g_groups s) gid")
  case None
  then show ?thesis by (auto simp: leave_memory_def hall_of_def people_in_def fun_eq_iff)
next
  case (Some g)
  then show ?thesis
    by (auto simp: leave_memory_def hall_of_def people_in_def alter_def room_of_def um_erase_Nil_iff fun_eq_iff)
qed

lemma um_count_fold_put:
  "um_count (fold (\<lambda>m. um_put m True) ids ms) uid = (uid \<in> set ids \<or> um_count ms uid)"
  by (induction ids arbitrary: ms) auto

lemma room_of_new: "room_of (new_group gid name a ids) =
    \<lparr>title = name, people = insert a (set ids), chiefs = {a}, nicks = Map.empty\<rparr>"
proof -
  have "um_get [] = Map.empty" by (rule ext) simp
  moreover have "um_count (um_put a True []) u = (u = a)" "um_at False (um_put a True []) u = (u = a)" for u
    by (auto simp: um_count_def um_at_def)
  ultimately show ?thesis by (auto simp: room_of_def new_group_def um_count_fold_put)
qed

text \<open>\<^verbatim>\<open>CREATE_GROUP\<close> without a database stores the group twice; the state after both stores.\<close>

definition stored_twice :: "string \<Rightarrow> int \<Rightarrow> int list \<Rightarrow> 'db server \<Rightarrow> 'db server" where
  "stored_twice name uid ids s =
     s\<lparr>g_next_group_id := wrap_int32 (g_next_group_id s + 1),
       g_groups := um_put (g_next_group_id s) (new_group (g_next_group_id s) name uid ids) (g_groups s)\<rparr>"

lemma um_put_twice [simp]: "um_put k v (um_put k w m) = um_put k v m"
  by (induction m) auto

lemma store_group_again:
  "\<not> has_pg s \<Longrightarrow> store_group (g_next_group_id s) name uid ids (stored_twice name uid ids s) =
     stored_twice name uid ids s"
  by (simp add: store_group_def stored_twice_def)

lemma hall_of_stored: "hall_of (stored_twice name a ids s) = hall_next (Open_room a name ids) (hall_of s)"
  by (auto simp: hall_of_def stored_twice_def room_of_new fun_eq_iff)

subsection \<open>Requests refine events\<close>

definition hall_is :: "hall \<Rightarrow> 'db server \<Rightarrow> bool" where
  "hall_is w s \<longleftrightarrow> \<not> has_pg s \<and> hall_of s = w"

text \<open>The announcements of a known group insert nothing.\<close>

definition hall_at :: "int \<Rightarrow> hall \<Rightarrow> 'db server \<Rightarrow> bool" where
  "hall_at gid w s \<longleftrightarrow> hall_is w s \<and> um_count (g_groups s) gid"

interpretation ha: account_inv "hall_is w"
  by unfold_locales (auto simp: hall_is_def dest: has_pg_Some)

interpretation hr: group_inv "hall_at gid w" gid
  by unfold_locales (auto simp: hall_at_def hall_is_def um_touch_def dest: has_pg_Some)

context group_inv
begin

lemma create_group_stored:
  assumes "\<not> has_pg s" and "gid = g_next_group_id s" and "parse_members (parse_kv payload) = Inr ids"
    and "I (stored_twice (if um_count (parse_kv payload) ''name'' then kv_at (parse_kv payload) ''name''
           else ''group_'' @ to_string (now_s e)) (int_of_u32 cur) ids s)"
  shows "I (snd (handle_CREATE_GROUP e fd payload cur s))"
proof -
  define name where "name = (if um_count (parse_kv payload) ''name'' then kv_at (parse_kv payload) ''name''
    else ''group_'' @ to_string (now_s e))"
  let ?s' = "stored_twice name (int_of_u32 cur) ids s"
  have alloc: "allocate_group e name (int_of_u32 cur) ids s = (Inr (Some gid), ?s')"
    using assms(1,2) by (simp add: allocate_group_def stored_twice_def)
  have tail: "pres I (seqE (log_activity a x d) (seqE (send fd ty p cur)
      (catch_all (bindE (getsE (\<lambda>s. actor_name s cur)) (\<lambda>actor.
        bindE (system_broadcast e gid (actor @ '' created the group'')) (\<lambda>_. retE ()))))))" for a x d ty p
    by (intro pres_intros pres_comm pres_system_broadcast)
  have "I ?s'" using assms(4) unfolding name_def .
  then show ?thesis
    using presD [OF pres_send \<open>I ?s'\<close>] presD [OF tail \<open>I ?s'\<close>] assms(3) alloc
    by (simp add: handle_CREATE_GROUP_def Let_def name_def [symmetric] assms(2) store_group_again [OF assms(1)])
qed

end

lemma create_refines:
  assumes "\<not> has_pg s"
  shows "hall_is (hall_next (open_event e payload (int_of_u32 cur)) (hall_of s)) (snd (handle_CREATE_GROUP e fd payload cur s))"
proof (cases "parse_members (parse_kv payload)")
  case (Inl ex)
  with assms show ?thesis by (simp add: handle_CREATE_GROUP_def open_event_def Let_def hall_is_def)
next
  case (Inr ids)
  let ?ev = "open_event e payload (int_of_u32 cur)"
  have "hall_at (g_next_group_id s) (hall_next ?ev (hall_of s)) (snd (handle_CREATE_GROUP e fd payload cur s))"
    by (rule hr.create_group_stored [OF assms refl Inr])
      (use Inr assms in \<open>simp add: hall_at_def hall_is_def hall_of_stored open_event_def del: hall_next.simps,
        simp add: stored_twice_def has_pg_def\<close>)
  then show ?thesis by (simp add: hall_at_def)
qed

lemma hall_sends: "\<not> has_pg s \<Longrightarrow> hall_of s = w \<Longrightarrow> hall_is w (snd (send fd ty p u s))"
  by (rule presD [OF ha.pres_send]) (simp add: hall_is_def)

lemma leave_refines:
  assumes "\<not> has_pg s"
  shows "hall_is (hall_next (at_group payload (Quit (int_of_u32 cur))) (hall_of s)) (snd (handle_LEAVE_GROUP e fd payload cur s))"
proof (cases "stoi (kv_at (parse_kv payload) ''groupId'')")
  case (Inl ex)
  with assms show ?thesis by (simp add: handle_LEAVE_GROUP_def at_group_def hall_is_def)
next
  case (Inr gid)
  obtain ok deleted s' where run: "leave_memory gid (int_of_u32 cur) s = (Inr (ok, deleted), s')"
    by (cases "um_get (g_groups s) gid"; cases "um_erase (int_of_u32 cur) (g_members (the (um_get (g_groups s) gid))) = []")
      (auto simp: leave_memory_def Let_def)
  have mem: "\<not> has_pg s'"
    using run assms by (auto simp: leave_memory_def Let_def split: option.splits if_splits)
  have left: "hall_of s' = hall_next (Quit (int_of_u32 cur) gid) (hall_of s)"
    using hall_of_leave [of gid "int_of_u32 cur" s] run by (simp del: hall_next.simps)
  with mem run Inr show ?thesis
    by (simp add: handle_LEAVE_GROUP_def at_group_def hall_sends run_bindE_Inr [of "getsE has_pg" s' False s']
        del: hall_next.simps code.simps)
qed

text \<open>
  The other requests check their guard, update one group, announce it and reply; the guard of the
  model is the guard of the event.
\<close>

lemma updated_refines:
  assumes "\<not> has_pg s" and "um_count (g_groups s) gid" and "hall_of (update_group gid f s) = w"
    and "pres (hall_at gid w) m"
  shows "hall_is w (snd (m (update_group gid f s)))"
proof -
  have "hall_at gid w (update_group gid f s)"
    using assms(1-3) by (auto simp: hall_at_def hall_is_def update_group_def has_pg_def um_count_def split: option.split)
  from presD [OF assms(4) this] show ?thesis by (simp add: hall_at_def)
qed

lemma is_member_known: "is_member s gid u \<Longrightarrow> um_count (g_groups s) gid"
  by (simp add: is_member_def um_count_def split: option.splits)

lemma is_admin_known: "is_admin s gid u \<Longrightarrow> um_count (g_groups s) gid"
  by (simp add: is_admin_def um_count_def split: option.splits)

lemma group_unknown:
  "\<not> um_count (g_groups s) gid \<Longrightarrow> update_group gid f s = s"
  "\<not> um_count (g_groups s) gid \<Longrightarrow> alter gid F (hall_of s) = hall_of s"
  by (simp_all add: update_group_def alter_def hall_of_def um_count_def fun_eq_iff)

text \<open>One request per line of the table: its guard, its update and its announcements.\<close>

lemma invite_refines:
  assumes "\<not> has_pg s"
  shows "hall_is (hall_next (at_member payload (Bring (int_of_u32 cur))) (hall_of s)) (snd (handle_INVITE_TO_GROUP e fd payload cur s))"
proof -
  have tail: "pres (hall_at gid w) (seqE (notify_invited gid u cur) (seqE (announce_added e gid u cur)
      (send fd (code SUCCESS) ''Added'' cur)))" for gid u w
    by (intro pres_seqE hr.pres_announce hr.pres_send)
  from assms updated_refines [OF assms is_member_known hall_updates(1) tail] show ?thesis
    by (auto simp: handle_INVITE_TO_GROUP_def at_member_def at_group_def people_of_server Let_def hall_is_def [of _ s]
        hall_sends simp del: code.simps split: sum.split)
qed

lemma rename_refines:
  assumes "\<not> has_pg s"
  shows "hall_is (hall_next (at_group payload (\<lambda>gid. Retitle (int_of_u32 cur) gid (kv_at (parse_kv payload) ''name''))) (hall_of s))
    (snd (handle_RENAME_GROUP e fd payload cur s))"
proof -
  have tail: "pres (hall_at gid w) (seqE (if_pg (pg_rename_group (pq e) gid n)) (seqE (announce_rename e gid n cur)
      (send fd (code SUCCESS) ''Renamed'' cur)))" for gid n w
    by (intro pres_seqE hr.pres_announce hr.pres_send hr.pres_if_pg)
  from assms updated_refines [OF assms is_member_known hall_updates(2) tail] show ?thesis
    by (auto simp: handle_RENAME_GROUP_def at_group_def people_of_server Let_def hall_is_def [of _ s]
        hall_sends simp del: code.simps split: sum.split)
qed

lemma nickname_refines:
  assumes "\<not> has_pg s"
  shows "hall_is (hall_next (at_member payload (\<lambda>gid u. Nickname (int_of_u32 cur) gid u (kv_at (parse_kv payload) ''nick'')))
      (hall_of s)) (snd (handle_SET_GROUP_NICKNAME e fd payload cur s))"
proof -
  have tail: "pres (hall_at gid w) (seqE (if_pg (pg_set_group_nickname (pq e) gid u n)) (seqE (announce_nickname e gid u n cur)
      (send fd (code SUCCESS) ''Nickname set'' cur)))" for gid u n w
    by (intro pres_seqE hr.pres_announce hr.pres_send hr.pres_if_pg)
  from assms updated_refines [OF assms is_member_known hall_updates(3) tail] show ?thesis
    by (auto simp: handle_SET_GROUP_NICKNAME_def at_member_def at_group_def people_of_server Let_def hall_is_def [of _ s]
        hall_sends simp del: code.simps split: sum.split)
qed

lemma remove_refines:
  assumes "\<not> has_pg s"
  shows "hall_is (hall_next (at_member payload (Expel (int_of_u32 cur))) (hall_of s)) (snd (handle_REMOVE_FROM_GROUP e fd payload cur s))"
proof -
  have tail: "pres (hall_at gid w) (seqE (announce_removed e gid u cur) (seqE (notify_removed e gid u)
      (send fd (code SUCCESS) ''Removed'' cur)))" for gid u w
    by (intro pres_seqE hr.pres_announce hr.pres_send)
  from assms updated_refines [OF assms _ hall_updates(4) tail] show ?thesis
    by (auto simp: handle_REMOVE_FROM_GROUP_def remove_permitted_def at_member_def at_group_def chiefs_of_server Let_def
        hall_is_def [of _ s] hall_sends group_unknown is_admin_known simp del: code.simps split: sum.split)
qed

lemma make_admin_refines:
  assumes "\<not> has_pg s"
  shows "hall_is (hall_next (at_member payload (Promote (int_of_u32 cur))) (hall_of s)) (snd (handle_MAKE_ADMIN e fd payload cur s))"
proof -
  have tail: "pres (hall_at gid w) (seqE (announce_admin e gid u cur) (send fd (code SUCCESS) ''Made admin'' cur))" for gid u w
    by (intro pres_seqE hr.pres_announce hr.pres_send)
  from assms updated_refines [OF assms is_admin_known hall_updates(5) tail] show ?thesis
    by (auto simp: handle_MAKE_ADMIN_def admin_permitted_def at_member_def at_group_def chiefs_of_server Let_def
        hall_is_def [of _ s] hall_sends simp del: code.simps split: sum.split)
qed

lemma accept_refines:
  assumes "\<not> has_pg s"
  shows "hall_is (hall_next (at_group payload (Enter (int_of_u32 cur))) (hall_of s)) (snd (handle_ACCEPT_GROUP_INVITE e fd payload cur s))"
proof -
  have tail: "pres (hall_at gid w) (seqE (notify_joined e gid u cur) (send fd (code SUCCESS) ''Accepted'' cur))" for gid u w
    by (intro pres_seqE hr.pres_announce hr.pres_send)
  from assms updated_refines [OF assms _ hall_updates(1) tail] show ?thesis
    by (auto simp: handle_ACCEPT_GROUP_INVITE_def accept_invite_def at_group_def Let_def
        hall_is_def [of _ s] hall_sends group_unknown simp del: code.simps split: sum.split)
qed

lemma hall_kept: "pres (hall_is (hall_of s)) m \<Longrightarrow> \<not> has_pg s \<Longrightarrow> hall_is (hall_of s) (snd (m s))"
  by (erule presD) (simp add: hall_is_def)

lemma dispatch_hall:
  assumes "\<not> has_pg s"
  shows "hall_is (hall_next (group_event_of e h payload cur) (hall_of s)) (snd (dispatch e fd h payload cur s))"
proof (cases "type_of_code (h_type h)")
  case None
  with hall_kept [OF ha.pres_default assms] show ?thesis by (simp add: dispatch_def group_event_of_def stay_def)
next
  case (Some t)
  note refines = create_refines invite_refines accept_refines rename_refines nickname_refines remove_refines
    make_admin_refines leave_refines
  from Some assms show ?thesis
    by (cases t)
      (simp_all add: dispatch_def group_event_of_def stay_def switch_user_def hall_kept ha.pres_account_handlers
        ha.pres_default refines del: hall_next.simps(1-8))
qed

text \<open>
  C3: the server refines the hall, without a database. Every request, of any type and with any payload,
  changes the groups of its table (their names, members, admins, nicknames and the next id) exactly as the
  event it stands for changes the hall, with the guards of the specification: it takes a member to invite or
  to rename, an admin to promote or to remove somebody else, and a group is erased when its last member
  leaves. Requests that stand for no event leave all groups alone, also those that end in an exception.
\<close>

theorem requests_refine_groups:
  assumes "\<not> has_pg s"
  shows "hall_of (snd (dispatch e fd h payload cur s)) = hall_next (group_event_of e h payload cur) (hall_of s)"
  using dispatch_hall [OF assms] by (simp add: hall_is_def)

subsection \<open>Instances\<close>

theorem requests_refine_groups_witness:
  "hall_of (snd (dispatch sample_env 4 (sent_header 0 (code REMOVE_FROM_GROUP) ''groupId=7&userId=2'' 0)
      ''groupId=7&userId=2'' 1 sample_server)) = hall_next (Expel 1 7 2) (hall_of sample_server)"
proof -
  let ?m = "''groupId=7&userId=2''"
  have "group_event_of sample_env (sent_header 0 (code REMOVE_FROM_GROUP) ?m 0) ?m 1 = Expel 1 7 2" by code_simp
  with requests_refine_groups [OF has_pg_sample(1), of sample_env 4 "sent_header 0 (code REMOVE_FROM_GROUP) ?m 0" ?m 1]
  show ?thesis by (simp only:)
qed

end
