(* ===== verification/Group_Safety.thy ===== *)
theory Group_Safety
  imports Group_Spec
begin

text \<open>
  Who can change a group when the server runs without a database, where the maps in memory decide:
  the requests that can give or take a membership or admin rights, and under which condition on the
  sender. Each statement is about \<^const>\<open>dispatch\<close>, so it covers every message type; they follow from the
  guards of the specification in \<open>Group_Spec\<close> through the refinement.
\<close>

subsection \<open>Requests behind an event\<close>

lemma group_event_inversion:
  "group_event_of e h payload cur = Bring a gid u \<Longrightarrow>
    h_type h = code INVITE_TO_GROUP \<and> a = int_of_u32 cur \<and> stoi (kv_at (parse_kv payload) ''userId'') = Inr u"
  "group_event_of e h payload cur = Enter a gid \<Longrightarrow> h_type h = code ACCEPT_GROUP_INVITE \<and> a = int_of_u32 cur"
  "group_event_of e h payload cur = Expel a gid u \<Longrightarrow> h_type h = code REMOVE_FROM_GROUP \<and> a = int_of_u32 cur"
  "group_event_of e h payload cur = Quit a gid \<Longrightarrow> h_type h = code LEAVE_GROUP \<and> a = int_of_u32 cur"
  "group_event_of e h payload cur = Promote a gid u \<Longrightarrow> h_type h = code MAKE_ADMIN \<and> a = int_of_u32 cur"
  "group_event_of e h payload cur = Open_room a name ids \<Longrightarrow> h_type h = code CREATE_GROUP \<and> a = int_of_u32 cur"
  by (auto simp: group_event_of_def at_member_def at_group_def open_event_def Let_def type_of_code_Some simp del: code.simps
      split: option.splits MessageType.splits sum.splits)

lemma observed_after:
  assumes "\<not> has_pg s"
  shows "is_member (snd (dispatch e fd h payload cur s)) gid uid \<longleftrightarrow>
      uid \<in> people_in (hall_next (group_event_of e h payload cur) (hall_of s)) gid"
    and "is_admin (snd (dispatch e fd h payload cur s)) gid uid \<longleftrightarrow>
      uid \<in> chiefs_in (hall_next (group_event_of e h payload cur) (hall_of s)) gid"
  using dispatch_hall [OF assms, of e h payload cur fd]
    people_of_server [of "snd (dispatch e fd h payload cur s)" gid]
    chiefs_of_server [of "snd (dispatch e fd h payload cur s)" gid]
  by (simp_all add: hall_is_def)

lemma next_room_of_server: "next_room (hall_of s) = g_next_group_id s"
  by (simp add: hall_of_def)

lemmas observed = people_of_server chiefs_of_server next_room_of_server

subsection \<open>Admin rights\<close>

text \<open>
  C4: without a database, admin rights are only gained in two ways: an admin of the group sends
  \<^verbatim>\<open>MAKE_ADMIN\<close>, or the user creates the group. No other message type, payload or header gives
  admin rights to anybody.
\<close>

theorem admin_rights_only_from_admins:
  assumes "\<not> has_pg s" and "\<not> is_admin s gid uid"
    and "is_admin (snd (dispatch e fd h payload cur s)) gid uid"
  shows "(h_type h = code MAKE_ADMIN \<and> is_admin s gid (int_of_u32 cur)) \<or>
    (h_type h = code CREATE_GROUP \<and> gid = g_next_group_id s \<and> uid = int_of_u32 cur)"
proof -
  let ?ev = "group_event_of e h payload cur"
  have "uid \<in> chiefs_in (hall_next ?ev (hall_of s)) gid" "uid \<notin> chiefs_in (hall_of s) gid"
    using assms by (simp_all add: observed_after observed)
  from chiefs_gained [OF this] show ?thesis
    by (auto simp: observed simp del: code.simps dest!: group_event_inversion)
qed

subsection \<open>Membership\<close>

text \<open>
  C23: without a database, a user becomes a member of a group only when a member invites exactly
  that user, when the user sends \<^verbatim>\<open>ACCEPT_GROUP_INVITE\<close> itself, or when the group is created.
\<close>

theorem membership_only_gained:
  assumes "\<not> has_pg s" and "\<not> is_member s gid uid"
    and "is_member (snd (dispatch e fd h payload cur s)) gid uid"
  shows "(h_type h = code INVITE_TO_GROUP \<and> is_member s gid (int_of_u32 cur) \<and>
      stoi (kv_at (parse_kv payload) ''userId'') = Inr uid) \<or>
    (h_type h = code ACCEPT_GROUP_INVITE \<and> uid = int_of_u32 cur) \<or>
    (h_type h = code CREATE_GROUP \<and> gid = g_next_group_id s)"
proof -
  let ?ev = "group_event_of e h payload cur"
  have "uid \<in> people_in (hall_next ?ev (hall_of s)) gid" "uid \<notin> people_in (hall_of s) gid"
    using assms by (simp_all add: observed_after observed)
  from people_gained [OF this] show ?thesis
    by (auto simp: observed simp del: code.simps dest!: group_event_inversion)
qed

text \<open>
  C24: without a database, a member is only removed from a group by its own \<^verbatim>\<open>LEAVE_GROUP\<close> or
  \<^verbatim>\<open>REMOVE_FROM_GROUP\<close>, or by the \<^verbatim>\<open>REMOVE_FROM_GROUP\<close> of an admin of that group, or because a
  \<^verbatim>\<open>CREATE_GROUP\<close> stores its new group under the number of this one.
\<close>

theorem membership_only_lost:
  assumes "\<not> has_pg s" and "is_member s gid uid"
    and "\<not> is_member (snd (dispatch e fd h payload cur s)) gid uid"
  shows "(h_type h = code REMOVE_FROM_GROUP \<and> (uid = int_of_u32 cur \<or> is_admin s gid (int_of_u32 cur))) \<or>
    (h_type h = code LEAVE_GROUP \<and> uid = int_of_u32 cur) \<or>
    (h_type h = code CREATE_GROUP \<and> gid = g_next_group_id s)"
proof -
  let ?ev = "group_event_of e h payload cur"
  have "uid \<notin> people_in (hall_next ?ev (hall_of s)) gid" "uid \<in> people_in (hall_of s) gid"
    using assms by (simp_all add: observed_after observed)
  from people_lost [OF this] show ?thesis
    by (auto simp: observed simp del: code.simps dest!: group_event_inversion)
qed

subsection \<open>Instances\<close>

text \<open>The theorems on the sample server: their hypotheses hold there.\<close>

theorem admin_rights_only_from_admins_witness:
  "is_admin (snd (dispatch sample_env 4 (sent_header 0 (code MAKE_ADMIN) ''groupId=7&userId=2'' 0)
      ''groupId=7&userId=2'' 1 sample_server)) 7 2 \<and> is_admin sample_server 7 1"
proof -
  let ?m = "''groupId=7&userId=2''"
  have no: "\<not> is_admin sample_server 7 2" and one: "int_of_u32 1 = 1" by code_simp+
  have now: "is_admin (snd (dispatch sample_env 4 (sent_header 0 (code MAKE_ADMIN) ?m 0) ?m 1 sample_server)) 7 2"
    by code_simp
  from admin_rights_only_from_admins [OF has_pg_sample(1) no now] now one show ?thesis
    by (simp del: code.simps)
qed

theorem membership_only_gained_witness:
  "is_member (snd (dispatch sample_env 4 (sent_header 0 (code INVITE_TO_GROUP) ''groupId=7&userId=3'' 0)
      ''groupId=7&userId=3'' 1 sample_server)) 7 3 \<and> is_member sample_server 7 1"
proof -
  let ?m = "''groupId=7&userId=3''"
  have no: "\<not> is_member sample_server 7 3" and one: "int_of_u32 1 = 1" by code_simp+
  have now: "is_member (snd (dispatch sample_env 4 (sent_header 0 (code INVITE_TO_GROUP) ?m 0) ?m 1 sample_server)) 7 3"
    by code_simp
  from membership_only_gained [OF has_pg_sample(1) no now] now one show ?thesis
    by (simp del: code.simps)
qed

theorem membership_only_lost_witness:
  "\<not> is_member (snd (dispatch sample_env 4 (sent_header 0 (code REMOVE_FROM_GROUP) ''groupId=7&userId=2'' 0)
      ''groupId=7&userId=2'' 1 sample_server)) 7 2 \<and> is_admin sample_server 7 1"
proof -
  let ?m = "''groupId=7&userId=2''"
  have mem: "is_member sample_server 7 2" and one: "int_of_u32 1 = 1" by code_simp+
  have now: "\<not> is_member (snd (dispatch sample_env 4 (sent_header 0 (code REMOVE_FROM_GROUP) ?m 0) ?m 1 sample_server)) 7 2"
    by code_simp
  from membership_only_lost [OF has_pg_sample(1) mem now] now one show ?thesis
    by (simp del: code.simps)
qed

end
