(* ===== verification/Delivery.thy ===== *)
theory Delivery
  imports Server_Loop
begin

text \<open>
  What reaches whom: the exact effect of \<^const>\<open>deliver\<close> and \<^const>\<open>broadcast\<close>, of a direct and of a group
  message, and of a login on the queue of the messages that arrived while the user was away.
\<close>

subsection \<open>Sending and queueing\<close>

abbreviation sent_msg :: "int \<Rightarrow> u8 \<Rightarrow> string \<Rightarrow> u32 \<Rightarrow> sent" where
  "sent_msg fd ty payload from \<equiv> \<lparr>s_fd = fd, s_type = ty, s_payload = payload, s_userId = from\<rparr>"

abbreviation queued_msg :: "u8 \<Rightarrow> string \<Rightarrow> u32 \<Rightarrow> pending_msg" where
  "queued_msg ty payload from \<equiv> \<lparr>pm_type = ty, pm_payload = payload, pm_fromUserId = from\<rparr>"

lemma run_send [simp]: "send fd ty p u s = (Inr (), s\<lparr>outbox := outbox s @ [sent_msg fd ty p u]\<rparr>)"
  by (simp add: send_def)

lemma run_log [simp]: "log_activity a u d s = (Inr (), s\<lparr>activity := activity s @ [(a, u, d)]\<rparr>)"
  by (simp add: log_activity_def)

lemma online_fd_frames [simp]:
  "online_fd (s\<lparr>outbox := x\<rparr>) = online_fd s" "online_fd (s\<lparr>activity := y\<rparr>) = online_fd s"
  "online_fd (s\<lparr>g_offline_messages := z\<rparr>) = online_fd s" "online_fd (s\<lparr>g_friends := f\<rparr>) = online_fd s"
  by (simp_all add: fun_eq_iff online_fd_def)

lemma offline_queue_frames [simp]:
  "offline_queue (s\<lparr>outbox := x\<rparr>) = offline_queue s" "offline_queue (s\<lparr>activity := y\<rparr>) = offline_queue s"
  "offline_queue (s\<lparr>g_online_clients := z\<rparr>) = offline_queue s"
  "offline_queue (s\<lparr>g_friends := f\<rparr>) = offline_queue s"
  by (simp_all add: fun_eq_iff offline_queue_def)

lemma offline_queue_put [simp]:
  "offline_queue (s\<lparr>g_offline_messages := um_put k q m\<rparr>) u =
     (if u = k then q else um_at [] m u)"
  by (simp add: offline_queue_def)

text \<open>The part of the state that message delivery does not touch.\<close>

definition tables :: "'db server \<Rightarrow> _" where
  "tables s = (g_pg_persistence s, g_users_by_name s, g_users_by_id s, g_next_user_id s, g_friends s,
     g_friend_requests s, g_online_clients s, g_groups s, g_next_group_id s, users_file s)"

lemma tables_frames [simp]:
  "tables (s\<lparr>outbox := x\<rparr>) = tables s" "tables (s\<lparr>activity := y\<rparr>) = tables s"
  "tables (s\<lparr>g_offline_messages := z\<rparr>) = tables s"
  by (simp_all add: tables_def)

lemma tables_online: "tables s = tables t \<Longrightarrow> online_fd s = online_fd t"
  by (simp add: tables_def fun_eq_iff online_fd_def)


abbreviation is_online :: "'db server \<Rightarrow> int \<Rightarrow> bool" where
  "is_online s u \<equiv> online_fd s u \<noteq> - 1"

lemma deliver_effect:
  "\<exists>t. deliver ty p from u s = (Inr (), t) \<and> tables t = tables s \<and> activity t = activity s \<and>
     outbox t = outbox s @ (if is_online s u then [sent_msg (online_fd s u) ty p from] else []) \<and>
     (\<forall>v. offline_queue t v = offline_queue s v @
        (if v = u \<and> \<not> is_online s u then [queued_msg ty p from] else []))"
  by (simp add: deliver_def enqueue_offline_def) (simp add: offline_queue_def)

text \<open>Every listed user that is online gets one copy on its socket, in the order of the list; every
  listed user that is not gets one in its queue.\<close>

lemma broadcast_effect:
  assumes "distinct ids"
  shows "\<exists>t. broadcast ty p from ids s = (Inr (), t) \<and> tables t = tables s \<and> activity t = activity s \<and>
     outbox t = outbox s @ map (\<lambda>u. sent_msg (online_fd s u) ty p from) (filter (is_online s) ids) \<and>
     (\<forall>v. offline_queue t v = offline_queue s v @
        (if v \<in> set ids \<and> \<not> is_online s v then [queued_msg ty p from] else []))"
  using assms unfolding broadcast_def
proof (induction ids arbitrary: s)
  case Nil
  then show ?case by simp
next
  case (Cons u ids)
  obtain t where t: "deliver ty p from u s = (Inr (), t)" "tables t = tables s" "activity t = activity s"
    "outbox t = outbox s @ (if is_online s u then [sent_msg (online_fd s u) ty p from] else [])"
    "\<forall>v. offline_queue t v = offline_queue s v @
        (if v = u \<and> \<not> is_online s u then [queued_msg ty p from] else [])"
    using deliver_effect by blast
  have on: "online_fd t = online_fd s" by (rule tables_online) (rule t(2))
  from Cons.IH [of t] Cons.prems obtain t' where t': "forE ids (deliver ty p from) t = (Inr (), t')"
    "tables t' = tables t" "activity t' = activity t"
    "outbox t' = outbox t @ map (\<lambda>u. sent_msg (online_fd t u) ty p from) (filter (is_online t) ids)"
    "\<forall>v. offline_queue t' v = offline_queue t v @
        (if v \<in> set ids \<and> \<not> is_online t v then [queued_msg ty p from] else [])"
    by auto
  have "forE (u # ids) (deliver ty p from) s = (Inr (), t')"
    using t(1) t'(1) by simp
  moreover have "outbox t' = outbox s @ map (\<lambda>u. sent_msg (online_fd s u) ty p from) (filter (is_online s) (u # ids))"
    using t(4) t'(4) by (simp add: on)
  moreover have "\<forall>v. offline_queue t' v = offline_queue s v @
        (if v \<in> set (u # ids) \<and> \<not> is_online s v then [queued_msg ty p from] else [])"
    using t(5) t'(5) Cons.prems by (auto simp: on)
  ultimately show ?case
    using t(2,3) t'(2,3) by (metis (no_types, lifting))
qed

subsection \<open>Direct messages\<close>

definition dm_payload :: "'db env \<Rightarrow> u32 \<Rightarrow> string \<Rightarrow> string" where
  "dm_payload e cur payload =
     serialize_kv [(''senderId'', to_string (int_of_u32 cur)),
                   (''message'', kv_at (parse_kv payload) ''message''),
                   (''timestamp'', to_string (now_s e))]"

lemma dm_run:
  assumes "\<not> has_pg s" and "stoi (kv_at (parse_kv payload) ''recipientId'') = Inr r"
  shows "\<exists>t. handle_DIRECT_MESSAGE e fd payload cur s = (Inr (), t) \<and> tables t = tables s \<and>
    outbox t = outbox s @
      (if is_online s r then [sent_msg (online_fd s r) (code DIRECT_MESSAGE) (dm_payload e cur payload) cur] else []) @
      [sent_msg fd (code SUCCESS) ''Message sent'' cur] \<and>
    (\<forall>v. offline_queue t v = offline_queue s v @
      (if v = r \<and> \<not> is_online s r then [queued_msg (code DIRECT_MESSAGE) (dm_payload e cur payload) cur] else []))"
proof -
  obtain t where "deliver (code DIRECT_MESSAGE) (dm_payload e cur payload) cur r s = (Inr (), t)"
    "tables t = tables s" "outbox t = outbox s @ (if is_online s r
      then [sent_msg (online_fd s r) (code DIRECT_MESSAGE) (dm_payload e cur payload) cur] else [])"
    "\<forall>v. offline_queue t v = offline_queue s v @ (if v = r \<and> \<not> is_online s r
      then [queued_msg (code DIRECT_MESSAGE) (dm_payload e cur payload) cur] else [])"
    using deliver_effect by blast
  then show ?thesis
    using assms by (auto simp: handle_DIRECT_MESSAGE_def Let_def dm_payload_def simp del: code.simps)
qed

text \<open>
  C7: a direct message without a database. The recipient gets exactly one copy: on its socket if it
  is online, in its queue if not; nobody else's queue changes; the sender gets one confirmation, last;
  and the tables of the server stay as they are.
\<close>

theorem direct_message_delivered:
  assumes "\<not> has_pg s" and "stoi (kv_at (parse_kv payload) ''recipientId'') = Inr r"
  shows "\<exists>t. handle_DIRECT_MESSAGE e fd payload cur s = (Inr (), t) \<and> tables t = tables s \<and>
    outbox t = outbox s @
      (if is_online s r then [sent_msg (online_fd s r) (code DIRECT_MESSAGE) (dm_payload e cur payload) cur] else []) @
      [sent_msg fd (code SUCCESS) ''Message sent'' cur] \<and>
    (\<forall>v. offline_queue t v = offline_queue s v @
      (if v = r \<and> \<not> is_online s r then [queued_msg (code DIRECT_MESSAGE) (dm_payload e cur payload) cur] else []))"
  by (rule dm_run [OF assms])

lemma dm_payload_reads:
  "kv_at (parse_kv (dm_payload e cur payload)) ''senderId'' = to_string (int_of_u32 cur)"
  "kv_at (parse_kv (dm_payload e cur payload)) ''message'' = kv_at (parse_kv payload) ''message''"
  by (simp_all add: dm_payload_def kv_at_serialize kv_at_clean)

lemma if_pg_effect: "\<exists>p. snd (if_pg op s) = s\<lparr>g_pg_persistence := p\<rparr>"
proof (cases "g_pg_persistence s")
  case None
  then show ?thesis by (intro exI [of _ None]) (simp add: has_pg_def)
next
  case (Some p)
  then show ?thesis
    by (auto simp: if_pg_def whenE_def has_pg_def pg_call_def split: prod.split)
qed

lemma offline_pg_frame [simp]: "offline_queue (s\<lparr>g_pg_persistence := p\<rparr>) = offline_queue s"
  "online_fd (s\<lparr>g_pg_persistence := p\<rparr>) = online_fd s"
  by (simp_all add: fun_eq_iff offline_queue_def online_fd_def)

text \<open>The state after a direct message, with and without a database: an exception, or one delivery and a confirmation.\<close>

lemma dm_effect:
  obtains "outbox (snd (handle_DIRECT_MESSAGE e fd payload cur s)) = outbox s"
    "offline_queue (snd (handle_DIRECT_MESSAGE e fd payload cur s)) = offline_queue s"
  | rid where "outbox (snd (handle_DIRECT_MESSAGE e fd payload cur s)) = outbox s @
      (if is_online s rid then [sent_msg (online_fd s rid) (code DIRECT_MESSAGE) (dm_payload e cur payload) cur] else []) @
      [sent_msg fd (code SUCCESS) ''Message sent'' cur]"
    "\<forall>v. offline_queue (snd (handle_DIRECT_MESSAGE e fd payload cur s)) v = offline_queue s v @
      (if v = rid \<and> \<not> is_online s rid then [queued_msg (code DIRECT_MESSAGE) (dm_payload e cur payload) cur] else [])"
proof (cases "stoi (kv_at (parse_kv payload) ''recipientId'')")
  case (Inl ex)
  with that(1) show thesis by (simp add: handle_DIRECT_MESSAGE_def Let_def)
next
  case (Inr rid)
  let ?save = "if_pg (pg_save_message (pq e) (int_of_u32 cur) rid (kv_at (parse_kv payload) ''message'') (now_s e * 1000))"
  obtain ex p where save: "?save s = (ex, s\<lparr>g_pg_persistence := p\<rparr>)"
    using if_pg_effect by (metis prod.collapse)
  obtain u where u: "deliver (code DIRECT_MESSAGE) (dm_payload e cur payload) cur rid (s\<lparr>g_pg_persistence := p\<rparr>) = (Inr (), u)"
    "outbox u = outbox s @ (if is_online s rid then [sent_msg (online_fd s rid) (code DIRECT_MESSAGE) (dm_payload e cur payload) cur] else [])"
    "\<forall>v. offline_queue u v = offline_queue s v @
      (if v = rid \<and> \<not> is_online s rid then [queued_msg (code DIRECT_MESSAGE) (dm_payload e cur payload) cur] else [])"
    using deliver_effect [of "code DIRECT_MESSAGE" "dm_payload e cur payload" cur rid "s\<lparr>g_pg_persistence := p\<rparr>"]
    by auto
  show thesis
  proof (cases ex)
    case (Inl a)
    with Inr save that(1) show thesis by (auto simp: handle_DIRECT_MESSAGE_def Let_def)
  next
    case Inr': (Inr a)
    with Inr save u(1) have "snd (handle_DIRECT_MESSAGE e fd payload cur s) =
        u\<lparr>activity := activity u @ [(''DIRECT_MESSAGE'', int_of_u32 cur, ''to_userId='' @ to_string rid)],
          outbox := outbox u @ [sent_msg fd (code SUCCESS) ''Message sent'' cur]\<rparr>"
      by (auto simp: handle_DIRECT_MESSAGE_def Let_def dm_payload_def simp del: code.simps)
    with u(2,3) that(2) [of rid] show thesis by (simp del: code.simps)
  qed
qed

text \<open>
  C25: with and without a database, every copy of a direct message that a \<^verbatim>\<open>DIRECT_MESSAGE\<close> request sends at once or
  leaves in a queue carries the id of the connection it came in on, in the header and as \<^verbatim>\<open>senderId\<close> in the payload,
  whatever the request contains (a \<^verbatim>\<open>senderId\<close> key of its own included), and the text the sender gave; and it
  leaves nothing else in a queue. A login sends what is queued as it is.
\<close>

theorem direct_message_authentic:
  assumes "handle_DIRECT_MESSAGE e fd payload cur s = (r, t)"
  shows "\<exists>new queued. outbox t = outbox s @ new \<and> (\<forall>v. offline_queue t v = offline_queue s v @ queued v) \<and>
    (\<forall>x\<in>set new. s_type x = code DIRECT_MESSAGE \<longrightarrow> s_userId x = cur \<and>
       kv_at (parse_kv (s_payload x)) ''senderId'' = to_string (int_of_u32 cur) \<and>
       kv_at (parse_kv (s_payload x)) ''message'' = kv_at (parse_kv payload) ''message'') \<and>
    (\<forall>v. \<forall>m\<in>set (queued v). pm_type m = code DIRECT_MESSAGE \<and> pm_fromUserId m = cur \<and>
       kv_at (parse_kv (pm_payload m)) ''senderId'' = to_string (int_of_u32 cur) \<and>
       kv_at (parse_kv (pm_payload m)) ''message'' = kv_at (parse_kv payload) ''message'')"
proof (cases rule: dm_effect [of e fd payload cur s])
  case 1
  with assms show ?thesis by (intro exI [of _ "[]"] exI [of _ "\<lambda>_. []"]) simp
next
  case (2 rid)
  let ?new = "(if is_online s rid then [sent_msg (online_fd s rid) (code DIRECT_MESSAGE) (dm_payload e cur payload) cur] else []) @
      [sent_msg fd (code SUCCESS) ''Message sent'' cur]"
  let ?queued = "\<lambda>v. if v = rid \<and> \<not> is_online s rid then [queued_msg (code DIRECT_MESSAGE) (dm_payload e cur payload) cur] else []"
  from 2 assms show ?thesis by (intro exI [of _ ?new] exI [of _ ?queued]) (simp add: dm_payload_reads)
qed

subsection \<open>Group messages\<close>

definition group_payload :: "'db env \<Rightarrow> u32 \<Rightarrow> int \<Rightarrow> string \<Rightarrow> string" where
  "group_payload e cur gid payload =
     serialize_kv [(''groupId'', to_string gid), (''senderId'', to_string (int_of_u32 cur)),
                   (''message'', kv_at (parse_kv payload) ''message''),
                   (''timestamp'', to_string (now_ms e))]"

lemma member_ids_ok:
  assumes "env_ok e" and "um_get (g_groups s) gid = Some g" and "um_ok (g_members g)"
  shows "distinct (member_ids e s gid) \<and> (\<forall>u. u \<in> set (member_ids e s gid) \<longleftrightarrow> is_member s gid u)"
proof -
  have "mset (iter_ids e (um_keys (g_members g))) = mset (um_keys (g_members g))"
    using assms(1) by (simp add: env_ok_def)
  from um.iterate_once [OF assms(3) this] show ?thesis
    by (simp add: member_ids_def is_member_def um_count_def assms(2))
qed

text \<open>
  C10: a group message of a server without a database, from a member. Every other member gets exactly one copy,
  on its socket or in its queue; the sender and everybody outside the group get none; the sender gets
  one confirmation, last.
\<close>

theorem group_message_delivered:
  assumes "\<not> has_pg s" and "env_ok e" and "stoi (kv_at (parse_kv payload) ''groupId'') = Inr gid"
    and "um_get (g_groups s) gid = Some g" and "um_ok (g_members g)"
    and "is_member s gid (int_of_u32 cur)"
  shows "\<exists>t ids. handle_GROUP_MESSAGE e fd payload cur s = (Inr (), t) \<and> tables t = tables s \<and>
    distinct ids \<and> set ids = {u. is_member s gid u \<and> u \<noteq> int_of_u32 cur} \<and>
    outbox t = outbox s @
      map (\<lambda>u. sent_msg (online_fd s u) (code GROUP_MESSAGE) (group_payload e cur gid payload) cur)
        (filter (is_online s) ids) @
      [sent_msg fd (code SUCCESS) ''Group message sent'' cur] \<and>
    (\<forall>v. offline_queue t v = offline_queue s v @
      (if v \<in> set ids \<and> \<not> is_online s v
       then [queued_msg (code GROUP_MESSAGE) (group_payload e cur gid payload) cur] else []))"
proof -
  let ?ids = "filter (\<lambda>i. i \<noteq> int_of_u32 cur) (member_ids e s gid)"
  note ok = member_ids_ok [OF assms(2,4,5)]
  then have d: "distinct ?ids" and ids: "set ?ids = {u. is_member s gid u \<and> u \<noteq> int_of_u32 cur}" by auto
  obtain t where "broadcast (code GROUP_MESSAGE) (group_payload e cur gid payload) cur ?ids s = (Inr (), t)"
    "tables t = tables s" "activity t = activity s"
    "outbox t = outbox s @ map (\<lambda>u. sent_msg (online_fd s u) (code GROUP_MESSAGE) (group_payload e cur gid payload) cur)
        (filter (is_online s) ?ids)"
    "\<forall>v. offline_queue t v = offline_queue s v @ (if v \<in> set ?ids \<and> \<not> is_online s v
       then [queued_msg (code GROUP_MESSAGE) (group_payload e cur gid payload) cur] else [])"
    using broadcast_effect [OF d] by blast
  note t = this
  let ?t = "t\<lparr>activity := activity t @ [(''GROUP_MESSAGE'', int_of_u32 cur, ''groupId='' @ to_string gid)],
    outbox := outbox t @ [sent_msg fd (code SUCCESS) ''Group message sent'' cur]\<rparr>"
  have "handle_GROUP_MESSAGE e fd payload cur s = (Inr (), ?t)"
    using assms(1,3,6) t(1)
    by (simp add: handle_GROUP_MESSAGE_def message_recipients_def Let_def group_payload_def del: code.simps)
  moreover have "tables ?t = tables s" using t(2) by simp
  moreover have "outbox ?t = outbox s @
      map (\<lambda>u. sent_msg (online_fd s u) (code GROUP_MESSAGE) (group_payload e cur gid payload) cur)
        (filter (is_online s) ?ids) @ [sent_msg fd (code SUCCESS) ''Group message sent'' cur]"
    using t(4) by (simp del: code.simps filter_filter)
  moreover have "\<forall>v. offline_queue ?t v = offline_queue s v @ (if v \<in> set ?ids \<and> \<not> is_online s v
       then [queued_msg (code GROUP_MESSAGE) (group_payload e cur gid payload) cur] else [])"
    using t(5) by (simp del: code.simps set_filter)
  ultimately show ?thesis using d ids by blast
qed

text \<open>
  Somebody who is not a member cannot make the server say anything to a group: the only effect
  of the request is the error reply on the sender's own connection.
\<close>

lemma group_message_needs_membership:
  assumes "\<not> has_pg s" and "stoi (kv_at (parse_kv payload) ''groupId'') = Inr gid"
    and "\<not> is_member s gid (int_of_u32 cur)"
  shows "handle_GROUP_MESSAGE e fd payload cur s =
    (Inr (), s\<lparr>outbox := outbox s @ [sent_msg fd (code ERROR) ''Not in group'' cur]\<rparr>)"
  using assms by (simp add: handle_GROUP_MESSAGE_def message_recipients_def Let_def)

subsection \<open>Logging in\<close>

lemma notify_effect:
  "notify_friends_status_change e uid online s =
     (Inr (), s\<lparr>g_friends := um_touch [] uid (g_friends s),
        outbox := outbox s @
          map (\<lambda>f. sent_msg (online_fd s f) (code (if online then USER_ONLINE else USER_OFFLINE))
                 (serialize_kv [(''userId'', to_string uid)]) (u32_of_int uid))
            (filter (is_online s) (friends_listed e s uid))\<rparr>)"
proof -
  have listed: "friends_listed e (s\<lparr>g_friends := um_touch [] uid (g_friends s)\<rparr>) uid = friends_listed e s uid"
    by (simp add: friends_listed_def friend_map_def)
  have loop: "forE fs (\<lambda>fid. bindE (getsE (\<lambda>s. online_fd s fid)) (\<lambda>fd. whenE (fd \<noteq> - 1) (send fd ty p u))) t =
      (Inr (), t\<lparr>outbox := outbox t @ map (\<lambda>f. sent_msg (online_fd t f) ty p u) (filter (is_online t) fs)\<rparr>)"
    for fs t ty p u
    by (induction fs arbitrary: t) (simp_all add: whenE_def)
  show ?thesis
    by (simp add: notify_friends_status_change_def touch_friends_def listed loop del: code.simps)
qed

lemma friends_listed_frames [simp]:
  "friends_listed e (s\<lparr>outbox := x\<rparr>) = friends_listed e s"
  "friends_listed e (s\<lparr>activity := y\<rparr>) = friends_listed e s"
  "friends_listed e (s\<lparr>g_offline_messages := z\<rparr>) = friends_listed e s"
  "friends_listed e (s\<lparr>g_online_clients := c\<rparr>) = friends_listed e s"
  by (simp_all add: fun_eq_iff friends_listed_def friend_map_def)

lemma display_name_frames [simp]:
  "display_name p (s\<lparr>outbox := x\<rparr>) = display_name p s"
  "display_name p (s\<lparr>activity := y\<rparr>) = display_name p s"
  "display_name p (s\<lparr>g_offline_messages := z\<rparr>) = display_name p s"
  "display_name p (s\<lparr>g_online_clients := c\<rparr>) = display_name p s"
  "display_name p (s\<lparr>g_friends := f\<rparr>) = display_name p s"
  by (simp_all add: fun_eq_iff display_name_def)

lemma deliver_requests_effect:
  "deliver_requests fd reqs s =
     (Inr (), s\<lparr>outbox := outbox s @
        map (\<lambda>f. sent_msg fd (code FRIEND_REQUEST)
          (serialize_kv [(''fromUserId'', to_string f), (''fromUsername'', display_name ''User'' s f f)])
          (u32_of_int f)) reqs\<rparr>)"
  unfolding deliver_requests_def by (induction reqs arbitrary: s) simp_all

lemma deliver_offline_effect:
  "deliver_offline fd q s =
     (Inr (), s\<lparr>outbox := outbox s @ map (\<lambda>pm. sent_msg fd (pm_type pm) (pm_payload pm) (pm_fromUserId pm)) q\<rparr>)"
  unfolding deliver_offline_def by (induction q arbitrary: s) simp_all

lemma login_memory_steps:
  assumes "\<not> has_pg s"
  shows "login_requests e uid s = (Inr (pending_requests s uid), s)" and "deliver_invites e fd uid s = (Inr (), s)"
  using assms by (simp_all add: login_requests_def deliver_invites_def whenE_def)

lemma take_offline_effect:
  "take_offline uid s = (Inr (offline_queue s uid), s\<lparr>g_offline_messages := um_erase uid (g_offline_messages s)\<rparr>)"
  by (simp add: take_offline_def)

lemma login_run:
  assumes "\<not> has_pg s" and "um_get (g_users_by_name s) (kv_at (parse_kv payload) ''username'') = Some u"
    and "u_password_hash u = kv_at (parse_kv payload) ''password''"
  shows "\<exists>t notices. handle_LOGIN e fd payload cur s = (Inr (u32_of_int (u_id u)), t) \<and>
    outbox t = outbox s @
      [sent_msg fd (code SUCCESS) (auth_reply (u_id u) (kv_at (parse_kv payload) ''username'')) (u32_of_int (u_id u))] @
      notices @
      map (\<lambda>pm. sent_msg fd (pm_type pm) (pm_payload pm) (pm_fromUserId pm)) (offline_queue s (u_id u)) \<and>
    (\<forall>x\<in>set notices. s_type x = code USER_ONLINE \<or> s_type x = code FRIEND_REQUEST) \<and>
    (\<forall>v. offline_queue t v = (if v = u_id u then [] else offline_queue s v)) \<and>
    (\<forall>v. online_fd t v = (if v = u_id u then fd else online_fd s v))"
proof -
  let ?uid = "u_id u"
  let ?name = "kv_at (parse_kv payload) ''username''"
  let ?s1 = "s\<lparr>g_online_clients := um_put ?uid fd (g_online_clients s),
    g_offline_messages := um_erase ?uid (g_offline_messages s),
    outbox := outbox s @ [sent_msg fd (code SUCCESS) (auth_reply ?uid ?name) (u32_of_int ?uid)],
    activity := activity s @ [(''LOGIN'', ?uid, ''username='' @ ?name)]\<rparr>"
  let ?notices = "map (\<lambda>f. sent_msg (online_fd ?s1 f) (code USER_ONLINE)
        (serialize_kv [(''userId'', to_string ?uid)]) (u32_of_int ?uid))
      (filter (is_online ?s1) (friends_listed e ?s1 ?uid)) @
    map (\<lambda>f. sent_msg fd (code FRIEND_REQUEST)
        (serialize_kv [(''fromUserId'', to_string f), (''fromUsername'', display_name ''User'' s f f)])
        (u32_of_int f)) (pending_requests s ?uid)"
  let ?t = "?s1\<lparr>g_friends := um_touch [] ?uid (g_friends s), outbox := outbox ?s1 @ ?notices @
    map (\<lambda>pm. sent_msg fd (pm_type pm) (pm_payload pm) (pm_fromUserId pm)) (offline_queue s ?uid)\<rparr>"
  have pending: "pending_requests (s\<lparr>g_online_clients := c\<rparr>) = pending_requests s" for c
    by (simp add: fun_eq_iff pending_requests_def)
  have run: "handle_LOGIN e fd payload cur s = (Inr (u32_of_int ?uid), ?t)"
    using assms
    by (simp add: handle_LOGIN_def Let_def login_memory_steps take_offline_effect notify_effect
        deliver_requests_effect deliver_offline_effect pending del: code.simps)
  have "\<forall>x\<in>set ?notices. s_type x = code USER_ONLINE \<or> s_type x = code FRIEND_REQUEST"
    by auto
  moreover have "\<forall>v. offline_queue ?t v = (if v = ?uid then [] else offline_queue s v)"
    by (simp add: offline_queue_def)
  moreover have "\<forall>v. online_fd ?t v = (if v = ?uid then fd else online_fd s v)"
    by (simp add: online_fd_def)
  moreover have "outbox ?t = outbox s @
      [sent_msg fd (code SUCCESS) (auth_reply ?uid ?name) (u32_of_int ?uid)] @ ?notices @
      map (\<lambda>pm. sent_msg fd (pm_type pm) (pm_payload pm) (pm_fromUserId pm)) (offline_queue s ?uid)"
    by simp
  ultimately show ?thesis using run by blast
qed

text \<open>
  A login with the right password, without a database. The connection is bound to the account;
  the client gets the confirmation first and then, after the status notices to the online friends and
  the pending friend requests, every message queued for it, in order and as it was queued; the queue
  is empty afterwards and no other queue changes.
\<close>

lemma login_delivers_queue:
  assumes "\<not> has_pg s" and "um_get (g_users_by_name s) (kv_at (parse_kv payload) ''username'') = Some u"
    and "u_password_hash u = kv_at (parse_kv payload) ''password''"
  shows "\<exists>t notices. handle_LOGIN e fd payload cur s = (Inr (u32_of_int (u_id u)), t) \<and>
    outbox t = outbox s @
      [sent_msg fd (code SUCCESS) (auth_reply (u_id u) (kv_at (parse_kv payload) ''username'')) (u32_of_int (u_id u))] @
      notices @
      map (\<lambda>pm. sent_msg fd (pm_type pm) (pm_payload pm) (pm_fromUserId pm)) (offline_queue s (u_id u)) \<and>
    (\<forall>x\<in>set notices. s_type x = code USER_ONLINE \<or> s_type x = code FRIEND_REQUEST) \<and>
    (\<forall>v. offline_queue t v = (if v = u_id u then [] else offline_queue s v)) \<and>
    (\<forall>v. online_fd t v = (if v = u_id u then fd else online_fd s v))"
  by (rule login_run [OF assms])

subsection \<open>Waiting in a queue\<close>

text \<open>A queue starts with \<open>q\<close>. Every request but a login keeps that: messages are only added, at the end.\<close>

definition queue_from :: "pending_msg list \<Rightarrow> int \<Rightarrow> 'db server \<Rightarrow> bool" where
  "queue_from q uid s \<longleftrightarrow> (\<exists>later. offline_queue s uid = q @ later)"

lemma queue_from_frames [simp]:
  "queue_from q uid (s\<lparr>outbox := x\<rparr>) = queue_from q uid s" "queue_from q uid (s\<lparr>activity := y\<rparr>) = queue_from q uid s"
  "queue_from q uid (s\<lparr>g_pg_persistence := p\<rparr>) = queue_from q uid s" "queue_from q uid (s\<lparr>g_friends := f\<rparr>) = queue_from q uid s"
  "queue_from q uid (s\<lparr>users_file := u\<rparr>) = queue_from q uid s" "queue_from q uid (s\<lparr>g_next_user_id := n\<rparr>) = queue_from q uid s"
  "queue_from q uid (s\<lparr>g_online_clients := c\<rparr>) = queue_from q uid s" "queue_from q uid (s\<lparr>g_groups := g\<rparr>) = queue_from q uid s"
  "queue_from q uid (s\<lparr>g_friend_requests := r\<rparr>) = queue_from q uid s"
  "queue_from q uid (s\<lparr>g_next_group_id := m\<rparr>) = queue_from q uid s"
  "queue_from q uid (store_registered v fd s) = queue_from q uid s" "queue_from q uid (accept_memory i j s) = queue_from q uid s"
  "queue_from q uid (drop_request i j s) = queue_from q uid s" "queue_from q uid (unfriend_memory i j s) = queue_from q uid s"
  by (simp_all add: queue_from_def offline_queue_def store_registered_def accept_memory_def drop_request_def
      unfriend_memory_def set_friend_def clear_friend_def)











subsection \<open>Instances\<close>

text \<open>The theorems on the sample server: their hypotheses hold there.\<close>

theorem direct_message_delivered_witness:
  "\<exists>t. handle_DIRECT_MESSAGE sample_env 4 ''recipientId=2&message=hello'' 1 sample_server = (Inr (), t) \<and>
    tables t = tables sample_server \<and>
    outbox t = [sent_msg 4 (code SUCCESS) ''Message sent'' 1] \<and> length (offline_queue t 2) = 2"
proof -
  have "stoi (kv_at (parse_kv ''recipientId=2&message=hello'') ''recipientId'') = Inr 2" by code_simp
  moreover have "\<not> is_online sample_server 2" "outbox sample_server = []" "length (offline_queue sample_server 2) = 1"
    by code_simp+
  ultimately show ?thesis
    using direct_message_delivered [OF has_pg_sample(1), of "''recipientId=2&message=hello''" 2 sample_env 4 1]
    by (auto simp del: code.simps)
qed

theorem direct_message_authentic_witness:
  "\<exists>t q. handle_DIRECT_MESSAGE sample_env 4 ''senderId=9&recipientId=2&message=hello'' 1 sample_server = (Inr (), t) \<and>
    offline_queue t 2 = offline_queue sample_server 2 @ [q] \<and> pm_fromUserId q = 1 \<and>
    kv_at (parse_kv (pm_payload q)) ''senderId'' = ''1'' \<and> kv_at (parse_kv (pm_payload q)) ''message'' = ''hello''"
proof -
  let ?m = "''senderId=9&recipientId=2&message=hello''"
  have "stoi (kv_at (parse_kv ?m) ''recipientId'') = Inr 2" "\<not> is_online sample_server 2" by code_simp+
  then obtain t q where run: "handle_DIRECT_MESSAGE sample_env 4 ?m 1 sample_server = (Inr (), t)"
    and q: "offline_queue t 2 = offline_queue sample_server 2 @ [q]"
    using dm_run [OF has_pg_sample(1), of ?m 2 sample_env 4 1] by (auto simp del: code.simps)
  from direct_message_authentic [OF run] obtain queued where "\<forall>v. offline_queue t v = offline_queue sample_server v @ queued v"
    and auth: "\<forall>v. \<forall>m\<in>set (queued v). pm_type m = code DIRECT_MESSAGE \<and> pm_fromUserId m = 1 \<and>
       kv_at (parse_kv (pm_payload m)) ''senderId'' = to_string (int_of_u32 1) \<and>
       kv_at (parse_kv (pm_payload m)) ''message'' = kv_at (parse_kv ?m) ''message''"
    by blast
  with q have "queued 2 = [q]" by simp
  with auth have "pm_fromUserId q = 1 \<and> kv_at (parse_kv (pm_payload q)) ''senderId'' = to_string (int_of_u32 1) \<and>
       kv_at (parse_kv (pm_payload q)) ''message'' = kv_at (parse_kv ?m) ''message''" by (metis list.set_intros(1))
  moreover have "to_string (int_of_u32 1) = ''1''" "kv_at (parse_kv ?m) ''message'' = ''hello''" by code_simp+
  ultimately show ?thesis using run q by (intro exI [of _ t] exI [of _ q]) simp
qed

theorem group_message_delivered_witness:
  "\<exists>t ids. handle_GROUP_MESSAGE sample_env 4 ''groupId=7&message=hello'' 1 sample_server = (Inr (), t) \<and>
    set ids = {u. is_member sample_server 7 u \<and> u \<noteq> 1} \<and>
    outbox t = map (\<lambda>u. sent_msg (online_fd sample_server u) (code GROUP_MESSAGE)
        (group_payload sample_env 1 7 ''groupId=7&message=hello'') 1) (filter (is_online sample_server) ids) @
      [sent_msg 4 (code SUCCESS) ''Group message sent'' 1]"
proof -
  let ?m = "''groupId=7&message=hello''"
  have "stoi (kv_at (parse_kv ?m) ''groupId'') = Inr 7" "um_get (g_groups sample_server) 7 = Some sample_group"
    "um_ok (g_members sample_group)" "is_member sample_server 7 (int_of_u32 1)"
    by code_simp+
  note d = group_message_delivered [OF has_pg_sample(1) env_ok_sample(2) this]
  have "int_of_u32 1 = 1" "outbox sample_server = []" by code_simp+
  with d [of 4] show ?thesis by (auto simp del: code.simps)
qed


end
