(* ===== verification/Server_Threads.thy ===== *)
theory Server_Threads
  imports Delivery Social_Graph Group_Safety
begin

text \<open>
  The delivery of messages between the threads of the server: one thread per connection, which releases
  \<^verbatim>\<open>g_mutex\<close> between the look-up of a recipient and the \<^verbatim>\<open>send_message\<close> or \<^verbatim>\<open>enqueue_offline\<close> that follows. The
  branches that deliver messages or change the tables are cut into actions, each one critical section or one call
  that leaves the process. The server runs without a database. That a thread that is not interrupted does what its
  branch does as one step is shown here for the branches of sessions, friendships and messages, and in
  \<open>Group_Threads\<close> for those of groups.
\<close>

subsection \<open>Actions\<close>

text \<open>What is announced to a group.\<close>

datatype saying = Made_admin int | Removed int | Added int | Renamed string | Created

text \<open>
  The names say what the critical section does: look up a recipient and go on to send or to queue, send,
  queue, log, check a login, list the friends to notify, look up one of them, look up the name of a pending
  request, list the members of a group, take the connection off the table in \<^verbatim>\<open>LOGOUT\<close> and in the cleanup block,
  close the descriptor, find the target of a friend request, check and store the request, tell the target, and
  the single critical sections of \<^verbatim>\<open>FRIEND_ACCEPT\<close>, \<^verbatim>\<open>FRIEND_DECLINE\<close>, \<^verbatim>\<open>UNFRIEND\<close> and \<^verbatim>\<open>REGISTER\<close>. Of the group
  branches: the check of the permission, the change of the group, the look-up of the names for an announcement, the
  list of the members it goes to, with a second notice to them in \<^verbatim>\<open>MAKE_ADMIN\<close> and \<^verbatim>\<open>RENAME_GROUP\<close>, and the notices
  about one member. \<^verbatim>\<open>CREATE_GROUP\<close> stores the group in two sections, and \<^verbatim>\<open>INVITE_TO_GROUP\<close> reads the name of the
  group outside of every section.
\<close>

datatype act =
    Find_and_send int u8 string u32
  | Send_to int u8 string u32
  | Enqueue int u8 string u32
  | Log_it string int string
  | Check_login int string string
  | List_friends int bool
  | Tell_friend int int bool
  | Name_and_send int int
  | List_members int int string
  | Sign_off int
  | Go_offline
  | Close_fd
  | Find_target int string
  | Ask_friend int int
  | Tell_target int
  | Accept_friend int int
  | Decline_friend int int
  | End_friend int int
  | Check_admin int int int
  | Promote_user int int int
  | Check_removal int int int
  | Remove_user int int int
  | List_remaining int int
  | Leave_it int int
  | Create_group int string "int list"
  | Store_group int int string "int list"
  | Check_invite int int int
  | Add_user int int int
  | Find_invited int int
  | Invite_notice int int
  | Join_group int int
  | Tell_joined int int
  | Rename_it int int string
  | Nick_it int int int string
  | Tell_nickname int int string
  | Tell_found int string
  | Tell_group int saying
  | Announce int string "string option"
  | Register_it int string

text \<open>
  The effect of an action on the account of the connection and the state, and what the thread does next. A login
  that succeeds puts the descriptor into the table and takes the queue in one critical section; the confirmation,
  the notices, the requests and the queued messages follow.
\<close>

definition check_login :: "int \<Rightarrow> string \<Rightarrow> string \<Rightarrow> u32 \<Rightarrow> 'db server \<Rightarrow> u32 \<times> 'db server \<times> act list" where
  [simp]: "check_login fd username password cur s =
     (case um_get (g_users_by_name s) username of
        None \<Rightarrow> (cur, snd (send fd (code ERROR) ''Invalid credentials'' 0 s), [])
      | Some u \<Rightarrow>
          if u_password_hash u \<noteq> password
          then (cur, snd (send fd (code ERROR) ''Invalid credentials'' 0 s), [])
          else
            let uid = u_id u in
            (u32_of_int uid,
             s\<lparr>g_online_clients := um_put uid fd (g_online_clients s),
               g_offline_messages := um_erase uid (g_offline_messages s)\<rparr>,
             [Send_to fd (code SUCCESS) (auth_reply uid username) (u32_of_int uid),
              Log_it ''LOGIN'' uid (''username='' @ username), List_friends uid True] @
             map (Name_and_send fd) (pending_requests s uid) @
             map (\<lambda>pm. Send_to fd (pm_type pm) (pm_payload pm) (pm_fromUserId pm)) (offline_queue s uid)))"

definition list_members :: "'db env \<Rightarrow> int \<Rightarrow> int \<Rightarrow> string \<Rightarrow> u32 \<Rightarrow> 'db server \<Rightarrow> act list" where
  [simp]: "list_members e fd gid payload cur s =
     (let uid = int_of_u32 cur in
      if is_member s gid uid
      then map (\<lambda>m. Find_and_send m (code GROUP_MESSAGE) (group_payload e cur gid payload) cur)
             (filter (\<lambda>i. i \<noteq> uid) (member_ids e s gid)) @
           [Log_it ''GROUP_MESSAGE'' uid (''groupId='' @ to_string gid),
            Send_to fd (code SUCCESS) ''Group message sent'' cur]
      else [Send_to fd (code ERROR) ''Not in group'' cur])"

definition sign_off :: "int \<Rightarrow> u32 \<Rightarrow> 'db server \<Rightarrow> 'db server \<times> act list" where
  [simp]: "sign_off fd cur s =
     (let uid = int_of_u32 cur in
      if cur \<noteq> 0
      then (s\<lparr>g_online_clients := um_erase uid (g_online_clients s)\<rparr>,
            [Log_it ''LOGOUT'' uid '''', List_friends uid False, Send_to fd (code SUCCESS) '''' cur])
      else (s, [Send_to fd (code SUCCESS) '''' cur]))"

definition go_offline :: "u32 \<Rightarrow> 'db server \<Rightarrow> 'db server \<times> act list" where
  [simp]: "go_offline cur s =
     (let uid = int_of_u32 cur in
      if cur \<noteq> 0
      then (s\<lparr>g_online_clients := um_erase uid (g_online_clients s)\<rparr>, [List_friends uid False])
      else (s, []))"

definition tell_friend :: "int \<Rightarrow> int \<Rightarrow> bool \<Rightarrow> 'db server \<Rightarrow> act list" where
  [simp]: "tell_friend fid uid online s =
     (let fd = online_fd s fid in
      if fd \<noteq> - 1
      then [Send_to fd (code (if online then USER_ONLINE else USER_OFFLINE))
             (serialize_kv [(''userId'', to_string uid)]) (u32_of_int uid)]
      else [])"

text \<open>
  The two checks of a friend request and its storing are one critical section, which ends after the reply where
  the request is refused.
\<close>

definition find_target :: "'db env \<Rightarrow> int \<Rightarrow> string \<Rightarrow> u32 \<Rightarrow> 'db server \<Rightarrow> 'db server \<times> act list" where
  [simp]: "find_target e fd payload cur s =
     (case fst (request_target e (parse_kv payload) s) of
        Inl _ \<Rightarrow> (s, [])
      | Inr (Inl msg) \<Rightarrow> (snd (send fd (code ERROR) msg cur s), [])
      | Inr (Inr target) \<Rightarrow>
          (s, [if target = int_of_u32 cur then Send_to fd (code ERROR) ''Cannot friend yourself'' cur
               else Ask_friend fd target]))"

definition ask_friend :: "int \<Rightarrow> int \<Rightarrow> u32 \<Rightarrow> 'db server \<Rightarrow> 'db server \<times> act list" where
  "ask_friend fd target cur s =
     (let uid = int_of_u32 cur in
      case already_friends uid target s of (already, s1) \<Rightarrow>
        if already = Inr True then (snd (send fd (code ERROR) ''Already friends'' cur s1), [])
        else
          let s2 = s1\<lparr>g_friend_requests :=
            um_put target (push_back_new uid (um_at [] (g_friend_requests s1) target)) (g_friend_requests s1)\<rparr> in
          if uid \<in> set (pending_requests s1 target)
          then (snd (send fd (code ERROR) ''Friend request already sent'' cur s2), [])
          else (s2, [Tell_target target, Log_it ''FRIEND_REQUEST'' uid (''to_userId='' @ to_string target),
                     Send_to fd (code SUCCESS) ''Friend request sent'' cur]))"

fun saying_text :: "'db server \<Rightarrow> u32 \<Rightarrow> saying \<Rightarrow> string" where
  "saying_text s cur (Made_admin uid) = actor_name s cur @ '' made '' @ display_name ''User'' s uid uid @ '' an admin''"
| "saying_text s cur (Removed uid) = actor_name s cur @ '' removed '' @ display_name ''User'' s uid uid @ '' from the group''"
| "saying_text s cur (Added uid) = actor_name s cur @ '' added '' @ display_name ''User'' s uid uid @ '' to the group''"
| "saying_text s cur (Renamed name) = actor_name s cur @ '' renamed the group to '' @ dq @ name @ dq"
| "saying_text s cur Created = actor_name s cur @ '' created the group''"

text \<open>The second notice to the members, of type \<^verbatim>\<open>SUCCESS\<close>.\<close>

fun saying_notice :: "int \<Rightarrow> saying \<Rightarrow> string option" where
  "saying_notice gid (Made_admin uid) =
     Some (serialize_kv [(''groupId'', to_string gid), (''userId'', to_string uid), (''isAdmin'', ''true'')])"
| "saying_notice gid (Renamed name) =
     Some (serialize_kv [(''groupId'', to_string gid), (''name'', name), (''action'', ''renamed'')])"
| "saying_notice gid x = None"

definition announce :: "'db env \<Rightarrow> int \<Rightarrow> string \<Rightarrow> string option \<Rightarrow> u32 \<Rightarrow> 'db server \<Rightarrow> 'db server \<times> act list" where
  [simp]: "announce e gid sys notice cur s =
     (let s1 = snd (touch_group gid s); ids = member_ids e s1 gid in
      (s1, map (\<lambda>m. Find_and_send m (code GROUP_MESSAGE) (system_payload e gid sys) 0) ids @
           (case notice of None \<Rightarrow> [] | Some p \<Rightarrow> map (\<lambda>m. Find_and_send m (code SUCCESS) p cur) ids)))"

definition remove_user :: "int \<Rightarrow> int \<Rightarrow> int \<Rightarrow> u32 \<Rightarrow> 'db server \<Rightarrow> 'db server \<times> act list" where
  [simp]: "remove_user fd gid uid cur s =
     (update_group gid (drop_member uid) s,
      [Tell_group gid (Removed uid),
       Find_and_send uid (code GROUP_MESSAGE) (serialize_kv [(''groupId'', to_string gid), (''action'', ''removed'')]) 0,
       List_remaining gid uid, Send_to fd (code SUCCESS) ''Removed'' cur])"

definition list_remaining :: "'db env \<Rightarrow> int \<Rightarrow> int \<Rightarrow> 'db server \<Rightarrow> act list" where
  [simp]: "list_remaining e gid uid s =
     map (\<lambda>m. Find_and_send m (code SUCCESS)
         (serialize_kv [(''groupId'', to_string gid), (''userId'', to_string uid), (''action'', ''memberRemoved'')]) 0)
       (member_ids e s gid)"

definition leave_group :: "int \<Rightarrow> int \<Rightarrow> u32 \<Rightarrow> 'db server \<Rightarrow> 'db server \<times> act list" where
  [simp]: "leave_group fd gid cur s =
     (case leave_memory gid (int_of_u32 cur) s of (r, s1) \<Rightarrow>
        (s1, [Send_to fd (code SUCCESS) (if r = Inr (True, True) then ''Group deleted'' else ''Left group'') cur]))"

definition create_group :: "int \<Rightarrow> string \<Rightarrow> int list \<Rightarrow> u32 \<Rightarrow> 'db server \<Rightarrow> 'db server \<times> act list" where
  [simp]: "create_group fd name ids cur s =
     (let gid = g_next_group_id s in
      (s\<lparr>g_next_group_id := wrap_int32 (gid + 1),
         g_groups := um_put gid (new_group gid name (int_of_u32 cur) ids) (g_groups s)\<rparr>,
       [if gid = - 1 then Send_to fd (code ERROR) ''Failed to create group'' cur else Store_group fd gid name ids]))"

definition store_again :: "int \<Rightarrow> int \<Rightarrow> string \<Rightarrow> int list \<Rightarrow> u32 \<Rightarrow> 'db server \<Rightarrow> 'db server \<times> act list" where
  [simp]: "store_again fd gid name ids cur s =
     (let uid = int_of_u32 cur in
      (s\<lparr>g_groups := um_put gid (new_group gid name uid ids) (g_groups s)\<rparr>,
       [Log_it ''CREATE_GROUP'' uid
          (''groupId='' @ to_string gid @ '' name='' @ name @ '' members='' @ to_string (int (length ids + 1))),
        Send_to fd (code SUCCESS) (created_payload gid name uid ids) cur, Tell_group gid Created]))"

text \<open>
  \<^verbatim>\<open>g_groups[gid].members[uid] = true\<close>: a group that is no longer there is inserted. The name for the notice is read
  in the same way.
\<close>

definition add_user :: "int \<Rightarrow> int \<Rightarrow> int \<Rightarrow> u32 \<Rightarrow> 'db server \<Rightarrow> 'db server \<times> act list" where
  [simp]: "add_user fd gid uid cur s =
     (s\<lparr>g_groups := um_put gid (add_member uid (um_at empty_group (g_groups s) gid)) (g_groups s)\<rparr>,
      [Find_invited gid uid, Tell_group gid (Added uid), Send_to fd (code SUCCESS) ''Added'' cur])"

definition invite_notice :: "int \<Rightarrow> int \<Rightarrow> u32 \<Rightarrow> 'db server \<Rightarrow> 'db server \<times> act list" where
  [simp]: "invite_notice tfd gid cur s =
     (let s1 = snd (touch_group gid s) in
      (s1, [Send_to tfd (code INVITE_TO_GROUP)
         (serialize_kv [(''groupId'', to_string gid), (''name'', g_name (um_at empty_group (g_groups s1) gid)),
                        (''fromUserId'', to_string (uint cur))]) cur]))"

definition join_group :: "int \<Rightarrow> int \<Rightarrow> u32 \<Rightarrow> 'db server \<Rightarrow> 'db server \<times> act list" where
  [simp]: "join_group fd gid cur s =
     (update_group gid (add_member (int_of_u32 cur)) s,
      [if um_count (g_groups s) gid then Tell_joined fd gid else Send_to fd (code ERROR) ''Accept failed'' cur])"

definition rename_group :: "int \<Rightarrow> int \<Rightarrow> string \<Rightarrow> u32 \<Rightarrow> 'db server \<Rightarrow> 'db server \<times> act list" where
  [simp]: "rename_group fd gid name cur s =
     (if is_member s gid (int_of_u32 cur)
      then (update_group gid (\<lambda>g. g\<lparr>g_name := name\<rparr>) s,
            [Tell_group gid (Renamed name), Send_to fd (code SUCCESS) ''Renamed'' cur])
      else (s, [Send_to fd (code ERROR) ''Rename failed'' cur]))"

definition set_nickname :: "int \<Rightarrow> int \<Rightarrow> int \<Rightarrow> string \<Rightarrow> u32 \<Rightarrow> 'db server \<Rightarrow> 'db server \<times> act list" where
  [simp]: "set_nickname fd gid uid nick cur s =
     (if is_member s gid uid
      then (update_group gid (\<lambda>g. g\<lparr>g_member_nicknames := um_put uid nick (g_member_nicknames g)\<rparr>) s,
            [Tell_nickname gid uid nick, Send_to fd (code SUCCESS) ''Nickname set'' cur])
      else (s, [Send_to fd (code ERROR) ''Set nickname failed'' cur]))"

definition register_user :: "'db env \<Rightarrow> int \<Rightarrow> string \<Rightarrow> u32 \<Rightarrow> 'db server \<Rightarrow> u32 \<times> 'db server" where
  "register_user e fd payload cur s =
     (let kv = parse_kv payload; username = kv_at kv ''username''; password = kv_at kv ''password'' in
      if username = [] \<or> password = [] then (cur, snd (send fd (code ERROR) ''Missing username/password'' 0 s))
      else if um_count (g_users_by_name s) username
      then (cur, snd (send fd (code ERROR) ''Username already exists'' 0 s))
      else
        let uid = g_next_user_id s;
            s1 = snd (save_users e (s\<lparr>g_next_user_id := wrap_int32 (uid + 1)\<rparr>));
            s2 = store_registered
              \<lparr>u_id = uid, u_username = username, u_password_hash = password, u_phone = kv_at kv ''phone'',
               u_socket_fd = fd, u_is_online = True, u_last_seen = 0\<rparr> fd s1 in
        (u32_of_int uid,
         snd (send fd (code SUCCESS) (auth_reply uid username) (u32_of_int uid)
           (snd (log_activity ''REGISTER'' uid (''username='' @ username) s2)))))"

fun exec_act :: "'db env \<Rightarrow> u32 \<Rightarrow> act \<Rightarrow> 'db server \<Rightarrow> u32 \<times> 'db server \<times> act list" where
  "exec_act e cur (Find_and_send uid ty p from) s =
     (let fd = online_fd s uid in
      (cur, s, [if fd \<noteq> - 1 then Send_to fd ty p from else Enqueue uid ty p from]))"
| "exec_act e cur (Send_to fd ty p from) s = (cur, snd (send fd ty p from s), [])"
| "exec_act e cur (Enqueue uid ty p from) s = (cur, snd (enqueue_offline uid ty p from s), [])"
| "exec_act e cur (Log_it a uid d) s = (cur, snd (log_activity a uid d s), [])"
| "exec_act e cur (Check_login fd username password) s = check_login fd username password cur s"
| "exec_act e cur (List_friends uid online) s =
     (let s' = snd (touch_friends uid s) in
      (cur, s', map (\<lambda>fid. Tell_friend fid uid online) (friends_listed e s' uid)))"
| "exec_act e cur (Tell_friend fid uid online) s = (cur, s, tell_friend fid uid online s)"
| "exec_act e cur (Name_and_send fd from) s =
     (cur, s, [Send_to fd (code FRIEND_REQUEST)
        (serialize_kv [(''fromUserId'', to_string from), (''fromUsername'', display_name ''User'' s from from)])
        (u32_of_int from)])"
| "exec_act e cur (List_members fd gid payload) s = (cur, s, list_members e fd gid payload cur s)"
| "exec_act e cur (Sign_off fd) s = (cur, sign_off fd cur s)"
| "exec_act e cur Go_offline s = (cur, go_offline cur s)"
| "exec_act e cur Close_fd s = (cur, s, [])"
| "exec_act e cur (Find_target fd payload) s = (cur, find_target e fd payload cur s)"
| "exec_act e cur (Ask_friend fd target) s = (cur, ask_friend fd target cur s)"
| "exec_act e cur (Tell_target target) s = (cur, snd (notify_request cur target s), [])"
| "exec_act e cur (Accept_friend fd other) s =
     (cur, snd (send fd (code SUCCESS) ''Friend request accepted'' cur (accept_memory (int_of_u32 cur) other s)), [])"
| "exec_act e cur (Decline_friend fd other) s =
     (cur, snd (send fd (code SUCCESS) ''Friend request declined'' cur (drop_request (int_of_u32 cur) other s)), [])"
| "exec_act e cur (End_friend fd other) s =
     (cur, snd (send fd (code SUCCESS) ''Unfriended'' cur (unfriend_memory (int_of_u32 cur) other s)), [])"
| "exec_act e cur (Check_admin fd gid uid) s =
     (cur, s, [if is_admin s gid (int_of_u32 cur) then Promote_user fd gid uid
               else Send_to fd (code ERROR) ''Not permitted'' cur])"
| "exec_act e cur (Promote_user fd gid uid) s =
     (cur, update_group gid (promote uid) s, [Tell_group gid (Made_admin uid), Send_to fd (code SUCCESS) ''Made admin'' cur])"
| "exec_act e cur (Check_removal fd gid uid) s =
     (cur, s, [if um_count (g_groups s) gid \<and> (uid = int_of_u32 cur \<or> is_admin s gid (int_of_u32 cur))
               then Remove_user fd gid uid else Send_to fd (code ERROR) ''Not permitted'' cur])"
| "exec_act e cur (Remove_user fd gid uid) s = (cur, remove_user fd gid uid cur s)"
| "exec_act e cur (Announce gid sys notice) s = (cur, announce e gid sys notice cur s)"
| "exec_act e cur (List_remaining gid uid) s = (cur, s, list_remaining e gid uid s)"
| "exec_act e cur (Leave_it fd gid) s = (cur, leave_group fd gid cur s)"
| "exec_act e cur (Create_group fd name ids) s = (cur, create_group fd name ids cur s)"
| "exec_act e cur (Store_group fd gid name ids) s = (cur, store_again fd gid name ids cur s)"
| "exec_act e cur (Check_invite fd gid uid) s =
     (cur, s, [if is_member s gid (int_of_u32 cur) then Add_user fd gid uid
               else Send_to fd (code ERROR) ''Invite failed'' cur])"
| "exec_act e cur (Add_user fd gid uid) s = (cur, add_user fd gid uid cur s)"
| "exec_act e cur (Find_invited gid uid) s =
     (cur, s, if online_fd s uid \<noteq> - 1 then [Invite_notice (online_fd s uid) gid] else [])"
| "exec_act e cur (Invite_notice tfd gid) s = (cur, invite_notice tfd gid cur s)"
| "exec_act e cur (Join_group fd gid) s = (cur, join_group fd gid cur s)"
| "exec_act e cur (Tell_joined fd gid) s =
     (cur, snd (send fd (code SUCCESS) ''Accepted'' cur (snd (notify_joined e gid (int_of_u32 cur) cur s))), [])"
| "exec_act e cur (Rename_it fd gid name) s = (cur, rename_group fd gid name cur s)"
| "exec_act e cur (Nick_it fd gid uid nick) s = (cur, set_nickname fd gid uid nick cur s)"
| "exec_act e cur (Tell_nickname gid uid nick) s =
     (cur, s, [Tell_found gid (nickname_text s (int_of_u32 cur) uid nick)])"
| "exec_act e cur (Tell_found gid sys) s =
     (cur, s, map (\<lambda>m. Find_and_send m (code GROUP_MESSAGE) (system_payload e gid sys) 0) (member_ids e s gid))"
| "exec_act e cur (Tell_group gid x) s = (cur, s, [Announce gid (saying_text s cur x) (saying_notice gid x)])"
| "exec_act e cur (Register_it fd payload) s =
     (case register_user e fd payload cur s of (cur', s') \<Rightarrow> (cur', s', []))"

subsection \<open>Requests\<close>

text \<open>
  The requests that deliver messages, change friendships or change who is online, and a hang-up: the client has closed the
  connection. A message whose recipient is not a number ends the process, so threads do not go on after it.
\<close>

datatype thread_request =
    T_login string
  | T_message string
  | T_group string
  | T_friend string
  | T_accept string
  | T_decline string
  | T_unfriend string
  | T_admin string
  | T_remove string
  | T_leave string
  | T_create string
  | T_invite string
  | T_join string
  | T_rename string
  | T_nick string
  | T_register string
  | T_logout
  | T_hangup

definition has_number :: "string \<Rightarrow> string \<Rightarrow> bool" where
  "has_number payload key = (case stoi (kv_at (parse_kv payload) key) of Inl _ \<Rightarrow> False | Inr _ \<Rightarrow> True)"

definition readable :: "thread_request \<Rightarrow> bool" where
  "readable r =
     (case r of
        T_message payload \<Rightarrow> has_number payload ''recipientId''
      | T_group payload \<Rightarrow> has_number payload ''groupId''
      | T_friend payload \<Rightarrow>
          um_count (parse_kv payload) ''username'' \<or> \<not> um_count (parse_kv payload) ''targetUserId'' \<or>
          has_number payload ''targetUserId''
      | T_accept payload \<Rightarrow> has_number payload ''userId''
      | T_decline payload \<Rightarrow> has_number payload ''userId''
      | T_unfriend payload \<Rightarrow> has_number payload ''userId''
      | T_admin payload \<Rightarrow> has_number payload ''groupId'' \<and> has_number payload ''userId''
      | T_remove payload \<Rightarrow> has_number payload ''groupId'' \<and> has_number payload ''userId''
      | T_leave payload \<Rightarrow> has_number payload ''groupId''
      | T_create payload \<Rightarrow> (case parse_members (parse_kv payload) of Inl _ \<Rightarrow> False | Inr _ \<Rightarrow> True)
      | T_invite payload \<Rightarrow> has_number payload ''groupId'' \<and> has_number payload ''userId''
      | T_join payload \<Rightarrow> has_number payload ''groupId''
      | T_rename payload \<Rightarrow> has_number payload ''groupId''
      | T_nick payload \<Rightarrow> has_number payload ''groupId'' \<and> has_number payload ''userId''
      | _ \<Rightarrow> True)"

definition number_at :: "string \<Rightarrow> string \<Rightarrow> int" where
  "number_at payload key = (case stoi (kv_at (parse_kv payload) key) of Inl _ \<Rightarrow> 0 | Inr i \<Rightarrow> i)"

fun acts_of :: "'db env \<Rightarrow> int \<Rightarrow> u32 \<Rightarrow> thread_request \<Rightarrow> act list" where
  "acts_of e fd cur (T_login payload) =
     [Check_login fd (kv_at (parse_kv payload) ''username'') (kv_at (parse_kv payload) ''password'')]"
| "acts_of e fd cur (T_message payload) =
     [Find_and_send (number_at payload ''recipientId'') (code DIRECT_MESSAGE) (dm_payload e cur payload) cur,
      Log_it ''DIRECT_MESSAGE'' (int_of_u32 cur) (''to_userId='' @ to_string (number_at payload ''recipientId'')),
      Send_to fd (code SUCCESS) ''Message sent'' cur]"
| "acts_of e fd cur (T_group payload) =
     [List_members fd (number_at payload ''groupId'') payload]"
| "acts_of e fd cur (T_friend payload) = [Find_target fd payload]"
| "acts_of e fd cur (T_accept payload) = [Accept_friend fd (number_at payload ''userId'')]"
| "acts_of e fd cur (T_decline payload) = [Decline_friend fd (number_at payload ''userId'')]"
| "acts_of e fd cur (T_unfriend payload) = [End_friend fd (number_at payload ''userId'')]"
| "acts_of e fd cur (T_admin payload) = [Check_admin fd (number_at payload ''groupId'') (number_at payload ''userId'')]"
| "acts_of e fd cur (T_remove payload) = [Check_removal fd (number_at payload ''groupId'') (number_at payload ''userId'')]"
| "acts_of e fd cur (T_leave payload) = [Leave_it fd (number_at payload ''groupId'')]"
| "acts_of e fd cur (T_create payload) =
     (let kv = parse_kv payload in
      case parse_members kv of
        Inl _ \<Rightarrow> []
      | Inr ids \<Rightarrow>
          [Create_group fd (if um_count kv ''name'' then kv_at kv ''name'' else ''group_'' @ to_string (now_s e)) ids])"
| "acts_of e fd cur (T_invite payload) = [Check_invite fd (number_at payload ''groupId'') (number_at payload ''userId'')]"
| "acts_of e fd cur (T_join payload) = [Join_group fd (number_at payload ''groupId'')]"
| "acts_of e fd cur (T_rename payload) = [Rename_it fd (number_at payload ''groupId'') (kv_at (parse_kv payload) ''name'')]"
| "acts_of e fd cur (T_nick payload) =
     [Nick_it fd (number_at payload ''groupId'') (number_at payload ''userId'') (kv_at (parse_kv payload) ''nick'')]"
| "acts_of e fd cur (T_register payload) = [Register_it fd payload]"
| "acts_of e fd cur T_logout = [Sign_off fd, Go_offline, Close_fd]"
| "acts_of e fd cur T_hangup = [Go_offline, Close_fd]"

subsection \<open>Without interference a thread is its handler\<close>

inductive finishes :: "'db env \<Rightarrow> u32 \<Rightarrow> act list \<Rightarrow> 'db server \<Rightarrow> u32 \<Rightarrow> 'db server \<Rightarrow> bool" for e where
  finished: "finishes e cur [] s cur s"
| acts: "exec_act e cur a s = (cur1, s1, nexts) \<Longrightarrow> finishes e cur1 (nexts @ as) s1 cur' t \<Longrightarrow>
    finishes e cur (a # as) s cur' t"

text \<open>The branch of the model that handles the request, and the cleanup block where the connection ends.\<close>

fun handler_of :: "'db env \<Rightarrow> int \<Rightarrow> u32 \<Rightarrow> thread_request \<Rightarrow> ('db server, u32) M" where
  "handler_of e fd cur (T_login payload) = handle_LOGIN e fd payload cur"
| "handler_of e fd cur (T_message payload) = seqE (handle_DIRECT_MESSAGE e fd payload cur) (retE cur)"
| "handler_of e fd cur (T_group payload) = seqE (handle_GROUP_MESSAGE e fd payload cur) (retE cur)"
| "handler_of e fd cur (T_friend payload) = seqE (handle_FRIEND_REQUEST e fd payload cur) (retE cur)"
| "handler_of e fd cur (T_accept payload) = seqE (handle_FRIEND_ACCEPT e fd payload cur) (retE cur)"
| "handler_of e fd cur (T_decline payload) = seqE (handle_FRIEND_DECLINE e fd payload cur) (retE cur)"
| "handler_of e fd cur (T_unfriend payload) = seqE (handle_UNFRIEND fd payload cur) (retE cur)"
| "handler_of e fd cur (T_admin payload) = seqE (handle_MAKE_ADMIN e fd payload cur) (retE cur)"
| "handler_of e fd cur (T_remove payload) = seqE (handle_REMOVE_FROM_GROUP e fd payload cur) (retE cur)"
| "handler_of e fd cur (T_leave payload) = seqE (handle_LEAVE_GROUP e fd payload cur) (retE cur)"
| "handler_of e fd cur (T_create payload) = seqE (handle_CREATE_GROUP e fd payload cur) (retE cur)"
| "handler_of e fd cur (T_invite payload) = seqE (handle_INVITE_TO_GROUP e fd payload cur) (retE cur)"
| "handler_of e fd cur (T_join payload) = seqE (handle_ACCEPT_GROUP_INVITE e fd payload cur) (retE cur)"
| "handler_of e fd cur (T_rename payload) = seqE (handle_RENAME_GROUP e fd payload cur) (retE cur)"
| "handler_of e fd cur (T_nick payload) = seqE (handle_SET_GROUP_NICKNAME e fd payload cur) (retE cur)"
| "handler_of e fd cur (T_register payload) = handle_REGISTER e fd payload cur"
| "handler_of e fd cur T_logout = seqE (handle_LOGOUT e fd cur) (seqE (cleanup e cur) (retE cur))"
| "handler_of e fd cur T_hangup = seqE (cleanup e cur) (retE cur)"

lemma finishes_append:
  "finishes e cur as s cur1 s1 \<Longrightarrow> finishes e cur1 bs s1 cur' t \<Longrightarrow> finishes e cur (as @ bs) s cur' t"
  by (induction rule: finishes.induct) (auto intro: finishes.acts)

lemma finishes_Cons:
  "exec_act e cur a s = (cur1, s1, nexts) \<Longrightarrow> finishes e cur1 nexts s1 cur2 s2 \<Longrightarrow> finishes e cur2 as s2 cur' t \<Longrightarrow>
    finishes e cur (a # as) s cur' t"
  by (auto intro: finishes.acts finishes_append)

lemma finishes_one: "exec_act e cur a s = (cur1, s1, []) \<Longrightarrow> finishes e cur [a] s cur1 s1"
  by (rule finishes.acts, assumption) (simp add: finishes.finished)

lemma finishes_single:
  "finishes e cur [Send_to fd ty p u] s cur (snd (send fd ty p u s))"
  "finishes e cur [Log_it a uid d] s cur (snd (log_activity a uid d s))"
  "finishes e cur [Close_fd] s cur s"
  by (rule finishes.acts, simp, simp add: finishes.finished)+

lemma finishes_deliver: "finishes e cur [Find_and_send uid ty p u] s cur (snd (deliver ty p u uid s))"
proof (cases "is_online s uid")
  case True
  then have "exec_act e cur (Find_and_send uid ty p u) s = (cur, s, [Send_to (online_fd s uid) ty p u])" by simp
  from finishes_Cons [OF this finishes_single(1) finishes.finished] True show ?thesis by (simp add: deliver_def)
next
  case False
  then have "exec_act e cur (Find_and_send uid ty p u) s = (cur, s, [Enqueue uid ty p u])" by simp
  moreover have "finishes e cur [Enqueue uid ty p u] s cur (snd (enqueue_offline uid ty p u s))"
    by (rule finishes.acts, simp, simp add: finishes.finished)
  ultimately have "finishes e cur [Find_and_send uid ty p u] s cur (snd (enqueue_offline uid ty p u s))"
    by (rule finishes_Cons [OF _ _ finishes.finished])
  with False show ?thesis by (simp add: deliver_def)
qed

lemma broadcast_returns: "\<exists>t. broadcast ty p u ids s = (Inr (), t)"
proof (induction ids arbitrary: s)
  case (Cons m ids)
  obtain s1 where "deliver ty p u m s = (Inr (), s1)" using deliver_effect [of ty p u m s] by auto
  with Cons [of s1] show ?case by (auto simp: broadcast_def)
qed (simp add: broadcast_def)

lemma finishes_broadcast:
  "finishes e cur (map (\<lambda>m. Find_and_send m ty p u) ids) s cur (snd (broadcast ty p u ids s))"
proof (induction ids arbitrary: s)
  case (Cons m ids)
  obtain s1 where s1: "deliver ty p u m s = (Inr (), s1)" using deliver_effect [of ty p u m s] by auto
  from finishes_append [OF finishes_deliver [of e cur m ty p u s]] Cons [of s1] s1 show ?case
    by (simp add: broadcast_def)
qed (simp add: broadcast_def finishes.finished)

lemma finishes_sends:
  "finishes e cur (map (\<lambda>pm. Send_to fd (pm_type pm) (pm_payload pm) (pm_fromUserId pm)) q) s cur (snd (deliver_offline fd q s))"
  unfolding deliver_offline_def
  by (induction q arbitrary: s) (auto intro: finishes.intros)

lemma finishes_requests:
  "finishes e cur (map (Name_and_send fd) reqs) s cur (snd (deliver_requests fd reqs s))"
  unfolding deliver_requests_def
proof (induction reqs arbitrary: s)
  case (Cons r reqs)
  then show ?case by (auto intro!: finishes_Cons [OF _ finishes_single(1)])
qed (simp add: finishes.finished)

lemma finishes_notify:
  "finishes e cur [List_friends uid online] s cur (snd (notify_friends_status_change e uid online s))"
proof -
  let ?m = "\<lambda>fid. bindE (getsE (\<lambda>s. online_fd s fid)) (\<lambda>fd. whenE (fd \<noteq> - 1)
      (send fd (code (if online then USER_ONLINE else USER_OFFLINE)) (serialize_kv [(''userId'', to_string uid)]) (u32_of_int uid)))"
  have loop: "finishes e cur (map (\<lambda>fid. Tell_friend fid uid online) fs) t cur (snd (forE fs ?m t))" for fs t
  proof (induction fs arbitrary: t)
    case (Cons f fs)
    let ?ty = "code (if online then USER_ONLINE else USER_OFFLINE)" and ?p = "serialize_kv [(''userId'', to_string uid)]"
    show ?case
    proof (cases "is_online t f")
      case True
      then have "exec_act e cur (Tell_friend f uid online) t = (cur, t, [Send_to (online_fd t f) ?ty ?p (u32_of_int uid)])"
        by (simp add: Let_def)
      from finishes_Cons [OF this finishes_single(1) Cons.IH] True show ?thesis by (simp add: whenE_def)
    next
      case False
      then have "exec_act e cur (Tell_friend f uid online) t = (cur, t, [])" by (simp add: Let_def)
      from finishes_Cons [OF this finishes.finished Cons.IH] False show ?thesis by (simp add: whenE_def)
    qed
  qed (simp add: finishes.finished)
  show ?thesis
    by (rule finishes.acts, simp add: Let_def)
      (use loop [of "friends_listed e (snd (touch_friends uid s)) uid" "snd (touch_friends uid s)"]
        in \<open>simp add: notify_friends_status_change_def touch_friends_def del: code.simps\<close>)
qed

lemma finishes_accepted:
  fixes s :: "'a server"
  assumes "\<not> has_pg s" and "handle_LOGIN e fd payload cur s = (Inr cur', t)"
    and "um_get (g_users_by_name s) (kv_at (parse_kv payload) ''username'') = Some u"
    and "u_password_hash u = kv_at (parse_kv payload) ''password''"
  shows "finishes e cur (acts_of e fd cur (T_login payload)) s cur' t"
proof -
  let ?name = "kv_at (parse_kv payload) ''username''" and ?pw = "kv_at (parse_kv payload) ''password''" and ?uid = "u_id u"
  let ?s1 = "s\<lparr>g_online_clients := um_put ?uid fd (g_online_clients s),
    g_offline_messages := um_erase ?uid (g_offline_messages s)\<rparr>"
  let ?s2 = "snd (log_activity ''LOGIN'' ?uid (''username='' @ ?name)
    (snd (send fd (code SUCCESS) (auth_reply ?uid ?name) (u32_of_int ?uid) ?s1)))"
  let ?s3 = "snd (notify_friends_status_change e ?uid True ?s2)"
  let ?s4 = "snd (deliver_requests fd (pending_requests s ?uid) ?s3)"
  let ?t = "snd (deliver_offline fd (offline_queue s ?uid) ?s4)"
  have ends: "cur' = u32_of_int ?uid \<and> t = ?t"
    using assms
    by (auto simp: handle_LOGIN_def Let_def login_memory_steps take_offline_effect notify_effect
        deliver_requests_effect deliver_offline_effect has_pg_def pending_requests_def offline_queue_def
        simp del: code.simps)
  let ?acts = "[Send_to fd (code SUCCESS) (auth_reply ?uid ?name) (u32_of_int ?uid)] @
      [Log_it ''LOGIN'' ?uid (''username='' @ ?name)] @ [List_friends ?uid True] @
      map (Name_and_send fd) (pending_requests s ?uid) @
      map (\<lambda>pm. Send_to fd (pm_type pm) (pm_payload pm) (pm_fromUserId pm)) (offline_queue s ?uid)"
  have "finishes e (u32_of_int ?uid) ?acts ?s1 (u32_of_int ?uid) ?t"
    by (intro finishes_append [OF finishes_single(1)] finishes_append [OF finishes_single(2)]
        finishes_append [OF finishes_notify] finishes_append [OF finishes_requests] finishes_sends)
  moreover have "exec_act e cur (Check_login fd ?name ?pw) s = (u32_of_int ?uid, ?s1, ?acts)"
    using assms(3,4) by (simp add: Let_def)
  ultimately have "finishes e cur [Check_login fd ?name ?pw] s (u32_of_int ?uid) ?t"
    by (intro finishes_Cons [OF _ _ finishes.finished])
  with ends show ?thesis by (simp only: acts_of.simps)
qed

lemma finishes_login:
  assumes "\<not> has_pg s" and "handle_LOGIN e fd payload cur s = (Inr cur', t)"
  shows "finishes e cur (acts_of e fd cur (T_login payload)) s cur' t"
proof (cases "\<exists>u. um_get (g_users_by_name s) (kv_at (parse_kv payload) ''username'') = Some u \<and>
    u_password_hash u = kv_at (parse_kv payload) ''password''")
  case True
  with finishes_accepted [OF assms] show ?thesis by blast
next
  case False
  with assms(2) have "exec_act e cur (Check_login fd (kv_at (parse_kv payload) ''username'') (kv_at (parse_kv payload) ''password'')) s
      = (cur', t, [])"
    by (auto simp: handle_LOGIN_def Let_def split: option.splits if_splits)
  from finishes_one [OF this] show ?thesis by simp
qed

lemma finishes_cleanup: "finishes e cur [Go_offline, Close_fd] s cur (snd (cleanup e cur s))"
proof (cases "cur = 0")
  case True
  then show ?thesis
    by (auto simp: cleanup_def whenE_def intro!: finishes.acts finishes.finished)
next
  case False
  then have "exec_act e cur Go_offline s = (cur, s\<lparr>g_online_clients := um_erase (int_of_u32 cur) (g_online_clients s)\<rparr>,
      [List_friends (int_of_u32 cur) False])"
    by (simp add: Let_def)
  from finishes_Cons [OF this finishes_notify finishes_single(3)] False show ?thesis
    by (simp add: cleanup_def whenE_def)
qed

lemma finishes_logout:
  "finishes e cur (acts_of e fd cur T_logout) s cur (snd (seqE (handle_LOGOUT e fd cur) (cleanup e cur) s))"
proof (cases "cur = 0")
  case True
  then have "exec_act e cur (Sign_off fd) s = (cur, s, [Send_to fd (code SUCCESS) '''' cur])" by simp
  from finishes_Cons [OF this finishes_single(1) finishes_cleanup] True show ?thesis
    by (simp add: handle_LOGOUT_def whenE_def)
next
  case False
  let ?uid = "int_of_u32 cur"
  let ?s1 = "s\<lparr>g_online_clients := um_erase ?uid (g_online_clients s)\<rparr>"
  have "exec_act e cur (Sign_off fd) s =
      (cur, ?s1, [Log_it ''LOGOUT'' ?uid ''''] @ [List_friends ?uid False] @ [Send_to fd (code SUCCESS) '''' cur])"
    using False by (simp add: Let_def)
  moreover have "finishes e cur
      ([Log_it ''LOGOUT'' ?uid ''''] @ [List_friends ?uid False] @ [Send_to fd (code SUCCESS) '''' cur]) ?s1 cur
      (snd (send fd (code SUCCESS) '''' cur (snd (notify_friends_status_change e ?uid False
        (snd (log_activity ''LOGOUT'' ?uid '''' ?s1))))))"
    by (intro finishes_append [OF finishes_single(2)] finishes_append [OF finishes_notify] finishes_single(1))
  ultimately have "finishes e cur (acts_of e fd cur T_logout) s cur
      (snd (cleanup e cur (snd (send fd (code SUCCESS) '''' cur (snd (notify_friends_status_change e ?uid False
        (snd (log_activity ''LOGOUT'' ?uid '''' ?s1))))))))"
    unfolding acts_of.simps by (rule finishes_Cons [OF _ _ finishes_cleanup])
  with False show ?thesis by (simp add: handle_LOGOUT_def whenE_def notify_effect del: code.simps)
qed

lemma finishes_message:
  assumes "\<not> has_pg s" and "handle_DIRECT_MESSAGE e fd payload cur s = (Inr x, t)"
  shows "finishes e cur (acts_of e fd cur (T_message payload)) s cur t"
proof -
  obtain r where r: "stoi (kv_at (parse_kv payload) ''recipientId'') = Inr r"
    using assms(2) by (cases "stoi (kv_at (parse_kv payload) ''recipientId'')") (auto simp: handle_DIRECT_MESSAGE_def Let_def)
  let ?p = "dm_payload e cur payload" and ?d = "''to_userId='' @ to_string r"
  obtain s1 where s1: "deliver (code DIRECT_MESSAGE) ?p cur r s = (Inr (), s1)"
    using deliver_effect [of "code DIRECT_MESSAGE" ?p cur r s] by auto
  have "finishes e cur ([Find_and_send r (code DIRECT_MESSAGE) ?p cur] @ [Log_it ''DIRECT_MESSAGE'' (int_of_u32 cur) ?d] @
      [Send_to fd (code SUCCESS) ''Message sent'' cur]) s cur
      (snd (send fd (code SUCCESS) ''Message sent'' cur (snd (log_activity ''DIRECT_MESSAGE'' (int_of_u32 cur) ?d
        (snd (deliver (code DIRECT_MESSAGE) ?p cur r s))))))"
    by (intro finishes_append [OF finishes_deliver] finishes_append [OF finishes_single(2)] finishes_single(1))
  moreover have "t = snd (send fd (code SUCCESS) ''Message sent'' cur (snd (log_activity ''DIRECT_MESSAGE'' (int_of_u32 cur) ?d
        (snd (deliver (code DIRECT_MESSAGE) ?p cur r s)))))"
    using assms r s1 by (auto simp: handle_DIRECT_MESSAGE_def dm_payload_def Let_def simp del: code.simps)
  ultimately show ?thesis by (simp add: number_at_def r del: code.simps run_send run_log)
qed

lemma finishes_group:
  assumes "\<not> has_pg s" and "handle_GROUP_MESSAGE e fd payload cur s = (Inr x, t)"
  shows "finishes e cur (acts_of e fd cur (T_group payload)) s cur t"
proof -
  obtain gid where gid: "stoi (kv_at (parse_kv payload) ''groupId'') = Inr gid"
    using assms(2) by (cases "stoi (kv_at (parse_kv payload) ''groupId'')") (auto simp: handle_GROUP_MESSAGE_def Let_def)
  let ?uid = "int_of_u32 cur" and ?p = "group_payload e cur gid payload"
  show ?thesis
  proof (cases "is_member s gid ?uid")
    case False
    then have "exec_act e cur (List_members fd gid payload) s = (cur, s, [Send_to fd (code ERROR) ''Not in group'' cur])"
      by (simp add: Let_def)
    from finishes_Cons [OF this finishes_single(1) finishes.finished] False assms gid show ?thesis
      by (auto simp: handle_GROUP_MESSAGE_def message_recipients_def number_at_def Let_def)
  next
    case True
    let ?ids = "filter (\<lambda>i. i \<noteq> ?uid) (member_ids e s gid)"
    let ?acts = "map (\<lambda>m. Find_and_send m (code GROUP_MESSAGE) ?p cur) ?ids @
      [Log_it ''GROUP_MESSAGE'' ?uid (''groupId='' @ to_string gid)] @ [Send_to fd (code SUCCESS) ''Group message sent'' cur]"
    let ?t = "snd (send fd (code SUCCESS) ''Group message sent'' cur
      (snd (log_activity ''GROUP_MESSAGE'' ?uid (''groupId='' @ to_string gid) (snd (broadcast (code GROUP_MESSAGE) ?p cur ?ids s)))))"
    have "exec_act e cur (List_members fd gid payload) s = (cur, s, ?acts)" using True by (simp add: Let_def)
    moreover have "finishes e cur ?acts s cur ?t"
      by (intro finishes_append [OF finishes_broadcast] finishes_append [OF finishes_single(2)] finishes_single(1))
    ultimately have "finishes e cur [List_members fd gid payload] s cur ?t"
      by (rule finishes_Cons [OF _ _ finishes.finished])
    moreover obtain s1 where "broadcast (code GROUP_MESSAGE) ?p cur ?ids s = (Inr (), s1)"
      using broadcast_returns by blast
    then have "t = ?t"
      using assms gid True
      by (auto simp: handle_GROUP_MESSAGE_def message_recipients_def group_payload_def Let_def simp del: code.simps)
    ultimately show ?thesis by (simp only: acts_of.simps number_at_def gid sum.case)
  qed
qed

lemma finishes_friendship:
  assumes "\<not> has_pg s"
  shows "handle_FRIEND_ACCEPT e fd payload cur s = (Inr x, t) \<Longrightarrow> finishes e cur (acts_of e fd cur (T_accept payload)) s cur t"
    and "handle_FRIEND_DECLINE e fd payload cur s = (Inr x, t) \<Longrightarrow> finishes e cur (acts_of e fd cur (T_decline payload)) s cur t"
    and "handle_UNFRIEND fd payload cur s = (Inr x, t) \<Longrightarrow> finishes e cur (acts_of e fd cur (T_unfriend payload)) s cur t"
  using assms
  by (cases "stoi (kv_at (parse_kv payload) ''userId'')";
      force simp: handle_FRIEND_ACCEPT_def handle_FRIEND_DECLINE_def handle_UNFRIEND_def number_at_def stoi_kv_def Let_def
        simp del: code.simps intro!: finishes_one)+

lemma already_friends_frame: "\<exists>r f. already_friends a b s = (Inr r, s\<lparr>g_friends := f\<rparr>)"
proof -
  have "\<exists>f. s = s\<lparr>g_friends := f\<rparr>" by (rule exI [of _ "g_friends s"]) simp
  moreover have "\<exists>f'. s\<lparr>g_friends := f\<rparr> = s\<lparr>g_friends := f'\<rparr>" for f by blast
  ultimately show ?thesis by (auto simp: already_friends_def touch_friends_def)
qed

text \<open>What the section that checks and stores a request does next.\<close>

lemma ask_friend_cases:
  obtains (refused) f msg where "ask_friend fd target cur s = (snd (send fd (code ERROR) msg cur (s\<lparr>g_friends := f\<rparr>)), [])"
  | (known) f r msg where "ask_friend fd target cur s =
      (snd (send fd (code ERROR) msg cur (s\<lparr>g_friends := f, g_friend_requests := r\<rparr>)), [])"
  | (stored) f r where "ask_friend fd target cur s =
      (s\<lparr>g_friends := f, g_friend_requests := r\<rparr>,
       [Tell_target target, Log_it ''FRIEND_REQUEST'' (int_of_u32 cur) (''to_userId='' @ to_string target),
        Send_to fd (code SUCCESS) ''Friend request sent'' cur])"
proof -
  obtain r f where "already_friends (int_of_u32 cur) target s = (Inr r, s\<lparr>g_friends := f\<rparr>)"
    using already_friends_frame by blast
  then have run: "already_friends (int_of_u32 cur) target s = (Inr r, s\<lparr>g_friends := f\<rparr>)" .
  let ?r = "um_put target (push_back_new (int_of_u32 cur) (um_at [] (g_friend_requests s) target)) (g_friend_requests s)"
  consider "r" | "\<not> r" "int_of_u32 cur \<in> set (pending_requests s target)" | "\<not> r" "int_of_u32 cur \<notin> set (pending_requests s target)"
    by blast
  then show thesis
  proof cases
    case 1
    with run refused [of "''Already friends''" f] show ?thesis by (simp add: ask_friend_def)
  next
    case 2
    with run known [where f = f and r = ?r and msg = "''Friend request already sent''"] show ?thesis
      by (simp add: ask_friend_def Let_def)
  next
    case 3
    with run stored [where f = f and r = ?r] show ?thesis by (simp add: ask_friend_def Let_def)
  qed
qed

lemma notify_request_returns: "\<exists>t. notify_request cur target s = (Inr (), t)"
  by (auto simp: notify_request_def split: option.split)

lemma finishes_ask:
  assumes "\<not> has_pg s" and "target \<noteq> int_of_u32 cur"
    and "request_target e (parse_kv payload) s = (Inr (Inr target), s)"
    and "handle_FRIEND_REQUEST e fd payload cur s = (Inr x, t)"
  shows "finishes e cur [Ask_friend fd target] s cur t"
proof -
  let ?uid = "int_of_u32 cur"
  obtain b s1 where s1: "already_friends ?uid target s = (Inr b, s1)" "\<not> has_pg s1"
    using already_friends_run [OF assms(1)] by metis
  let ?s2 = "s1\<lparr>g_friend_requests :=
    um_put target (push_back_new ?uid (um_at [] (g_friend_requests s1) target)) (g_friend_requests s1)\<rparr>"
  let ?d = "''to_userId='' @ to_string target"
  have db: "store_request_db e ?uid target s1 = (Inr None, s1)" using s1 by (simp add: store_request_db_def)
  obtain s3 where s3: "notify_request cur target ?s2 = (Inr (), s3)"
    using notify_request_returns by blast
  show ?thesis
  proof (cases "b \<or> ?uid \<in> set (pending_requests s1 target)")
    case True
    with assms s1 db have "exec_act e cur (Ask_friend fd target) s = (cur, t, [])"
      by (auto simp: handle_FRIEND_REQUEST_def ask_friend_def Let_def simp del: code.simps)
    then show ?thesis by (rule finishes_one)
  next
    case False
    with s1 have x: "exec_act e cur (Ask_friend fd target) s = (cur, ?s2, [Tell_target target] @
        [Log_it ''FRIEND_REQUEST'' ?uid ?d] @ [Send_to fd (code SUCCESS) ''Friend request sent'' cur])"
      by (simp add: ask_friend_def Let_def)
    have "finishes e cur [Tell_target target] ?s2 cur s3" using s3 by (intro finishes_one) simp
    from finishes_append [OF this finishes_append [OF finishes_single(2) finishes_single(1)]]
    have "finishes e cur [Ask_friend fd target] s cur
        (snd (send fd (code SUCCESS) ''Friend request sent'' cur (snd (log_activity ''FRIEND_REQUEST'' ?uid ?d s3))))"
      by (rule finishes_Cons [OF x _ finishes.finished])
    moreover have "t = snd (send fd (code SUCCESS) ''Friend request sent'' cur (snd (log_activity ''FRIEND_REQUEST'' ?uid ?d s3)))"
      using False assms s1 db s3 by (auto simp: handle_FRIEND_REQUEST_def Let_def simp del: code.simps)
    ultimately show ?thesis by simp
  qed
qed

lemma finishes_request:
  assumes "\<not> has_pg s" and "handle_FRIEND_REQUEST e fd payload cur s = (Inr x, t)"
  shows "finishes e cur (acts_of e fd cur (T_friend payload)) s cur t"
proof (cases "fst (request_target e (parse_kv payload) s)")
  case (Inl ex)
  then have "request_target e (parse_kv payload) s = (Inl ex, s)" by (metis request_target_state)
  with assms show ?thesis by (simp add: handle_FRIEND_REQUEST_def Let_def)
next
  case (Inr r)
  then have run: "request_target e (parse_kv payload) s = (Inr r, s)" by (metis request_target_state)
  show ?thesis
  proof (cases r)
    case (Inl msg)
    with run assms show ?thesis
      by (auto simp: handle_FRIEND_REQUEST_def Let_def simp del: code.simps intro!: finishes_one)
  next
    case target: (Inr target)
    show ?thesis
    proof (cases "target = int_of_u32 cur")
      case True
      with target run assms have "t = snd (send fd (code ERROR) ''Cannot friend yourself'' cur s)"
        by (auto simp: handle_FRIEND_REQUEST_def Let_def simp del: code.simps)
      with finishes_single(1) [of e cur fd] True target run show ?thesis
        by (auto intro!: finishes.acts simp del: code.simps)
    next
      case False
      with target run have "exec_act e cur (Find_target fd payload) s = (cur, s, [Ask_friend fd target])" by simp
      from finishes_Cons [OF this finishes_ask [OF assms(1) False _ assms(2)] finishes.finished] target run
      show ?thesis by simp
    qed
  qed
qed

end
