(* ===== verification/Group_Threads.thy ===== *)
theory Group_Threads
  imports Server_Threads
begin

text \<open>
  The group branches cut into actions: that a thread of theirs that is not interrupted does what the branch does
  as one step, so that this holds of every request a thread can read, and that every thread ends.
\<close>

subsection \<open>Announcements\<close>

lemma system_broadcast_memory:
  fixes s :: "'a server" and gid :: int
  assumes "\<not> has_pg s"
  defines "s1 \<equiv> snd (touch_group gid s)"
  shows "system_broadcast e gid sys s = (Inr (member_ids e s1 gid),
    snd (broadcast (code GROUP_MESSAGE) (system_payload e gid sys) 0 (member_ids e s1 gid) s1))"
proof -
  obtain t where "broadcast (code GROUP_MESSAGE) (system_payload e gid sys) 0 (member_ids e s1 gid) s1 = (Inr (), t)"
    using broadcast_returns by blast
  then show ?thesis
    using assms by (simp add: system_broadcast_def notify_ids_def touch_group_def del: code.simps)
qed

lemma finishes_announce:
  fixes s :: "'a server" and gid :: int
  assumes "\<not> has_pg s"
  defines "s1 \<equiv> snd (touch_group gid s)"
  shows "finishes e cur [Announce gid sys notice] s cur
    (snd ((case notice of None \<Rightarrow> retE () | Some p \<Rightarrow> broadcast (code SUCCESS) p cur (member_ids e s1 gid))
      (snd (system_broadcast e gid sys s))))"
proof -
  let ?ids = "member_ids e s1 gid"
  let ?s2 = "snd (broadcast (code GROUP_MESSAGE) (system_payload e gid sys) 0 ?ids s1)"
  have x: "exec_act e cur (Announce gid sys notice) s =
      (cur, s1, map (\<lambda>m. Find_and_send m (code GROUP_MESSAGE) (system_payload e gid sys) 0) ?ids @
        (case notice of None \<Rightarrow> [] | Some p \<Rightarrow> map (\<lambda>m. Find_and_send m (code SUCCESS) p cur) ?ids))"
    by (cases notice) (simp_all add: s1_def Let_def)
  have "finishes e cur (case notice of None \<Rightarrow> [] | Some p \<Rightarrow> map (\<lambda>m. Find_and_send m (code SUCCESS) p cur) ?ids) ?s2 cur
      (snd ((case notice of None \<Rightarrow> retE () | Some p \<Rightarrow> broadcast (code SUCCESS) p cur ?ids) ?s2))"
    by (cases notice) (simp_all add: finishes.finished finishes_broadcast)
  from finishes_Cons [OF x finishes_append [OF finishes_broadcast this] finishes.finished] show ?thesis
    using system_broadcast_memory [OF assms(1), of e gid sys] by (simp add: s1_def)
qed

lemma finishes_tell:
  assumes "\<not> has_pg s"
  shows "finishes e cur [Tell_group gid x] s cur
    (snd ((case saying_notice gid x of None \<Rightarrow> retE ()
        | Some p \<Rightarrow> broadcast (code SUCCESS) p cur (member_ids e (snd (touch_group gid s)) gid))
      (snd (system_broadcast e gid (saying_text s cur x) s))))"
proof -
  have "exec_act e cur (Tell_group gid x) s = (cur, s, [Announce gid (saying_text s cur x) (saying_notice gid x)])" by simp
  from finishes_Cons [OF this finishes_announce [OF assms] finishes.finished] show ?thesis .
qed

lemma finishes_said:
  assumes "\<not> has_pg s"
  shows "finishes e cur [Tell_group gid (Made_admin uid)] s cur (snd (announce_admin e gid uid cur s))"
    and "finishes e cur [Tell_group gid (Removed uid)] s cur (snd (announce_removed e gid uid cur s))"
    and "finishes e cur [Tell_group gid (Added uid)] s cur (snd (announce_added e gid uid cur s))"
    and "finishes e cur [Tell_group gid (Renamed name)] s cur (snd (announce_rename e gid name cur s))"
    and "finishes e cur [Tell_group gid Created] s cur (snd (system_broadcast e gid (actor_name s cur @ '' created the group'') s))"
  using finishes_tell [OF assms, of e cur gid "Made_admin uid"] finishes_tell [OF assms, of e cur gid "Removed uid"]
    finishes_tell [OF assms, of e cur gid "Added uid"] finishes_tell [OF assms, of e cur gid "Renamed name"]
    finishes_tell [OF assms, of e cur gid Created]
  by (simp_all add: announce_admin_def announce_removed_def announce_added_def announce_rename_def
      system_broadcast_memory [OF assms] del: code.simps)

text \<open>What comes before an announcement leaves the server without a database.\<close>

lemma announced_memory:
  assumes "\<not> has_pg s"
  shows "\<not> has_pg (snd (announce_removed e gid uid cur s))" and "\<not> has_pg (snd (notify_invited gid uid cur s))"
proof -
  have still: "graph_is (social_of s) s" using assms by (simp add: graph_is_def)
  have "pres (graph_is (social_of s)) (announce_removed e gid uid cur)" "pres (graph_is (social_of s)) (notify_invited gid uid cur)"
    by (rule gi.each.pres_announce)+
  then have "graph_is (social_of s) (snd (announce_removed e gid uid cur s))" "graph_is (social_of s) (snd (notify_invited gid uid cur s))"
    using presD still by metis+
  then show "\<not> has_pg (snd (announce_removed e gid uid cur s))" "\<not> has_pg (snd (notify_invited gid uid cur s))"
    unfolding graph_is_def by blast+
qed

lemma finishes_remaining:
  assumes "\<not> has_pg s"
  shows "finishes e cur
    [Find_and_send uid (code GROUP_MESSAGE) (serialize_kv [(''groupId'', to_string gid), (''action'', ''removed'')]) 0,
     List_remaining gid uid] s cur (snd (notify_removed e gid uid s))"
proof -
  let ?p = "serialize_kv [(''groupId'', to_string gid), (''action'', ''removed'')]"
  let ?q = "serialize_kv [(''groupId'', to_string gid), (''userId'', to_string uid), (''action'', ''memberRemoved'')]"
  obtain s1 where s1: "deliver (code GROUP_MESSAGE) ?p 0 uid s = (Inr (), s1)" "tables s1 = tables s"
    using deliver_effect [of "code GROUP_MESSAGE" ?p 0 uid s] by auto
  have "graph_is (social_of s) (snd (deliver (code GROUP_MESSAGE) ?p 0 uid s))"
    using assms by (intro presD [OF gi.pres_deliver]) (simp add: graph_is_def)
  then have pg: "\<not> has_pg s1" unfolding s1(1) snd_conv graph_is_def by blast
  have "exec_act e cur (List_remaining gid uid) s1 = (cur, s1, map (\<lambda>m. Find_and_send m (code SUCCESS) ?q 0) (member_ids e s1 gid))"
    by simp
  from finishes_Cons [OF this finishes_broadcast finishes.finished]
  have "finishes e cur [List_remaining gid uid] s1 cur (snd (broadcast (code SUCCESS) ?q 0 (member_ids e s1 gid) s1))" .
  from finishes_append [OF finishes_deliver [of e cur uid "code GROUP_MESSAGE" ?p 0 s, unfolded s1(1) snd_conv] this]
  show ?thesis using s1(1) pg by (simp add: notify_removed_def remaining_ids_def del: code.simps)
qed

lemma two_numbers:
  assumes "bindE (stoi_kv (parse_kv payload) ''groupId'') (\<lambda>gid. bindE (stoi_kv (parse_kv payload) ''userId'') (f gid)) s = (Inr x, t)"
  shows "f (number_at payload ''groupId'') (number_at payload ''userId'') s = (Inr x, t)"
  using assms
  by (cases "stoi (kv_at (parse_kv payload) ''groupId'')"; cases "stoi (kv_at (parse_kv payload) ''userId'')")
    (auto simp: stoi_kv_def number_at_def)

lemma has_pg_update_group [simp]: "has_pg (update_group gid f s) = has_pg s"
  by (simp add: update_group_def has_pg_def split: option.split)

lemma finishes_admin:
  assumes "\<not> has_pg s" and "handle_MAKE_ADMIN e fd payload cur s = (Inr x, t)"
  shows "finishes e cur (acts_of e fd cur (T_admin payload)) s cur t"
proof -
  let ?gid = "number_at payload ''groupId''" and ?uid = "number_at payload ''userId''"
  let ?s1 = "update_group ?gid (promote ?uid) s"
  let ?t = "snd (send fd (code SUCCESS) ''Made admin'' cur (snd (announce_admin e ?gid ?uid cur ?s1)))"
  note run = two_numbers [OF assms(2) [unfolded handle_MAKE_ADMIN_def Let_def]]
  show ?thesis
  proof (cases "is_admin s ?gid (int_of_u32 cur)")
    case False
    then have "exec_act e cur (Check_admin fd ?gid ?uid) s = (cur, s, [Send_to fd (code ERROR) ''Not permitted'' cur])" by simp
    from finishes_Cons [OF this finishes_single(1) finishes.finished] False run assms(1) show ?thesis
      by (auto simp: admin_permitted_def simp del: code.simps)
  next
    case True
    have "finishes e cur ([Tell_group ?gid (Made_admin ?uid)] @ [Send_to fd (code SUCCESS) ''Made admin'' cur]) ?s1 cur ?t"
      using assms(1) by (intro finishes_append [OF finishes_said(1) finishes_single(1)]) simp
    then have "finishes e cur [Promote_user fd ?gid ?uid] s cur ?t"
      by (intro finishes_Cons [OF _ _ finishes.finished, of e cur _ s cur ?s1]) simp_all
    then have "finishes e cur [Check_admin fd ?gid ?uid] s cur ?t"
      using True by (intro finishes_Cons [OF _ _ finishes.finished, of e cur _ s cur s]) simp_all
    moreover have "t = ?t" using True run assms(1) by (auto simp: admin_permitted_def announce_admin_def simp del: code.simps)
    ultimately show ?thesis by simp
  qed
qed

lemma finishes_removal:
  assumes "\<not> has_pg s" and "handle_REMOVE_FROM_GROUP e fd payload cur s = (Inr x, t)"
  shows "finishes e cur (acts_of e fd cur (T_remove payload)) s cur t"
proof -
  let ?gid = "number_at payload ''groupId''" and ?uid = "number_at payload ''userId''"
  let ?s1 = "update_group ?gid (drop_member ?uid) s"
  let ?s2 = "snd (announce_removed e ?gid ?uid cur ?s1)"
  let ?t = "snd (send fd (code SUCCESS) ''Removed'' cur (snd (notify_removed e ?gid ?uid ?s2)))"
  let ?ok = "um_count (g_groups s) ?gid \<and> (?uid = int_of_u32 cur \<or> is_admin s ?gid (int_of_u32 cur))"
  note run = two_numbers [OF assms(2) [unfolded handle_REMOVE_FROM_GROUP_def Let_def]]
  show ?thesis
  proof (cases ?ok)
    case False
    then have "exec_act e cur (Check_removal fd ?gid ?uid) s = (cur, s, [Send_to fd (code ERROR) ''Not permitted'' cur])" by simp
    from finishes_Cons [OF this finishes_single(1) finishes.finished] False run assms(1) show ?thesis
      by (auto simp: remove_permitted_def simp del: code.simps)
  next
    case True
    have pg: "\<not> has_pg ?s2" using assms(1) by (intro announced_memory) simp
    have "finishes e cur ([Tell_group ?gid (Removed ?uid)] @ [Find_and_send ?uid (code GROUP_MESSAGE)
        (serialize_kv [(''groupId'', to_string ?gid), (''action'', ''removed'')]) 0, List_remaining ?gid ?uid] @
        [Send_to fd (code SUCCESS) ''Removed'' cur]) ?s1 cur ?t"
      using assms(1)
      by (intro finishes_append [OF finishes_said(2)] finishes_append [OF finishes_remaining [OF pg] finishes_single(1)]) simp
    then have "finishes e cur [Remove_user fd ?gid ?uid] s cur ?t"
      by (intro finishes_Cons [OF _ _ finishes.finished, of e cur _ s cur ?s1]) simp_all
    then have "finishes e cur [Check_removal fd ?gid ?uid] s cur ?t"
      using True by (intro finishes_Cons [OF _ _ finishes.finished, of e cur _ s cur s]) simp_all
    moreover have "t = ?t"
      using True run assms(1)
      by (auto simp: remove_permitted_def announce_removed_def notify_removed_def simp del: code.simps)
    ultimately show ?thesis by simp
  qed
qed

lemma leave_memory_returns:
  "\<exists>ok del gs. leave_memory gid uid s = (Inr (ok, del), s\<lparr>g_groups := gs\<rparr>) \<and> (del \<longrightarrow> ok)"
proof (cases "um_get (g_groups s) gid")
  case None
  then have "leave_memory gid uid s = (Inr (False, False), s\<lparr>g_groups := g_groups s\<rparr>)" by (simp add: leave_memory_def)
  then show ?thesis by blast
next
  case (Some g)
  show ?thesis
  proof (cases "um_erase uid (g_members g) = []")
    case True
    with Some have "leave_memory gid uid s = (Inr (True, True), s\<lparr>g_groups := um_erase gid (g_groups s)\<rparr>)"
      by (simp add: leave_memory_def Let_def)
    then show ?thesis by blast
  next
    case False
    with Some have "leave_memory gid uid s =
        (Inr (True, False), s\<lparr>g_groups := um_put gid (g\<lparr>g_members := um_erase uid (g_members g)\<rparr>) (g_groups s)\<rparr>)"
      by (simp add: leave_memory_def Let_def)
    then show ?thesis by blast
  qed
qed

lemma finishes_leave:
  assumes "\<not> has_pg s" and "handle_LEAVE_GROUP e fd payload cur s = (Inr x, t)"
  shows "finishes e cur (acts_of e fd cur (T_leave payload)) s cur t"
proof -
  let ?gid = "number_at payload ''groupId''"
  obtain ok del s1 where s1: "leave_memory ?gid (int_of_u32 cur) s = (Inr (ok, del), s1)" "del \<Longrightarrow> ok" "\<not> has_pg s1"
    using leave_memory_returns [of ?gid "int_of_u32 cur" s] assms(1) by auto
  have "exec_act e cur (Leave_it fd ?gid) s =
      (cur, s1, [Send_to fd (code SUCCESS) (if del then ''Group deleted'' else ''Left group'') cur])"
    using s1(1,2) by auto
  from finishes_Cons [OF this finishes_single(1) finishes.finished] show ?thesis
    using assms s1
    by (cases "stoi (kv_at (parse_kv payload) ''groupId'')")
      (auto simp: handle_LEAVE_GROUP_def number_at_def stoi_kv_def simp del: code.simps run_send)
qed

lemma finishes_create:
  assumes "\<not> has_pg s" and "handle_CREATE_GROUP e fd payload cur s = (Inr x, t)"
  shows "finishes e cur (acts_of e fd cur (T_create payload)) s cur t"
proof -
  let ?kv = "parse_kv payload" and ?uid = "int_of_u32 cur" and ?gid = "g_next_group_id s"
  let ?name = "if um_count ?kv ''name'' then kv_at ?kv ''name'' else ''group_'' @ to_string (now_s e)"
  obtain ids where ids: "parse_members ?kv = Inr ids"
    using assms(2) by (cases "parse_members ?kv") (auto simp: handle_CREATE_GROUP_def Let_def)
  let ?s1 = "s\<lparr>g_next_group_id := wrap_int32 (?gid + 1), g_groups := um_put ?gid (new_group ?gid ?name ?uid ids) (g_groups s)\<rparr>"
  let ?s2 = "?s1\<lparr>g_groups := um_put ?gid (new_group ?gid ?name ?uid ids) (g_groups ?s1)\<rparr>"
  let ?d = "''groupId='' @ to_string ?gid @ '' name='' @ ?name @ '' members='' @ to_string (int (length ids + 1))"
  let ?s3 = "snd (send fd (code SUCCESS) (created_payload ?gid ?name ?uid ids) cur (snd (log_activity ''CREATE_GROUP'' ?uid ?d ?s2)))"
  let ?t = "snd (system_broadcast e ?gid (actor_name ?s3 cur @ '' created the group'') ?s3)"
  have run: "t = (if ?gid = - 1 then snd (send fd (code ERROR) ''Failed to create group'' cur ?s1) else ?t)"
    using assms ids by (auto simp: handle_CREATE_GROUP_def allocate_group_def store_group_def Let_def simp del: code.simps split: if_splits)
  show ?thesis
  proof (cases "?gid = - 1")
    case True
    then have "exec_act e cur (Create_group fd ?name ids) s = (cur, ?s1, [Send_to fd (code ERROR) ''Failed to create group'' cur])"
      by (simp add: Let_def)
    from finishes_Cons [OF this finishes_single(1) finishes.finished] True run ids show ?thesis by (simp add: Let_def)
  next
    case False
    have "\<not> has_pg ?s3" using assms(1) by (simp add: has_pg_def)
    from finishes_append [OF finishes_single(2) finishes_append [OF finishes_single(1) finishes_said(5) [OF this]]]
    have "finishes e cur ([Log_it ''CREATE_GROUP'' ?uid ?d] @ [Send_to fd (code SUCCESS) (created_payload ?gid ?name ?uid ids) cur] @
        [Tell_group ?gid Created]) ?s2 cur ?t" .
    then have "finishes e cur [Store_group fd ?gid ?name ids] ?s1 cur ?t"
      by (intro finishes_Cons [OF _ _ finishes.finished, of e cur _ ?s1 cur ?s2]) (simp_all add: Let_def)
    then have "finishes e cur [Create_group fd ?name ids] s cur ?t"
      using False by (intro finishes_Cons [OF _ _ finishes.finished, of e cur _ s cur ?s1]) (simp_all add: Let_def)
    with run False ids show ?thesis by (simp add: Let_def)
  qed
qed

lemma notify_invited_returns: "\<exists>t. notify_invited gid uid cur s = (Inr (), t)"
  by (cases "is_online s uid") (simp_all add: notify_invited_def whenE_def touch_group_def)

lemma finishes_invited: "finishes e cur [Find_invited gid uid] s cur (snd (notify_invited gid uid cur s))"
proof (cases "online_fd s uid = - 1")
  case True
  then show ?thesis by (intro finishes_one) (simp add: notify_invited_def whenE_def)
next
  case False
  let ?tfd = "online_fd s uid" and ?s1 = "snd (touch_group gid s)"
  let ?p = "serialize_kv [(''groupId'', to_string gid), (''name'', g_name (um_at empty_group (g_groups ?s1) gid)),
    (''fromUserId'', to_string (uint cur))]"
  have "exec_act e cur (Invite_notice ?tfd gid) s = (cur, ?s1, [Send_to ?tfd (code INVITE_TO_GROUP) ?p cur])"
    by (simp add: Let_def)
  from finishes_Cons [OF this finishes_single(1) finishes.finished]
  have "finishes e cur [Invite_notice ?tfd gid] s cur (snd (send ?tfd (code INVITE_TO_GROUP) ?p cur ?s1))" .
  then have "finishes e cur [Find_invited gid uid] s cur (snd (send ?tfd (code INVITE_TO_GROUP) ?p cur ?s1))"
    using False by (intro finishes_Cons [OF _ _ finishes.finished, of e cur _ s cur s]) simp_all
  with False show ?thesis by (simp add: notify_invited_def whenE_def touch_group_def)
qed

lemma finishes_invite:
  assumes "\<not> has_pg s" and "handle_INVITE_TO_GROUP e fd payload cur s = (Inr x, t)"
  shows "finishes e cur (acts_of e fd cur (T_invite payload)) s cur t"
proof -
  let ?gid = "number_at payload ''groupId''" and ?uid = "number_at payload ''userId''"
  let ?s1 = "update_group ?gid (add_member ?uid) s"
  let ?s2 = "snd (notify_invited ?gid ?uid cur ?s1)"
  let ?t = "snd (send fd (code SUCCESS) ''Added'' cur (snd (announce_added e ?gid ?uid cur ?s2)))"
  note run = two_numbers [OF assms(2) [unfolded handle_INVITE_TO_GROUP_def Let_def]]
  show ?thesis
  proof (cases "is_member s ?gid (int_of_u32 cur)")
    case False
    then have "exec_act e cur (Check_invite fd ?gid ?uid) s = (cur, s, [Send_to fd (code ERROR) ''Invite failed'' cur])" by simp
    from finishes_Cons [OF this finishes_single(1) finishes.finished] False run assms(1) show ?thesis
      by (auto simp del: code.simps)
  next
    case True
    then have s1: "?s1 = s\<lparr>g_groups := um_put ?gid (add_member ?uid (um_at empty_group (g_groups s) ?gid)) (g_groups s)\<rparr>"
      by (auto simp: update_group_def is_member_def um_at_def split: option.splits)
    have pg: "\<not> has_pg ?s1" using assms(1) by simp
    have "finishes e cur ([Find_invited ?gid ?uid] @ [Tell_group ?gid (Added ?uid)] @ [Send_to fd (code SUCCESS) ''Added'' cur]) ?s1 cur ?t"
      by (intro finishes_append [OF finishes_invited] finishes_append [OF finishes_said(3) finishes_single(1)] announced_memory(2) pg)
    then have "finishes e cur [Add_user fd ?gid ?uid] s cur ?t"
      by (intro finishes_Cons [OF _ _ finishes.finished, of e cur _ s cur ?s1]) (simp_all add: s1)
    then have "finishes e cur [Check_invite fd ?gid ?uid] s cur ?t"
      using True by (intro finishes_Cons [OF _ _ finishes.finished, of e cur _ s cur s]) simp_all
    moreover have "t = ?t"
    proof -
      obtain v where "notify_invited ?gid ?uid cur ?s1 = (Inr (), v)" using notify_invited_returns by blast
      with True run assms(1) show ?thesis by (auto simp: announce_added_def simp del: code.simps)
    qed
    ultimately show ?thesis by simp
  qed
qed

lemma one_number:
  assumes "bindE (stoi_kv (parse_kv payload) ''groupId'') f s = (Inr x, t)"
  shows "f (number_at payload ''groupId'') s = (Inr x, t)"
  using assms by (cases "stoi (kv_at (parse_kv payload) ''groupId'')") (auto simp: stoi_kv_def number_at_def)

lemma notify_joined_returns: "\<exists>t. notify_joined e gid uid cur s = (Inr (), t)"
proof -
  have "\<exists>t. forE ids (\<lambda>memberUid. if memberUid = uid then retE () else
      bindE (getsE (\<lambda>s. um_get (g_online_clients s) memberUid)) (\<lambda>it. case it of None \<Rightarrow> retE () |
        Some tfd \<Rightarrow> send tfd ty p cur)) s = (Inr (), t)" for ids ty p
  proof (induction ids arbitrary: s)
    case (Cons m ids)
    then show ?case by (cases "m = uid"; cases "um_get (g_online_clients s) m") auto
  qed simp
  then show ?thesis by (simp add: notify_joined_def)
qed

lemma finishes_join:
  assumes "\<not> has_pg s" and "handle_ACCEPT_GROUP_INVITE e fd payload cur s = (Inr x, t)"
  shows "finishes e cur (acts_of e fd cur (T_join payload)) s cur t"
proof -
  let ?gid = "number_at payload ''groupId''" and ?uid = "int_of_u32 cur"
  let ?s1 = "update_group ?gid (add_member ?uid) s"
  let ?t = "snd (send fd (code SUCCESS) ''Accepted'' cur (snd (notify_joined e ?gid ?uid cur ?s1)))"
  note run = one_number [OF assms(2) [unfolded handle_ACCEPT_GROUP_INVITE_def Let_def]]
  obtain v where v: "notify_joined e ?gid ?uid cur ?s1 = (Inr (), v)" using notify_joined_returns by blast
  show ?thesis
  proof (cases "um_count (g_groups s) ?gid")
    case False
    then have "exec_act e cur (Join_group fd ?gid) s = (cur, ?s1, [Send_to fd (code ERROR) ''Accept failed'' cur])" by simp
    from finishes_Cons [OF this finishes_single(1) finishes.finished] False run assms(1) show ?thesis
      by (auto simp: accept_invite_def simp del: code.simps)
  next
    case True
    have "finishes e cur [Tell_joined fd ?gid] ?s1 cur ?t" by (intro finishes_one) simp
    then have "finishes e cur [Join_group fd ?gid] s cur ?t"
      using True by (intro finishes_Cons [OF _ _ finishes.finished, of e cur _ s cur ?s1]) simp_all
    moreover have "t = ?t" using True run assms(1) v by (auto simp: accept_invite_def simp del: code.simps)
    ultimately show ?thesis by simp
  qed
qed

lemma finishes_rename:
  assumes "\<not> has_pg s" and "handle_RENAME_GROUP e fd payload cur s = (Inr x, t)"
  shows "finishes e cur (acts_of e fd cur (T_rename payload)) s cur t"
proof -
  let ?gid = "number_at payload ''groupId''" and ?name = "kv_at (parse_kv payload) ''name''"
  let ?s1 = "update_group ?gid (\<lambda>g. g\<lparr>g_name := ?name\<rparr>) s"
  let ?t = "snd (send fd (code SUCCESS) ''Renamed'' cur (snd (announce_rename e ?gid ?name cur ?s1)))"
  note run = one_number [OF assms(2) [unfolded handle_RENAME_GROUP_def Let_def]]
  show ?thesis
  proof (cases "is_member s ?gid (int_of_u32 cur)")
    case False
    then have "exec_act e cur (Rename_it fd ?gid ?name) s = (cur, s, [Send_to fd (code ERROR) ''Rename failed'' cur])" by simp
    from finishes_Cons [OF this finishes_single(1) finishes.finished] False run assms(1) show ?thesis
      by (auto simp del: code.simps)
  next
    case True
    have "finishes e cur ([Tell_group ?gid (Renamed ?name)] @ [Send_to fd (code SUCCESS) ''Renamed'' cur]) ?s1 cur ?t"
      using assms(1) by (intro finishes_append [OF finishes_said(4) finishes_single(1)]) simp
    then have "finishes e cur [Rename_it fd ?gid ?name] s cur ?t"
      using True by (intro finishes_Cons [OF _ _ finishes.finished, of e cur _ s cur ?s1]) simp_all
    moreover have "t = ?t" using True run assms(1) by (auto simp: announce_rename_def simp del: code.simps)
    ultimately show ?thesis by simp
  qed
qed

lemma finishes_nickname:
  assumes "\<not> has_pg s" and "handle_SET_GROUP_NICKNAME e fd payload cur s = (Inr x, t)"
  shows "finishes e cur (acts_of e fd cur (T_nick payload)) s cur t"
proof -
  let ?gid = "number_at payload ''groupId''" and ?uid = "number_at payload ''userId''" and ?nick = "kv_at (parse_kv payload) ''nick''"
  let ?s1 = "update_group ?gid (\<lambda>g. g\<lparr>g_member_nicknames := um_put ?uid ?nick (g_member_nicknames g)\<rparr>) s"
  let ?sys = "nickname_text ?s1 (int_of_u32 cur) ?uid ?nick"
  let ?s2 = "snd (broadcast (code GROUP_MESSAGE) (system_payload e ?gid ?sys) 0 (member_ids e ?s1 ?gid) ?s1)"
  let ?t = "snd (send fd (code SUCCESS) ''Nickname set'' cur ?s2)"
  note run = two_numbers [OF assms(2) [unfolded handle_SET_GROUP_NICKNAME_def Let_def]]
  show ?thesis
  proof (cases "is_member s ?gid ?uid")
    case False
    then have "exec_act e cur (Nick_it fd ?gid ?uid ?nick) s = (cur, s, [Send_to fd (code ERROR) ''Set nickname failed'' cur])" by simp
    from finishes_Cons [OF this finishes_single(1) finishes.finished] False run assms(1) show ?thesis
      by (auto simp del: code.simps)
  next
    case True
    have "finishes e cur [Tell_found ?gid ?sys] ?s1 cur ?s2"
      by (intro finishes_Cons [OF _ finishes_broadcast finishes.finished]) simp
    then have "finishes e cur [Tell_nickname ?gid ?uid ?nick] ?s1 cur ?s2"
      by (intro finishes_Cons [OF _ _ finishes.finished, of e cur _ ?s1 cur ?s1]) simp_all
    from finishes_append [OF this finishes_single(1)]
    have "finishes e cur ([Tell_nickname ?gid ?uid ?nick] @ [Send_to fd (code SUCCESS) ''Nickname set'' cur]) ?s1 cur ?t" .
    then have "finishes e cur [Nick_it fd ?gid ?uid ?nick] s cur ?t"
      using True by (intro finishes_Cons [OF _ _ finishes.finished, of e cur _ s cur ?s1]) simp_all
    moreover have "t = ?t" using True run assms(1) by (auto simp: announce_nickname_def simp del: code.simps)
    ultimately show ?thesis by simp
  qed
qed

lemma finishes_register:
  assumes "\<not> has_pg s" and "handle_REGISTER e fd payload cur s = (Inr cur', t)"
  shows "finishes e cur (acts_of e fd cur (T_register payload)) s cur' t"
proof -
  have "register_user e fd payload cur s = (cur', t)"
    using assms
    by (auto simp: handle_REGISTER_def allocate_user_def register_user_def save_users_def Let_def simp del: code.simps split: if_splits)
  then show ?thesis by (auto intro: finishes_one)
qed

text \<open>
  A thread that no other thread interrupts does exactly what the handler does as one step, so the actions are
  the handlers, cut where the mutex is released.
\<close>

lemma thread_refines_handler:
  assumes "\<not> has_pg s" and "handler_of e fd cur r s = (Inr cur', t)"
  shows "finishes e cur (acts_of e fd cur r) s cur' t"
proof (cases r)
  case (T_login payload)
  with assms finishes_login show ?thesis by simp
next
  case (T_message payload)
  with assms show ?thesis by (auto simp: seqE_Inr_iff intro!: finishes_message simp del: acts_of.simps)
next
  case (T_group payload)
  with assms show ?thesis by (auto simp: seqE_Inr_iff intro!: finishes_group simp del: acts_of.simps)
next
  case (T_friend payload)
  with assms show ?thesis by (auto simp: seqE_Inr_iff intro!: finishes_request simp del: acts_of.simps)
next
  case (T_accept payload)
  with assms show ?thesis by (auto simp: seqE_Inr_iff intro!: finishes_friendship simp del: acts_of.simps)
next
  case (T_decline payload)
  with assms show ?thesis by (auto simp: seqE_Inr_iff intro!: finishes_friendship simp del: acts_of.simps)
next
  case (T_unfriend payload)
  with assms show ?thesis by (auto simp: seqE_Inr_iff intro!: finishes_friendship simp del: acts_of.simps)
next
  case (T_admin payload)
  with assms show ?thesis by (auto simp: seqE_Inr_iff intro!: finishes_admin simp del: acts_of.simps)
next
  case (T_remove payload)
  with assms show ?thesis by (auto simp: seqE_Inr_iff intro!: finishes_removal simp del: acts_of.simps)
next
  case (T_leave payload)
  with assms show ?thesis by (auto simp: seqE_Inr_iff intro!: finishes_leave simp del: acts_of.simps)
next
  case (T_create payload)
  with assms show ?thesis by (auto simp: seqE_Inr_iff intro!: finishes_create simp del: acts_of.simps)
next
  case (T_invite payload)
  with assms show ?thesis by (auto simp: seqE_Inr_iff intro!: finishes_invite simp del: acts_of.simps)
next
  case (T_join payload)
  with assms show ?thesis by (auto simp: seqE_Inr_iff intro!: finishes_join simp del: acts_of.simps)
next
  case (T_rename payload)
  with assms show ?thesis by (auto simp: seqE_Inr_iff intro!: finishes_rename simp del: acts_of.simps)
next
  case (T_nick payload)
  with assms show ?thesis by (auto simp: seqE_Inr_iff intro!: finishes_nickname simp del: acts_of.simps)
next
  case (T_register payload)
  with assms finishes_register show ?thesis by simp
next
  case T_logout
  with assms finishes_logout [of e cur fd s] show ?thesis by (auto simp: seqE_Inr_iff)
next
  case T_hangup
  with assms finishes_cleanup [of e cur s] show ?thesis by (auto simp: seqE_Inr_iff)
qed

subsection \<open>Every thread ends\<close>

fun rank :: "act \<Rightarrow> nat" where
  "rank (Find_and_send uid ty p u) = 1"
| "rank (Tell_friend fid uid online) = 1"
| "rank (Name_and_send fd u) = 1"
| "rank (List_friends uid online) = 2"
| "rank (List_members fd gid payload) = 2"
| "rank (Ask_friend fd target) = 1"
| "rank (Find_target fd payload) = 2"
| "rank (Announce gid sys notice) = 2"
| "rank (List_remaining gid uid) = 2"
| "rank (Leave_it fd gid) = 1"
| "rank (Tell_group gid x) = 3"
| "rank (Tell_found gid sys) = 2"
| "rank (Tell_nickname gid uid nick) = 3"
| "rank (Nick_it fd gid uid nick) = 4"
| "rank (Rename_it fd gid name) = 4"
| "rank (Join_group fd gid) = 1"
| "rank (Invite_notice tfd gid) = 1"
| "rank (Find_invited gid uid) = 2"
| "rank (Add_user fd gid uid) = 4"
| "rank (Check_invite fd gid uid) = 5"
| "rank (Store_group fd gid name ids) = 4"
| "rank (Create_group fd name ids) = 5"
| "rank (Promote_user fd gid uid) = 4"
| "rank (Remove_user fd gid uid) = 4"
| "rank (Check_admin fd gid uid) = 5"
| "rank (Check_removal fd gid uid) = 5"
| "rank (Check_login fd name pw) = 3"
| "rank (Sign_off fd) = 3"
| "rank Go_offline = 3"
| "rank a = 0"

lemma rank_decreases: "exec_act e cur a s = (cur', s', nexts) \<Longrightarrow> b \<in> set nexts \<Longrightarrow> rank b < rank a"
proof (cases a)
  case (Ask_friend fd target)
  moreover assume "exec_act e cur a s = (cur', s', nexts)" "b \<in> set nexts"
  ultimately show ?thesis by (cases rule: ask_friend_cases [of fd target cur s]) auto
qed (auto simp: Let_def split: if_splits option.splits sum.splits prod.splits)

lemma finishes_total: "\<exists>cur' t. finishes e cur as s cur' t"
proof -
  have "(\<forall>a \<in> set as. rank a < n) \<Longrightarrow> \<exists>cur' t. finishes e cur as s cur' t" for n
  proof (induction n arbitrary: as cur s)
    case 0
    then show ?case by (auto intro: finishes.finished)
  next
    case (Suc n)
    from Suc.prems show ?case
    proof (induction as arbitrary: cur s)
      case (Cons a as)
      obtain cur1 s1 nexts where x: "exec_act e cur a s = (cur1, s1, nexts)" by (cases "exec_act e cur a s")
      with rank_decreases [OF x] Cons.prems have "\<forall>b \<in> set nexts. rank b < n" by fastforce
      from Suc.IH [OF this] obtain cur2 s2 where "finishes e cur1 nexts s1 cur2 s2" by blast
      moreover from Cons obtain cur' t where "finishes e cur2 as s2 cur' t" by force
      ultimately show ?case using finishes_Cons [OF x] by blast
    qed (auto intro: finishes.finished)
  qed
  moreover have "rank a < 6" for a by (cases a) simp_all
  ultimately show ?thesis by blast
qed

end
