(* ===== verification/Thread_Pool.thy ===== *)
theory Thread_Pool
  imports Group_Threads
begin

text \<open>
  The threads of all connections, which interleave at the actions of \<open>Server_Threads\<close>: what holds of every
  interleaving of the messages and of the friendships, and what can happen between a critical section that
  looks something up and the one that uses it.
\<close>

subsection \<open>All connections\<close>

text \<open>
  A connection has its descriptor, its \<^verbatim>\<open>current_user_id\<close>, what its thread still has to do, and whether the
  thread lives. Connections are numbered in the order in which they were accepted; \<open>p_peer\<close> says which one is
  behind an open descriptor, \<open>p_got\<close> what arrived at which connection, \<open>p_asked\<close> the messages that the threads
  were asked to deliver. The descriptor of an accepted connection is one that is not open.
\<close>

record conn =
  n_fd :: int
  n_cur :: u32
  n_acts :: "act list"
  n_open :: bool

type_synonym msg_key = "u8 \<times> string \<times> u32"

record 'db pool =
  p_server :: "'db server"
  p_peer :: "int \<rightharpoonup> nat"
  p_conns :: "conn list"
  p_got :: "(nat \<times> sent) list"
  p_asked :: "msg_key list"

definition pool_start :: "'db server \<Rightarrow> 'db pool" where
  "pool_start s = \<lparr>p_server = s, p_peer = Map.empty, p_conns = [], p_got = [], p_asked = []\<rparr>"

fun finds :: "act list \<Rightarrow> msg_key list" where
  "finds [] = []"
| "finds (Find_and_send uid ty p u # as) = (ty, p, u) # finds as"
| "finds (a # as) = finds as"

definition arrivals :: "(int \<rightharpoonup> nat) \<Rightarrow> sent list \<Rightarrow> (nat \<times> sent) list" where
  "arrivals peer xs = concat (map (\<lambda>x. case peer (s_fd x) of None \<Rightarrow> [] | Some i \<Rightarrow> [(i, x)]) xs)"

definition pool_accept :: "int \<Rightarrow> 'db pool \<Rightarrow> 'db pool" where
  "pool_accept fd c =
     c\<lparr>p_peer := (p_peer c)(fd \<mapsto> length (p_conns c)),
       p_conns := p_conns c @ [\<lparr>n_fd = fd, n_cur = 0, n_acts = [], n_open = True\<rparr>]\<rparr>"

text \<open>The thread of connection \<open>i\<close> has read a request.\<close>

definition pool_read :: "'db env \<Rightarrow> nat \<Rightarrow> thread_request \<Rightarrow> 'db pool \<Rightarrow> 'db pool" where
  "pool_read e i r c =
     (let n = p_conns c ! i; todo = acts_of e (n_fd n) (n_cur n) r in
      c\<lparr>p_conns := (p_conns c)[i := n\<lparr>n_acts := todo\<rparr>], p_asked := p_asked c @ finds todo\<rparr>)"

text \<open>It runs its next action.\<close>

definition pool_run :: "'db env \<Rightarrow> nat \<Rightarrow> 'db pool \<Rightarrow> 'db pool" where
  "pool_run e i c =
     (let n = p_conns c ! i in
      case n_acts n of
        [] \<Rightarrow> c
      | a # as \<Rightarrow>
          (case exec_act e (n_cur n) a (p_server c) of (cur, s, nexts) \<Rightarrow>
             c\<lparr>p_server := s,
               p_peer := (if a = Close_fd then (p_peer c)(n_fd n := None) else p_peer c),
               p_conns := (p_conns c)[i := n\<lparr>n_cur := cur, n_acts := nexts @ as, n_open := (n_open n \<and> a \<noteq> Close_fd)\<rparr>],
               p_got := p_got c @ arrivals (p_peer c) (drop (length (outbox (p_server c))) (outbox s)),
               p_asked := p_asked c @ finds nexts\<rparr>))"

inductive pool_step :: "'db pool \<Rightarrow> 'db pool \<Rightarrow> bool" where
  s_accept: "0 \<le> fd \<Longrightarrow> p_peer c fd = None \<Longrightarrow> pool_step c (pool_accept fd c)"
| s_read: "i < length (p_conns c) \<Longrightarrow> n_open (p_conns c ! i) \<Longrightarrow> n_acts (p_conns c ! i) = [] \<Longrightarrow> readable r \<Longrightarrow>
    pool_step c (pool_read e i r c)"
| s_run: "i < length (p_conns c) \<Longrightarrow> n_acts (p_conns c ! i) \<noteq> [] \<Longrightarrow> pool_step c (pool_run e i c)"

definition pool_reachable :: "'db server \<Rightarrow> 'db pool \<Rightarrow> bool" where
  "pool_reachable s0 c \<longleftrightarrow> pool_step\<^sup>*\<^sup>* (pool_start s0) c"

lemma pool_step_elim:
  fixes c :: "'db pool"
  assumes "pool_step c c'"
  obtains (waits) "p_server c' = p_server c"
      "\<And>n. n \<in> set (p_conns c') \<Longrightarrow> n \<in> set (p_conns c) \<or> n_cur n = 0 \<and> n_acts n = [] \<or>
         (\<exists>(e :: 'db env) fd r. n_acts n = acts_of e fd (n_cur n) r)"
  | (runs) n e a as cur nexts where "n \<in> set (p_conns c)" "n_acts n = a # as"
      "exec_act e (n_cur n) a (p_server c) = (cur, p_server c', nexts)"
      "\<And>n'. n' \<in> set (p_conns c') \<Longrightarrow> n' \<in> set (p_conns c) \<or> n_cur n' = cur \<and> n_acts n' = nexts @ as"
  using assms
proof cases
  case (s_accept fd)
  then show thesis by (intro waits) (auto simp: pool_accept_def)
next
  case (s_read i r e)
  let ?n = "p_conns c ! i"
  let ?new = "?n\<lparr>n_acts := acts_of e (n_fd ?n) (n_cur ?n) r\<rparr>"
  have conns: "set (p_conns c') \<subseteq> insert ?new (set (p_conns c))"
    using s_read by (simp add: pool_read_def Let_def set_update_subset_insert)
  have "n_acts ?new = acts_of e (n_fd ?n) (n_cur ?new) r" by simp
  with conns s_read(1) show thesis by (intro waits) (simp add: pool_read_def Let_def, blast)
next
  case (s_run i e)
  let ?n = "p_conns c ! i"
  obtain a as where acts: "n_acts ?n = a # as" using s_run by (cases "n_acts ?n") auto
  obtain cur s nexts where x: "exec_act e (n_cur ?n) a (p_server c) = (cur, s, nexts)"
    by (cases "exec_act e (n_cur ?n) a (p_server c)")
  with s_run acts have c': "p_server c' = s" "p_conns c' = (p_conns c)[i := ?n\<lparr>n_cur := cur, n_acts := nexts @ as,
      n_open := (n_open ?n \<and> a \<noteq> Close_fd)\<rparr>]"
    by (simp_all add: pool_run_def Let_def)
  show thesis
    by (rule runs [of ?n a as e cur nexts])
      (use s_run acts x c' in \<open>auto dest!: set_mp [OF set_update_subset_insert]\<close>)
qed

text \<open>
  The contract of an invariant of all threads: a predicate on the tables and one on a thread, its account and
  what it still has to do, that every action keeps.
\<close>

locale thread_inv =
  fixes K :: "'db server \<Rightarrow> bool" and L :: "u32 \<Rightarrow> act list \<Rightarrow> bool"
  assumes fresh: "L 0 []"
    and asked: "L cur (acts_of (e :: 'db env) fd cur r)"
    and exec_keeps: "K s \<Longrightarrow> L cur (a # as) \<Longrightarrow> exec_act e cur a s = (cur', s', nexts) \<Longrightarrow> K s' \<and> L cur' (nexts @ as)"
begin

lemma step_inv:
  assumes "pool_step c c'" and "K (p_server c) \<and> (\<forall>n \<in> set (p_conns c). L (n_cur n) (n_acts n))"
  shows "K (p_server c') \<and> (\<forall>n \<in> set (p_conns c'). L (n_cur n) (n_acts n))"
  using assms(1)
proof (cases rule: pool_step_elim)
  case waits
  with assms(2) fresh asked show ?thesis by metis
next
  case (runs n e a as cur nexts)
  with assms(2) have "K (p_server c')" "L cur (nexts @ as)" using exec_keeps [OF _ _ runs(3)] by metis+
  with assms(2) runs(4) show ?thesis by metis
qed

lemma reachable_inv:
  assumes "pool_reachable s0 c" and "K s0"
  shows "K (p_server c) \<and> (\<forall>n \<in> set (p_conns c). L (n_cur n) (n_acts n))"
  using assms(1) unfolding pool_reachable_def
proof (induction rule: rtranclp_induct)
  case base
  with assms(2) show ?case by (simp add: pool_start_def)
qed (rule step_inv)

end

subsection \<open>No message is lost or doubled\<close>

fun act_weight :: "msg_key \<Rightarrow> act \<Rightarrow> nat" where
  "act_weight m (Find_and_send uid ty p u) = of_bool (m = (ty, p, u))"
| "act_weight m (Send_to fd ty p u) = of_bool (m = (ty, p, u))"
| "act_weight m (Enqueue uid ty p u) = of_bool (m = (ty, p, u))"
| "act_weight m a = 0"

definition load :: "msg_key \<Rightarrow> act list \<Rightarrow> nat" where
  "load m as = sum_list (map (act_weight m) as)"

definition sent_count :: "msg_key \<Rightarrow> 'db server \<Rightarrow> nat" where
  "sent_count m s = length (filter (\<lambda>x. (s_type x, s_payload x, s_userId x) = m) (outbox s))"

definition key_count :: "msg_key \<Rightarrow> pending_msg list \<Rightarrow> nat" where
  "key_count m q = length (filter (\<lambda>x. (pm_type x, pm_payload x, pm_fromUserId x) = m) q)"

definition queued_count :: "msg_key \<Rightarrow> 'db server \<Rightarrow> nat" where
  "queued_count m s = sum_list (map (\<lambda>(uid, q). key_count m q) (g_offline_messages s))"

definition outstanding :: "msg_key \<Rightarrow> 'db pool \<Rightarrow> nat" where
  "outstanding m c = sum_list (map (\<lambda>n. load m (n_acts n)) (p_conns c))"

lemma load_simps [simp]:
  "load m [] = 0" "load m (a # as) = act_weight m a + load m as" "load m (as @ bs) = load m as + load m bs"
  by (simp_all add: load_def)

lemma key_count_simps [simp]:
  "key_count m [] = 0" "key_count m (q @ q') = key_count m q + key_count m q'"
  by (simp_all add: key_count_def)

lemma queue_put:
  "sum_list (map (\<lambda>(k, q). key_count m q) (um_put uid (um_at [] ms uid @ q) ms)) =
     sum_list (map (\<lambda>(k, q). key_count m q) ms) + key_count m q"
  by (induction ms) (auto simp: um_at_def)

lemma queue_erase:
  "um_ok ms \<Longrightarrow> sum_list (map (\<lambda>(k, q). key_count m q) (um_erase uid ms)) + key_count m (um_at [] ms uid) =
     sum_list (map (\<lambda>(k, q). key_count m q) ms)"
proof (induction ms)
  case (Cons x ms)
  obtain k q where x: "x = (k, q)" by (cases x)
  show ?case
  proof (cases "k = uid")
    case True
    with Cons.prems x have "uid \<notin> fst ` set ms" by (auto simp: um_ok_def)
    then have "um_erase uid ms = ms" by (simp add: delete_id)
    with True x show ?thesis by (simp add: um_at_def)
  next
    case False
    with Cons x show ?thesis by (auto simp: um_at_def um_ok_def)
  qed
qed (simp add: um_at_def)

text \<open>The messages that are counted: the two types that are delivered or queued.\<close>

definition delivered_type :: "u8 \<Rightarrow> bool" where
  "delivered_type ty \<longleftrightarrow> ty = code DIRECT_MESSAGE \<or> ty = code GROUP_MESSAGE"

definition server_count :: "msg_key \<Rightarrow> 'db server \<Rightarrow> nat" where
  "server_count m s = sent_count m s + queued_count m s"

lemma count_frames [simp]:
  "server_count m (s\<lparr>activity := y\<rparr>) = server_count m s" "server_count m (s\<lparr>g_friends := f\<rparr>) = server_count m s"
  "server_count m (s\<lparr>g_online_clients := oc\<rparr>) = server_count m s" "server_count m (s\<lparr>g_friend_requests := r\<rparr>) = server_count m s"
  "server_count m (s\<lparr>g_groups := gs\<rparr>) = server_count m s" "server_count m (s\<lparr>g_next_group_id := k\<rparr>) = server_count m s"
  "server_count m (s\<lparr>g_friends := f, outbox := x\<rparr>) = server_count m (s\<lparr>outbox := x\<rparr>)"
  "server_count m (s\<lparr>g_friend_requests := r, outbox := x\<rparr>) = server_count m (s\<lparr>outbox := x\<rparr>)"
  "server_count m (s\<lparr>g_friends := f, g_friend_requests := r, outbox := x\<rparr>) = server_count m (s\<lparr>outbox := x\<rparr>)"
  "server_count m (s\<lparr>outbox := outbox s @ [sent_msg fd ty p u]\<rparr>) = server_count m s + of_bool (m = (ty, p, u))"
  by (auto simp: server_count_def sent_count_def queued_count_def)

lemma count_enqueue:
  "server_count m (snd (enqueue_offline uid ty p u s)) = server_count m s + of_bool (m = (ty, p, u))"
proof -
  have "key_count m [queued_msg ty p u] = of_bool (m = (ty, p, u))" by (auto simp: key_count_def)
  then show ?thesis
    by (simp add: server_count_def sent_count_def queued_count_def enqueue_offline_def queue_put)
qed

lemma count_take:
  "um_ok (g_offline_messages s) \<Longrightarrow>
    server_count m (s\<lparr>g_online_clients := oc, g_offline_messages := um_erase uid (g_offline_messages s)\<rparr>) +
      key_count m (offline_queue s uid) = server_count m s"
  using queue_erase [of "g_offline_messages s" m uid]
  by (simp add: server_count_def sent_count_def queued_count_def offline_queue_def)

lemma load_maps [simp]:
  "load m (map (\<lambda>pm. Send_to fd (pm_type pm) (pm_payload pm) (pm_fromUserId pm)) q) = key_count m q"
  "load m (map (Name_and_send fd) rs) = 0" "load m (map (\<lambda>fid. Tell_friend fid uid b) fs) = 0"
  "load m (map (\<lambda>v. Find_and_send v ty p u) ids) = count_list (finds (map (\<lambda>v. Find_and_send v ty p u) ids)) m"
proof -
  show "load m (map (\<lambda>pm. Send_to fd (pm_type pm) (pm_payload pm) (pm_fromUserId pm)) q) = key_count m q"
    by (induction q) (auto simp: key_count_def)
  show "load m (map (Name_and_send fd) rs) = 0" by (induction rs) simp_all
  show "load m (map (\<lambda>fid. Tell_friend fid uid b) fs) = 0" by (induction fs) simp_all
  show "load m (map (\<lambda>v. Find_and_send v ty p u) ids) = count_list (finds (map (\<lambda>v. Find_and_send v ty p u) ids)) m"
    by (induction ids) auto
qed

lemma finds_simps [simp]:
  "finds (as @ bs) = finds as @ finds bs" "finds (map (Name_and_send fd) rs) = []"
  "finds (map (\<lambda>pm. Send_to fd (pm_type pm) (pm_payload pm) (pm_fromUserId pm)) q) = []"
  "finds (map (\<lambda>fid. Tell_friend fid uid b) fs) = []"
proof -
  show "finds (as @ bs) = finds as @ finds bs" by (induction as rule: finds.induct) simp_all
  show "finds (map (Name_and_send fd) rs) = []" by (induction rs) simp_all
  show "finds (map (\<lambda>pm. Send_to fd (pm_type pm) (pm_payload pm) (pm_fromUserId pm)) q) = []"
    by (induction q) simp_all
  show "finds (map (\<lambda>fid. Tell_friend fid uid b) fs) = []" by (induction fs) simp_all
qed

lemma update_group_frame: "\<exists>gs. update_group gid f s = s\<lparr>g_groups := gs\<rparr>"
proof (cases "um_get (g_groups s) gid")
  case None
  then have "update_group gid f s = s\<lparr>g_groups := g_groups s\<rparr>" by (simp add: update_group_def)
  then show ?thesis by blast
qed (auto simp: update_group_def)

text \<open>The actions that change the groups change nothing else.\<close>

fun group_act :: "act \<Rightarrow> bool" where
  "group_act (Announce gid sys notice) = True"
| "group_act (Leave_it fd gid) = True"
| "group_act (Promote_user fd gid uid) = True"
| "group_act (Remove_user fd gid uid) = True"
| "group_act (Create_group fd name ids) = True"
| "group_act (Store_group fd gid name ids) = True"
| "group_act (Add_user fd gid uid) = True"
| "group_act (Invite_notice tfd gid) = True"
| "group_act (Join_group fd gid) = True"
| "group_act (Rename_it fd gid name) = True"
| "group_act (Nick_it fd gid uid nick) = True"
| "group_act a = False"

definition group_change :: "'db server \<Rightarrow> 'db server \<Rightarrow> bool" where
  "group_change s s' \<longleftrightarrow> (\<exists>gs k. s' = s\<lparr>g_next_group_id := k, g_groups := gs\<rparr>)"

lemma group_change_frames:
  "group_change s (s\<lparr>g_groups := gs\<rparr>)" "group_change s s" "group_change s (update_group gid f s)"
  "group_change s (snd (touch_group gid s))" "group_change s (snd (leave_memory gid uid s))"
proof -
  have same: "s\<lparr>g_groups := gs\<rparr> = s\<lparr>g_next_group_id := g_next_group_id s, g_groups := gs\<rparr>" for gs by simp
  then show part: "group_change s (s\<lparr>g_groups := gs\<rparr>)" for gs unfolding group_change_def by blast
  have "s = s\<lparr>g_groups := g_groups s\<rparr>" by simp
  then show "group_change s s" using part by metis
  show "group_change s (update_group gid f s)" using update_group_frame part by metis
  show "group_change s (snd (touch_group gid s))" using part by (simp add: touch_group_def)
  show "group_change s (snd (leave_memory gid uid s))" using leave_memory_returns part by (metis snd_conv)
qed

lemma group_act_exec:
  assumes "exec_act e cur a s = (cur', s', nexts)" and "group_act a"
  shows "group_change s s'"
    and "delivered_type ty \<Longrightarrow> load (ty, p, u) nexts = count_list (finds nexts) (ty, p, u)"
    and "act_weight m a = 0"
proof -
  show "group_change s s'"
  proof (cases a)
    case (Create_group fd name ids)
    with assms(1) show ?thesis unfolding group_change_def by (auto simp: Let_def)
  next
    case (Leave_it fd gid)
    with assms(1) group_change_frames(5) [of s gid "int_of_u32 cur"] show ?thesis
      by (cases "leave_memory gid (int_of_u32 cur) s") simp
  qed (use assms group_change_frames in \<open>auto simp: Let_def split: if_splits\<close>)
  show "load (ty, p, u) nexts = count_list (finds nexts) (ty, p, u)" if "delivered_type ty"
    using assms that by (cases a) (auto simp: Let_def delivered_type_def split: prod.splits option.splits if_splits)
  show "act_weight m a = 0" using assms(2) by (cases a) simp_all
qed

text \<open>The two actions that send several messages themselves send none that is counted.\<close>

lemma server_count_replies:
  assumes "g_offline_messages s' = g_offline_messages s" and "outbox s' = outbox s @ xs"
    and "\<forall>x \<in> set xs. \<not> delivered_type (s_type x)" and "delivered_type ty"
  shows "server_count (ty, p, u) s' = server_count (ty, p, u) s"
  using assms by (auto simp: server_count_def sent_count_def queued_count_def filter_empty_conv)

lemma joined_sends:
  "\<exists>xs. snd (notify_joined e gid uid cur s) = s\<lparr>outbox := outbox s @ xs\<rparr> \<and> (\<forall>x \<in> set xs. s_type x = code SUCCESS)"
proof -
  have "\<exists>xs. snd (forE ids (\<lambda>memberUid. if memberUid = uid then retE () else
      bindE (getsE (\<lambda>s. um_get (g_online_clients s) memberUid)) (\<lambda>it. case it of None \<Rightarrow> retE () |
        Some tfd \<Rightarrow> send tfd (code SUCCESS) p cur)) s) = s\<lparr>outbox := outbox s @ xs\<rparr> \<and>
      (\<forall>x \<in> set xs. s_type x = code SUCCESS)" for ids p
  proof (induction ids arbitrary: s)
    case Nil
    show ?case by (intro exI [of _ "[]"]) simp
  next
    case (Cons m ids)
    show ?case
    proof (cases "m \<noteq> uid \<and> (\<exists>tfd. um_get (g_online_clients s) m = Some tfd)")
      case True
      then obtain tfd where tfd: "um_get (g_online_clients s) m = Some tfd" "m \<noteq> uid" by blast
      let ?s1 = "s\<lparr>outbox := outbox s @ [sent_msg tfd (code SUCCESS) p cur]\<rparr>"
      from Cons.IH [of ?s1] obtain xs where "snd (forE ids (\<lambda>memberUid. if memberUid = uid then retE () else
          bindE (getsE (\<lambda>s. um_get (g_online_clients s) memberUid)) (\<lambda>it. case it of None \<Rightarrow> retE () |
            Some tfd \<Rightarrow> send tfd (code SUCCESS) p cur)) ?s1) = ?s1\<lparr>outbox := outbox ?s1 @ xs\<rparr>"
        "\<forall>x \<in> set xs. s_type x = code SUCCESS" by blast
      with tfd show ?thesis by (intro exI [of _ "sent_msg tfd (code SUCCESS) p cur # xs"]) (simp del: code.simps)
    next
      case False
      with Cons.IH [of s] show ?thesis by (cases "m = uid"; cases "um_get (g_online_clients s) m") auto
    qed
  qed
  then show ?thesis by (simp add: notify_joined_def)
qed

lemma register_effect:
  assumes "register_user e fd payload cur s = (cur', s')"
  shows "g_offline_messages s' = g_offline_messages s \<and> social_of s' = social_of s \<and> has_pg s' = has_pg s \<and>
    g_groups s' = g_groups s \<and>
    (\<exists>x. outbox s' = outbox s @ [x] \<and> (s_type x = code SUCCESS \<or> s_type x = code ERROR))"
  using assms
  by (auto simp: register_user_def save_users_def Let_def has_pg_def simp del: code.simps split: if_splits)
    (auto simp: store_registered_def social_of_def are_friends_def friend_map_def pending_requests_def)

lemma exec_conserves_other:
  assumes "exec_act e cur a s = (cur', s', nexts)" and "um_ok (g_offline_messages s)" and "delivered_type ty" and not_group: "\<not> group_act a"
  shows "um_ok (g_offline_messages s') \<and>
    server_count (ty, p, u) s' + load (ty, p, u) nexts =
      server_count (ty, p, u) s + act_weight (ty, p, u) a + count_list (finds nexts) (ty, p, u)"
proof (cases a)
  case (Check_login fd name pw)
  show ?thesis
  proof (cases "\<exists>v. um_get (g_users_by_name s) name = Some v \<and> u_password_hash v = pw")
    case True
    then obtain v where v: "um_get (g_users_by_name s) name = Some v" "u_password_hash v = pw" by blast
    from count_take [OF assms(2), where m = "(ty, p, u)" and oc = "um_put (u_id v) fd (g_online_clients s)" and uid = "u_id v"] v assms Check_login
    show ?thesis by (auto simp: Let_def delivered_type_def)
  next
    case False
    then have "exec_act e cur a s = (cur, snd (send fd (code ERROR) ''Invalid credentials'' 0 s), [])"
      using Check_login by (auto split: option.split)
    with assms show ?thesis by (auto simp: delivered_type_def Check_login)
  qed
next
  case (Enqueue uid ty' p' u')
  with assms show ?thesis by (auto simp: count_enqueue) (auto simp: enqueue_offline_def)
next
  case (Ask_friend fd target)
  with assms show ?thesis
    by (cases rule: ask_friend_cases [of fd target cur s]) (auto simp: delivered_type_def)
next
  case (Tell_target target)
  with assms show ?thesis by (auto simp: delivered_type_def notify_request_def split: option.splits)
next
  case (Find_target fd payload)
  with assms show ?thesis by (auto simp: delivered_type_def split: sum.splits if_splits)
next
  case (Tell_joined fd gid)
  obtain xs where "snd (notify_joined e gid (int_of_u32 cur) cur s) = s\<lparr>outbox := outbox s @ xs\<rparr>"
    "\<forall>x \<in> set xs. s_type x = code SUCCESS" using joined_sends by blast
  with Tell_joined assms show ?thesis
    by (auto intro!: server_count_replies [of _ _ "xs @ [sent_msg fd (code SUCCESS) ''Accepted'' cur]"] simp: delivered_type_def)
next
  case (Register_it fd payload)
  obtain c t where run: "register_user e fd payload cur s = (c, t)" by (cases "register_user e fd payload cur s")
  from register_effect [OF this] obtain x where "outbox t = outbox s @ [x]" "s_type x = code SUCCESS \<or> s_type x = code ERROR"
    "g_offline_messages t = g_offline_messages s" by blast
  with Register_it run assms show ?thesis
    by (auto intro!: server_count_replies [of _ _ "[x]"] simp: delivered_type_def)
qed (use assms not_group in \<open>auto simp: Let_def delivered_type_def touch_friends_def accept_memory_def unfriend_memory_def
      drop_request_def set_friend_def clear_friend_def split: if_splits\<close>)

lemma exec_conserves:
  assumes "exec_act e cur a s = (cur', s', nexts)" and "um_ok (g_offline_messages s)" and "delivered_type ty"
  shows "um_ok (g_offline_messages s') \<and>
    server_count (ty, p, u) s' + load (ty, p, u) nexts =
      server_count (ty, p, u) s + act_weight (ty, p, u) a + count_list (finds nexts) (ty, p, u)"
proof (cases "group_act a")
  case True
  then have "load (ty, p, u) nexts = count_list (finds nexts) (ty, p, u)" "act_weight (ty, p, u) a = 0"
    using group_act_exec [OF assms(1)] assms(3) by blast+
  moreover obtain gs k where "s' = s\<lparr>g_next_group_id := k, g_groups := gs\<rparr>"
    using group_act_exec(1) [OF assms(1) True] by (auto simp: group_change_def)
  ultimately show ?thesis using assms(2) by simp
qed (rule exec_conserves_other [OF assms])

lemma sum_list_map_update:
  fixes f :: "'a \<Rightarrow> nat"
  shows "i < length xs \<Longrightarrow> sum_list (map f (xs[i := x])) + f (xs ! i) = sum_list (map f xs) + f x"
  by (induction xs arbitrary: i) (auto split: nat.split)

lemma load_request:
  "delivered_type ty \<Longrightarrow>
    load (ty, p, u) (acts_of e fd cur r) = count_list (finds (acts_of e fd cur r)) (ty, p, u)"
  by (cases r) (auto simp: Let_def delivered_type_def split: sum.split)

text \<open>What a step adds to the messages on their way, sent and queued is what the threads are asked to deliver in it.\<close>

lemma step_conserves:
  fixes p :: string and u :: u32
  assumes "pool_step c c'" and "um_ok (g_offline_messages (p_server c))" and "delivered_type ty"
  defines "m \<equiv> (ty, p, u)"
  shows "server_count m (p_server c') + outstanding m c' + count_list (p_asked c) m =
    server_count m (p_server c) + outstanding m c + count_list (p_asked c') m"
  using assms(1)
proof cases
  case (s_accept fd)
  then show ?thesis by (simp add: pool_accept_def outstanding_def)
next
  case (s_read i r e)
  let ?n = "p_conns c ! i"
  let ?acts = "acts_of e (n_fd ?n) (n_cur ?n) r"
  have "outstanding m c' = outstanding m c + load m ?acts"
    using sum_list_map_update [OF s_read(2), of "\<lambda>n. load m (n_acts n)" "?n\<lparr>n_acts := ?acts\<rparr>"] s_read
    by (simp add: outstanding_def pool_read_def Let_def)
  with s_read load_request [OF assms(3), of p u e "n_fd ?n" "n_cur ?n" r] show ?thesis
    by (simp add: pool_read_def Let_def m_def)
next
  case (s_run i e)
  let ?n = "p_conns c ! i"
  obtain a as where acts: "n_acts ?n = a # as" using s_run by (cases "n_acts ?n") auto
  obtain cur s nexts where x: "exec_act e (n_cur ?n) a (p_server c) = (cur, s, nexts)"
    by (cases "exec_act e (n_cur ?n) a (p_server c)")
  have "outstanding m c' + act_weight m a = outstanding m c + load m nexts"
    using sum_list_map_update [OF s_run(2), of "\<lambda>n. load m (n_acts n)"
        "?n\<lparr>n_cur := cur, n_acts := nexts @ as, n_open := (n_open ?n \<and> a \<noteq> Close_fd)\<rparr>"] s_run acts x
    by (simp add: outstanding_def pool_run_def Let_def)
  moreover have "p_server c' = s" "p_asked c' = p_asked c @ finds nexts"
    using s_run acts x by (simp_all add: pool_run_def Let_def)
  ultimately show ?thesis using exec_conserves [OF x assms(2,3), of p u] by (simp add: m_def)
qed

lemma exec_queues:
  assumes "exec_act e cur a s = (cur', s', nexts)" and "um_ok (g_offline_messages s)"
  shows "um_ok (g_offline_messages s')"
  using exec_conserves [OF assms, of "code DIRECT_MESSAGE" "[]" 0] by (simp add: delivered_type_def)

interpretation queues: thread_inv "\<lambda>s. um_ok (g_offline_messages s)" "\<lambda>_ _. True"
  by unfold_locales (auto intro: exec_queues)

lemma reachable_conserves:
  assumes "pool_reachable s0 c" and "um_ok (g_offline_messages s0)" and "delivered_type ty"
  shows "server_count (ty, p, u) (p_server c) + outstanding (ty, p, u) c =
    server_count (ty, p, u) s0 + count_list (p_asked c) (ty, p, u)"
  using assms(1)[unfolded pool_reachable_def]
proof (induction rule: rtranclp_induct)
  case base
  show ?case by (simp add: pool_start_def outstanding_def)
next
  case (step c c')
  then have "um_ok (g_offline_messages (p_server c))"
    using queues.reachable_inv [of s0 c] assms(2) by (simp add: pool_reachable_def)
  from step_conserves [OF step(2) this assms(3), of p u] step(3) show ?case by simp
qed

text \<open>
  C14: In a server without a database, however the threads of the connections interleave, a direct or group message
  is lost or doubled nowhere between the threads: at every moment the number of its copies that were sent on a
  descriptor, wait in a queue or are on their way in some thread is the number at the start plus the number of times the threads were asked
  to deliver it. In particular nothing is on its way when no thread has anything left to do.
\<close>

theorem messages_conserved:
  assumes "pool_reachable s0 c" and "um_ok (g_offline_messages s0)" and "delivered_type ty"
  shows "server_count (ty, p, u) (p_server c) + outstanding (ty, p, u) c =
    server_count (ty, p, u) s0 + count_list (p_asked c) (ty, p, u)"
  by (rule reachable_conserves [OF assms])

subsection \<open>Threads and the graph of friendships\<close>

text \<open>The user who acts in an event.\<close>

primrec social_actor :: "social_event \<Rightarrow> int option" where
  "social_actor (Ask a b) = Some a"
| "social_actor (Befriend a b) = Some a"
| "social_actor (Refuse a b) = Some a"
| "social_actor (Part a b) = Some a"
| "social_actor Nothing = None"

text \<open>A piece of a branch leaves the graph alone or is an event of the account of the connection.\<close>

definition graph_move :: "u32 \<Rightarrow> 'db server \<Rightarrow> 'db server \<Rightarrow> bool" where
  "graph_move cur s s' \<longleftrightarrow> \<not> has_pg s' \<and> (social_of s' = social_of s \<or>
     (\<exists>ev. social_actor ev = Some (int_of_u32 cur) \<and> social_of s' = social_next ev (social_of s)))"

lemma graph_move_still: "\<not> has_pg s' \<Longrightarrow> social_of s' = social_of s \<Longrightarrow> graph_move cur s s'"
  by (simp add: graph_move_def)

lemma graph_move_event:
  "\<not> has_pg s' \<Longrightarrow> social_actor ev = Some (int_of_u32 cur) \<Longrightarrow> social_of s' = social_next ev (social_of s) \<Longrightarrow>
    graph_move cur s s'"
  unfolding graph_move_def by blast

lemma memory_mode_frames [simp]:
  "has_pg (s\<lparr>outbox := x\<rparr>) = has_pg s" "has_pg (s\<lparr>activity := y\<rparr>) = has_pg s"
  "has_pg (s\<lparr>g_friends := f\<rparr>) = has_pg s" "has_pg (s\<lparr>g_friend_requests := r\<rparr>) = has_pg s"
  "has_pg (s\<lparr>g_online_clients := c\<rparr>) = has_pg s" "has_pg (s\<lparr>g_offline_messages := q\<rparr>) = has_pg s"
  "has_pg (accept_memory a b s) = has_pg s" "has_pg (drop_request a b s) = has_pg s"
  "has_pg (unfriend_memory a b s) = has_pg s"
  by (simp_all add: has_pg_def accept_memory_def drop_request_def unfriend_memory_def set_friend_def clear_friend_def)

lemma ask_moves:
  assumes "\<not> has_pg s" and "target \<noteq> int_of_u32 cur"
  shows "graph_move cur s (fst (ask_friend fd target cur s))"
proof -
  let ?uid = "int_of_u32 cur"
  obtain s1 where s1: "already_friends ?uid target s = (Inr (are_friends s ?uid target \<or> are_friends s target ?uid), s1)"
    "\<not> has_pg s1" "social_of s1 = social_of s" "are_friends s1 = are_friends s"
    using already_friends_run [OF assms(1)] by metis
  let ?s2 = "s1\<lparr>g_friend_requests :=
    um_put target (push_back_new ?uid (um_at [] (g_friend_requests s1) target)) (g_friend_requests s1)\<rparr>"
  show ?thesis
  proof (cases "are_friends s ?uid target \<or> are_friends s target ?uid")
    case True
    with s1 show ?thesis by (intro graph_move_still) (auto simp: ask_friend_def)
  next
    case False
    then have "social_of ?s2 = social_next (Ask ?uid target) (social_of s)"
      using social_of_ask [of ?uid target s1] assms(2) s1(3,4) by (simp del: social_next.simps)
    moreover have "social_of (fst (ask_friend fd target cur s)) = social_of ?s2 \<and> \<not> has_pg (fst (ask_friend fd target cur s))"
      using False s1 by (simp add: ask_friend_def Let_def)
    ultimately show ?thesis by (intro graph_move_event [of _ "Ask ?uid target"]) simp_all
  qed
qed

lemma exec_moves_other:
  assumes "exec_act e cur a s = (cur', s', nexts)" and "\<not> has_pg s" and "\<And>fd target. a = Ask_friend fd target \<Longrightarrow> target \<noteq> int_of_u32 cur"
    and not_group: "\<not> group_act a"
  shows "graph_move cur s s'"
proof (cases a)
  case (Ask_friend fd target)
  with assms ask_moves [of s target cur fd] show ?thesis by (cases "ask_friend fd target cur s") simp
next
  case (Accept_friend fd other)
  with assms show ?thesis
    by (intro graph_move_event [of _ "Befriend (int_of_u32 cur) other"]) (auto simp: social_of_accept simp del: social_next.simps)
next
  case (Decline_friend fd other)
  with assms show ?thesis
    by (intro graph_move_event [of _ "Refuse (int_of_u32 cur) other"]) (auto simp: social_of_drop simp del: social_next.simps)
next
  case (End_friend fd other)
  with assms show ?thesis
    by (intro graph_move_event [of _ "Part (int_of_u32 cur) other"]) (auto simp: social_of_unfriend simp del: social_next.simps)
next
  case (Check_login fd name pw)
  with assms show ?thesis by (intro graph_move_still) (auto simp: Let_def social_of_def split: option.splits if_splits)
next
  case (Find_target fd payload)
  with assms show ?thesis by (intro graph_move_still) (auto split: sum.splits if_splits)
next
  case (Tell_target target)
  with assms show ?thesis by (intro graph_move_still) (auto simp: notify_request_def split: option.splits)
next
  case (Tell_joined fd gid)
  obtain xs where "snd (notify_joined e gid (int_of_u32 cur) cur s) = s\<lparr>outbox := outbox s @ xs\<rparr>" using joined_sends by blast
  with Tell_joined assms show ?thesis by (intro graph_move_still) auto
next
  case (Register_it fd payload)
  obtain c t where run: "register_user e fd payload cur s = (c, t)" by (cases "register_user e fd payload cur s")
  from register_effect [OF this] Register_it run assms show ?thesis by (intro graph_move_still) auto
qed (use assms not_group in \<open>auto intro!: graph_move_still simp: Let_def touch_friends_def enqueue_offline_def split: if_splits\<close>)

lemma exec_moves:
  assumes "exec_act e cur a s = (cur', s', nexts)" and "\<not> has_pg s" and "\<And>fd target. a = Ask_friend fd target \<Longrightarrow> target \<noteq> int_of_u32 cur"
  shows "graph_move cur s s'"
proof (cases "group_act a")
  case True
  with group_act_exec(1) [OF assms(1)] assms(2) show ?thesis by (auto simp: group_change_def intro!: graph_move_still)
qed (use assms in \<open>rule exec_moves_other\<close>)

text \<open>
  A thread that is about to store a request has excluded a request to itself, and its account does not change
  until it has stored it: a login or a registration is all its thread has to do.
\<close>

fun is_login :: "act \<Rightarrow> bool" where
  "is_login (Check_login fd name pw) = True"
| "is_login (Register_it fd payload) = True"
| "is_login a = False"

definition thread_ok :: "u32 \<Rightarrow> act list \<Rightarrow> bool" where
  "thread_ok cur as \<longleftrightarrow> (\<forall>fd target. Ask_friend fd target \<in> set as \<longrightarrow> target \<noteq> int_of_u32 cur) \<and>
     (\<forall>a \<in> set as. is_login a \<longrightarrow> as = [a])"

lemma thread_ok_acts: "thread_ok cur (acts_of e fd cur r)"
  by (cases r) (auto simp: thread_ok_def Let_def split: sum.splits)

lemma exec_account:
  assumes "exec_act e cur a s = (cur', s', nexts)"
  shows "(cur' = cur \<or> is_login a) \<and> (\<forall>b \<in> set nexts. \<not> is_login b) \<and>
    (\<forall>fd target. Ask_friend fd target \<in> set nexts \<longrightarrow> target \<noteq> int_of_u32 cur')"
proof (cases a)
  case (Ask_friend fd target)
  with assms show ?thesis by (cases rule: ask_friend_cases [of fd target cur s]) auto
qed (use assms in \<open>auto simp: Let_def split: if_splits option.splits sum.splits prod.splits\<close>)

lemma thread_ok_exec:
  assumes "exec_act e cur a s = (cur', s', nexts)" and "thread_ok cur (a # as)"
  shows "thread_ok cur' (nexts @ as)"
  using exec_account [OF assms(1)] assms(2) by (cases "is_login a") (auto simp: thread_ok_def)

interpretation accounts: thread_inv "\<lambda>s. \<not> has_pg s" thread_ok
proof unfold_locales
  show "thread_ok 0 []" by (simp add: thread_ok_def)
next
  fix s :: "'a server" and cur a as e cur' s' nexts
  assume h: "\<not> has_pg s" "thread_ok cur (a # as)" "exec_act e cur a s = (cur', s', nexts)"
  then have "graph_move cur s s'" by (intro exec_moves [OF h(3)]) (auto simp: thread_ok_def)
  then show "\<not> has_pg s' \<and> thread_ok cur' (nexts @ as)"
    using thread_ok_exec [OF h(3,2)] by (simp add: graph_move_def)
qed (rule thread_ok_acts)

lemma pool_step_moves:
  assumes "pool_step c c'" and "\<not> has_pg (p_server c) \<and> (\<forall>n \<in> set (p_conns c). thread_ok (n_cur n) (n_acts n))"
  shows "social_of (p_server c') = social_of (p_server c) \<or>
    (\<exists>n \<in> set (p_conns c). graph_move (n_cur n) (p_server c) (p_server c'))"
  using assms(1)
proof (cases rule: pool_step_elim)
  case (runs n e a as cur nexts)
  with assms(2) have "thread_ok (n_cur n) (a # as)" by metis
  then have "graph_move (n_cur n) (p_server c) (p_server c')"
    using assms(2) by (intro exec_moves [OF runs(3)]) (auto simp: thread_ok_def)
  with runs(1) show ?thesis by blast
qed simp

lemma pool_reachable_graph:
  assumes "pool_reachable s0 c" and "\<not> has_pg s0"
  shows "social_step\<^sup>*\<^sup>* (social_of s0) (social_of (p_server c))"
  using assms(1)[unfolded pool_reachable_def]
proof (induction rule: rtranclp_induct)
  case base
  show ?case by (simp add: pool_start_def)
next
  case (step c c')
  from pool_step_moves [OF step(2) accounts.reachable_inv] step(1) assms(2)
  have "social_of (p_server c') = social_of (p_server c) \<or> social_step (social_of (p_server c)) (social_of (p_server c'))"
    by (auto simp: graph_move_def social_step_def pool_reachable_def)
  with step(3) show ?case by (auto intro: rtranclp.rtrancl_into_rtrancl)
qed

text \<open>
  C15: However the threads interleave, without a database, each piece of a branch leaves the graph of
  friendships and open requests alone or changes it by one event of the account that the connection of some
  thread acts as, and what was reached is a run of the graph. The check whether two users are friends and the
  storing of the request are not torn apart.
\<close>

theorem threads_refine_graph:
  assumes "pool_reachable s0 c" and "\<not> has_pg s0" and "pool_step c c'"
  shows "social_step\<^sup>*\<^sup>* (social_of s0) (social_of (p_server c)) \<and>
    (social_of (p_server c') = social_of (p_server c) \<or>
     (\<exists>n \<in> set (p_conns c). \<exists>ev. social_actor ev = Some (int_of_u32 (n_cur n)) \<and>
        social_of (p_server c') = social_next ev (social_of (p_server c))))"
  using pool_reachable_graph [OF assms(1,2)] pool_step_moves [OF assms(3) accounts.reachable_inv [OF assms(1,2)]]
  unfolding graph_move_def by blast

lemma threads_keep_graph_ok:
  "pool_reachable s0 c \<Longrightarrow> \<not> has_pg s0 \<Longrightarrow> social_ok (social_of s0) \<Longrightarrow> social_ok (social_of (p_server c))"
  using pool_reachable_graph social_steps_ok by blast

subsection \<open>Runs\<close>

text \<open>Schedules as lists of commands, for concrete runs.\<close>

datatype command = Accept int | Read nat thread_request | Run nat

definition perform :: "'db env \<Rightarrow> command \<Rightarrow> 'db pool \<Rightarrow> 'db pool option" where
  "perform e x c =
     (case x of
        Accept fd \<Rightarrow> if 0 \<le> fd \<and> p_peer c fd = None then Some (pool_accept fd c) else None
      | Read i r \<Rightarrow>
          if i < length (p_conns c) \<and> n_open (p_conns c ! i) \<and> n_acts (p_conns c ! i) = [] \<and> readable r
          then Some (pool_read e i r c) else None
      | Run i \<Rightarrow> if i < length (p_conns c) \<and> n_acts (p_conns c ! i) \<noteq> [] then Some (pool_run e i c) else None)"

fun performs :: "'db env \<Rightarrow> command list \<Rightarrow> 'db pool \<Rightarrow> 'db pool option" where
  "performs e [] c = Some c"
| "performs e (x # xs) c = (case perform e x c of None \<Rightarrow> None | Some c' \<Rightarrow> performs e xs c')"

lemma perform_step: "perform e x c = Some c' \<Longrightarrow> pool_step c c'"
  by (auto simp: perform_def split: command.splits if_splits intro: pool_step.intros)

lemma performs_reaches: "performs e xs c = Some c' \<Longrightarrow> pool_step\<^sup>*\<^sup>* c c'"
  by (induction xs arbitrary: c) (auto split: option.splits intro: converse_rtranclp_into_rtranclp perform_step)

text \<open>Alice writes to Bob, while he is online and while he is not; her thread has looked him up and not gone on.\<close>

definition quiet_server :: "sample_db server" where
  "quiet_server = sample_server\<lparr>g_online_clients := []\<rparr>"

definition to_offline :: "command list" where
  "to_offline = [Accept 4, Accept 5, Read 0 (T_login ''username=alice&password=pa'')] @ replicate 5 (Run 0) @
     [Read 0 (T_message ''recipientId=2&message=hello''), Run 0]"

definition to_online :: "command list" where
  "to_online = [Accept 4, Accept 5, Read 0 (T_login ''username=alice&password=pa'')] @ replicate 5 (Run 0) @
     [Read 1 (T_login ''username=bob&password=pb'')] @ replicate 9 (Run 1) @
     [Read 0 (T_message ''recipientId=2&message=hello''), Run 0]"

definition pool_after :: "command list \<Rightarrow> sample_db pool" where
  "pool_after xs = (case performs sample_env xs (pool_start quiet_server) of None \<Rightarrow> pool_start quiet_server | Some c \<Rightarrow> c)"

lemma pool_after_reachable: "pool_reachable quiet_server (pool_after xs)"
  unfolding pool_reachable_def pool_after_def by (auto split: option.split intro: performs_reaches)

definition hello :: string where
  "hello = dm_payload sample_env 1 ''recipientId=2&message=hello''"

theorem messages_conserved_witness:
  "server_count (code DIRECT_MESSAGE, hello, 1) (p_server (pool_after to_online)) = 0 \<and>
    outstanding (code DIRECT_MESSAGE, hello, 1) (pool_after to_online) = 1 \<and>
    count_list (p_asked (pool_after to_online)) (code DIRECT_MESSAGE, hello, 1) = 1"
proof -
  have "um_ok (g_offline_messages quiet_server)" by code_simp
  moreover have "delivered_type (code DIRECT_MESSAGE)" by code_simp
  ultimately have "server_count (code DIRECT_MESSAGE, hello, 1) (p_server (pool_after to_online)) +
      outstanding (code DIRECT_MESSAGE, hello, 1) (pool_after to_online) =
      server_count (code DIRECT_MESSAGE, hello, 1) quiet_server +
      count_list (p_asked (pool_after to_online)) (code DIRECT_MESSAGE, hello, 1)"
    by (rule messages_conserved [OF pool_after_reachable])
  moreover have "server_count (code DIRECT_MESSAGE, hello, 1) quiet_server = 0"
    "server_count (code DIRECT_MESSAGE, hello, 1) (p_server (pool_after to_online)) = 0"
    "count_list (p_asked (pool_after to_online)) (code DIRECT_MESSAGE, hello, 1) = 1"
    by code_simp+
  ultimately show ?thesis by linarith
qed

text \<open>Carol accepts a friendship with Alice while the thread of Alice is about to store a request to her.\<close>

definition to_friends :: "command list" where
  "to_friends = [Accept 4, Accept 5, Read 0 (T_login ''username=carol&password=pc'')] @ replicate 4 (Run 0) @
     [Read 1 (T_login ''username=alice&password=pa'')] @ replicate 5 (Run 1) @
     [Read 1 (T_friend ''username=carol''), Run 1, Read 0 (T_accept ''userId=1'')]"

theorem threads_refine_graph_witness:
  "\<exists>c'. pool_step (pool_after to_friends) c' \<and> are_friends (p_server c') 3 1 \<and>
    \<not> are_friends (p_server (pool_after to_friends)) 3 1 \<and>
    (\<exists>n \<in> set (p_conns (pool_after to_friends)). \<exists>ev. social_actor ev = Some (int_of_u32 (n_cur n)) \<and>
       social_of (p_server c') = social_next ev (social_of (p_server (pool_after to_friends))))"
proof -
  let ?c = "pool_after to_friends" and ?c' = "pool_run sample_env 0 (pool_after to_friends)"
  have "0 < length (p_conns ?c)" "n_acts (p_conns ?c ! 0) \<noteq> []" by code_simp+
  then have step: "pool_step ?c ?c'" by (intro s_run)
  have friends: "are_friends (p_server ?c') 3 1" "\<not> are_friends (p_server ?c) 3 1" by code_simp+
  then have "social_of (p_server ?c') \<noteq> social_of (p_server ?c)" by (auto simp: social_of_def)
  moreover have "\<not> has_pg quiet_server" by code_simp
  ultimately show ?thesis
    using threads_refine_graph [OF pool_after_reachable _ step] step friends by blast
qed

end
