(* ===== verification/Thread_Races.thy ===== *)
theory Thread_Races
  imports Thread_Pool
begin

text \<open>
  What can happen between a critical section that looks something up or checks a permission and the one that
  uses it, and what the check is still worth.
\<close>

subsection \<open>Between the check of a permission and its use\<close>

lemma is_admin_frames [simp]:
  "is_admin (s\<lparr>g_online_clients := c\<rparr>) = is_admin s" "is_admin (s\<lparr>g_friend_requests := r\<rparr>) = is_admin s"
  "is_admin (accept_memory a b s) = is_admin s" "is_admin (drop_request a b s) = is_admin s"
  "is_admin (unfriend_memory a b s) = is_admin s"
  by (simp_all add: fun_eq_iff is_admin_def accept_memory_def drop_request_def unfriend_memory_def set_friend_def clear_friend_def)

lemma is_admin_promote:
  "is_admin (update_group g (promote v) s) gid uid \<longleftrightarrow> is_admin s gid uid \<or> g = gid \<and> v = uid \<and> um_count (g_groups s) g"
  by (auto simp: update_group_def is_admin_def promote_def um_at_def um_count_def split: option.split)

lemma is_admin_drop:
  "is_admin (update_group g (drop_member v) s) gid uid \<longleftrightarrow> is_admin s gid uid \<and> \<not> (g = gid \<and> v = uid)"
  by (auto simp: update_group_def is_admin_def drop_member_def um_at_def split: option.split)

lemma is_member_drop:
  "is_member (update_group g (drop_member v) s) gid uid \<longleftrightarrow> is_member s gid uid \<and> \<not> (g = gid \<and> v = uid)"
  by (auto simp: update_group_def is_member_def drop_member_def split: option.split)

lemma is_admin_leave: "is_admin (snd (leave_memory g v s)) gid uid \<Longrightarrow> is_admin s gid uid"
  by (auto simp: leave_memory_def is_admin_def Let_def split: option.splits if_splits)

text \<open>What a thread had to see before it goes on to use it; for the other actions nothing.\<close>

fun warrant :: "act \<Rightarrow> int \<Rightarrow> 'db server \<Rightarrow> bool" where
  "warrant (Promote_user fd gid uid) me s = is_admin s gid me"
| "warrant (Remove_user fd gid uid) me s = (uid = me \<or> is_admin s gid me)"
| "warrant (Add_user fd gid uid) me s = is_member s gid me"
| "warrant a me s = True"

lemma warrant_exec:
  assumes "exec_act e cur a s = (cur', s', nexts)" and "b \<in> set nexts" and "cur' = cur"
  shows "warrant b (int_of_u32 cur') s"
proof (cases a)
  case (Ask_friend fd target)
  with assms show ?thesis by (cases rule: ask_friend_cases [of fd target cur s]) auto
qed (use assms in \<open>auto simp: Let_def split: if_splits option.splits sum.splits prod.splits\<close>)

lemma warrant_login:
  "exec_act e cur a s = (cur', s', nexts) \<Longrightarrow> is_login a \<Longrightarrow> b \<in> set nexts \<Longrightarrow> warrant b me t"
  by (cases a) (auto simp: Let_def register_user_def split: option.splits if_splits prod.splits)

lemma warrant_acts: "a \<in> set (acts_of e fd cur r) \<Longrightarrow> warrant a me s"
  by (cases r) (auto simp: Let_def split: sum.splits)

text \<open>What held at some moment of the run.\<close>

definition once :: "'db server \<Rightarrow> 'db pool \<Rightarrow> ('db server \<Rightarrow> bool) \<Rightarrow> bool" where
  "once s0 c P \<longleftrightarrow> (\<exists>c0. pool_reachable s0 c0 \<and> pool_step\<^sup>*\<^sup>* c0 c \<and> P (p_server c0))"

lemma once_now: "pool_reachable s0 c \<Longrightarrow> P (p_server c) \<Longrightarrow> pool_step c c' \<Longrightarrow> once s0 c' P"
  unfolding once_def by blast

lemma once_step: "once s0 c P \<Longrightarrow> pool_step c c' \<Longrightarrow> once s0 c' P"
  unfolding once_def by (meson rtranclp.rtrancl_into_rtrancl)

lemma pending_warranted:
  assumes "pool_reachable s0 c" and "\<not> has_pg s0" and "n \<in> set (p_conns c)" and "b \<in> set (n_acts n)"
  shows "once s0 c (warrant b (int_of_u32 (n_cur n)))"
  using assms(1)[unfolded pool_reachable_def] assms(3,4)
proof (induction arbitrary: n b rule: rtranclp_induct)
  case base
  then show ?case by (simp add: pool_start_def)
next
  case (step c c')
  have reach: "pool_reachable s0 c" using step(1) by (simp add: pool_reachable_def)
  note later = once_step [OF step(3) step(2)] and now = once_now [OF reach _ step(2)]
  from step(2) show ?case
  proof (cases rule: pool_step_elim)
    case waits
    from waits(2) [OF step(4)] step(5) show ?thesis by (auto intro: later now [OF warrant_acts])
  next
    case (runs m e a as cur nexts)
    from runs(4) [OF step(4)] show ?thesis
    proof
      assume n: "n_cur n = cur \<and> n_acts n = nexts @ as"
      have ok: "thread_ok (n_cur m) (a # as)" using accounts.reachable_inv [OF reach assms(2)] runs(1,2) by metis
      show ?thesis
      proof (cases "is_login a")
        case True
        with ok have "as = []" by (cases as) (simp_all add: thread_ok_def)
        with n step(5) have "b \<in> set nexts" by simp
        from now [OF warrant_login [OF runs(3) True this]] show ?thesis .
      next
        case False
        with exec_account [OF runs(3)] have same: "cur = n_cur m" by blast
        with n step(5) warrant_exec [OF runs(3)] later [OF runs(1), of b] runs(2) show ?thesis
          by (auto intro: now)
      qed
    qed (use step(5) in \<open>auto intro: later\<close>)
  qed
qed

subsection \<open>Who becomes an admin\<close>

lemma is_admin_add [simp]:
  "is_admin (s\<lparr>g_groups := um_put gid (add_member uid (um_at empty_group (g_groups s) gid)) (g_groups s)\<rparr>) = is_admin s"
  "is_admin (update_group g (add_member v) s) = is_admin s"
  "is_admin (update_group g (\<lambda>x. x\<lparr>g_name := nm\<rparr>) s) = is_admin s"
  "is_admin (update_group g (\<lambda>x. x\<lparr>g_member_nicknames := um_put v nick (g_member_nicknames x)\<rparr>) s) = is_admin s"
  by (auto simp: fun_eq_iff is_admin_def update_group_def add_member_def um_at_def split: option.split)

text \<open>The two sections of \<^verbatim>\<open>CREATE_GROUP\<close> that store the group.\<close>

fun creates :: "'db server \<Rightarrow> act \<Rightarrow> int \<Rightarrow> bool" where
  "creates s (Create_group fd name ids) gid = (gid = g_next_group_id s)"
| "creates s (Store_group fd g name ids) gid = (gid = g)"
| "creates s a gid = False"

lemma is_admin_new:
  "is_admin (s\<lparr>g_groups := um_put g (new_group g name v ids) (g_groups s)\<rparr>) gid uid \<longleftrightarrow>
    (if gid = g then uid = v else is_admin s gid uid)"
  by (auto simp: is_admin_def new_group_def um_at_def)

lemma admin_gained:
  assumes "exec_act e cur a s = (cur', s', nexts)" and "\<not> is_admin s gid uid" and "is_admin s' gid uid"
  shows "(\<exists>fd. a = Promote_user fd gid uid) \<or> creates s a gid \<and> uid = int_of_u32 cur"
proof (cases a)
  case (Promote_user fd g v)
  with assms show ?thesis by (auto simp: is_admin_promote)
next
  case (Remove_user fd g v)
  with assms show ?thesis by (auto simp: is_admin_drop)
next
  case (Leave_it fd g)
  with assms is_admin_leave [of g "int_of_u32 cur" s gid uid] show ?thesis
    by (cases "leave_memory g (int_of_u32 cur) s") auto
next
  case (Ask_friend fd target)
  with assms show ?thesis by (cases rule: ask_friend_cases [of fd target cur s]) auto
next
  case (Tell_joined fd g)
  obtain xs where "snd (notify_joined e g (int_of_u32 cur) cur s) = s\<lparr>outbox := outbox s @ xs\<rparr>" using joined_sends by blast
  with Tell_joined assms show ?thesis by auto
next
  case (Register_it fd payload)
  obtain c t where run: "register_user e fd payload cur s = (c, t)" by (cases "register_user e fd payload cur s")
  from register_effect [OF this] Register_it run assms show ?thesis by (auto simp: is_admin_def)
next
  case (Create_group fd name ids)
  have "is_admin s' gid uid \<longleftrightarrow> (if gid = g_next_group_id s then uid = int_of_u32 cur else is_admin s gid uid)"
    using assms(1) Create_group by (auto simp: Let_def is_admin_def new_group_def um_at_def split: if_splits)
  with assms(2,3) Create_group show ?thesis by (auto split: if_splits)
next
  case (Store_group fd g name ids)
  with assms show ?thesis by (auto simp: Let_def is_admin_new split: if_splits)
next
  case (Tell_target target)
  with assms show ?thesis by (auto simp: notify_request_def split: option.splits)
qed (use assms in \<open>auto simp: Let_def touch_friends_def touch_group_def enqueue_offline_def split: if_splits option.splits sum.splits\<close>)

text \<open>
  C16: However the threads interleave, without a database, somebody becomes an admin of a group only by a thread
  that creates the group for its own account, or by a thread that runs the second half of \<^verbatim>\<open>MAKE_ADMIN\<close>, and then
  the account of that thread was an admin of the group at some earlier moment of the run.
\<close>

theorem admins_once_checked:
  assumes "pool_reachable s0 c" and "\<not> has_pg s0" and "pool_step c c'"
    and "\<not> is_admin (p_server c) gid uid" and "is_admin (p_server c') gid uid"
  shows "\<exists>n \<in> set (p_conns c). \<exists>a as. n_acts n = a # as \<and>
    (creates (p_server c) a gid \<and> uid = int_of_u32 (n_cur n) \<or>
     (\<exists>fd. a = Promote_user fd gid uid) \<and>
       (\<exists>c0. pool_reachable s0 c0 \<and> pool_step\<^sup>*\<^sup>* c0 c \<and> is_admin (p_server c0) gid (int_of_u32 (n_cur n))))"
  using assms(3)
proof (cases rule: pool_step_elim)
  case waits
  with assms(4,5) show ?thesis by simp
next
  case (runs n e a as cur nexts)
  have "a \<in> set (n_acts n)" using runs(2) by simp
  from pending_warranted [OF assms(1,2) runs(1) this] admin_gained [OF runs(3) assms(4,5)]
  have "creates (p_server c) a gid \<and> uid = int_of_u32 (n_cur n) \<or>
     (\<exists>fd. a = Promote_user fd gid uid) \<and>
       (\<exists>c0. pool_reachable s0 c0 \<and> pool_step\<^sup>*\<^sup>* c0 c \<and> is_admin (p_server c0) gid (int_of_u32 (n_cur n)))"
    by (auto simp: once_def)
  with runs(1,2) show ?thesis by blast
qed

text \<open>
  C35: The check and the change are two critical sections. In a server without a database, whenever a thread has passed the check of \<^verbatim>\<open>MAKE_ADMIN\<close>,
  an admin on another connection may remove its account from the group; then the account is neither an admin
  nor a member, and its thread still makes somebody an admin.
\<close>

theorem removed_admin_promotes:
  assumes "i < length (p_conns c)" and "n_acts (p_conns c ! i) = Promote_user fd gid uid # as"
    and "j < length (p_conns c)" and "n_open (p_conns c ! j)" and "n_acts (p_conns c ! j) = []"
    and "is_admin (p_server c) gid (int_of_u32 (n_cur (p_conns c ! j)))" and "\<not> is_admin (p_server c) gid uid"
    and "readable (T_remove payload)" and "number_at payload ''groupId'' = gid"
    and "number_at payload ''userId'' = int_of_u32 (n_cur (p_conns c ! i))"
  shows "\<exists>c1 c2. pool_step\<^sup>*\<^sup>* c c1 \<and> \<not> is_admin (p_server c1) gid (int_of_u32 (n_cur (p_conns c ! i))) \<and>
    \<not> is_member (p_server c1) gid (int_of_u32 (n_cur (p_conns c ! i))) \<and> \<not> is_admin (p_server c1) gid uid \<and>
    pool_step c1 c2 \<and> is_admin (p_server c2) gid uid"
proof -
  fix e :: "'a env"
  let ?n = "p_conns c ! j" and ?a = "int_of_u32 (n_cur (p_conns c ! i))" and ?s = "p_server c"
  let ?x = "pool_read e j (T_remove payload) c"
  let ?y = "pool_run e j ?x" and ?z = "pool_run e j (pool_run e j ?x)"
  obtain g where g: "um_get (g_groups ?s) gid = Some g" using assms(6) by (auto simp: is_admin_def split: option.splits)
  have ij: "i \<noteq> j" using assms by auto
  have x: "pool_step c ?x" using assms by (intro s_read)
  have nx: "p_server ?x = ?s" "p_conns ?x = (p_conns c)[j := ?n\<lparr>n_acts := [Check_removal (n_fd ?n) gid ?a]\<rparr>]"
    using assms(9,10) by (simp_all add: pool_read_def Let_def)
  have y: "pool_step ?x ?y" using assms(3) nx by (intro s_run) simp_all
  have ny: "p_server ?y = ?s" "n_acts (p_conns ?y ! j) = [Remove_user (n_fd ?n) gid ?a]"
    "length (p_conns ?y) = length (p_conns c)" "p_conns ?y ! i = p_conns c ! i"
    using assms(3,6) nx g ij by (simp_all add: pool_run_def[of e j ?x] Let_def um_count_def)
  have z: "pool_step ?y ?z" using assms(3) ny by (intro s_run) simp_all
  have nz: "p_server ?z = update_group gid (drop_member ?a) ?s" "length (p_conns ?z) = length (p_conns c)"
    "n_acts (p_conns ?z ! i) = Promote_user fd gid uid # as"
    using ny ij assms(2) by (simp_all add: pool_run_def[of e j ?y] Let_def)
  have gone: "\<not> is_admin (p_server ?z) gid ?a" "\<not> is_member (p_server ?z) gid ?a" "\<not> is_admin (p_server ?z) gid uid"
    using nz(1) assms(7) by (simp_all add: is_admin_drop is_member_drop)
  let ?w = "pool_run e i ?z"
  have w: "pool_step ?z ?w" using assms(1) nz by (intro s_run) simp_all
  have "p_server ?w = update_group gid (promote uid) (p_server ?z)" using nz by (simp add: pool_run_def[of e i ?z] Let_def)
  moreover have "um_count (g_groups (p_server ?z)) gid" using nz(1) g by (simp add: update_group_def)
  ultimately have "is_admin (p_server ?w) gid uid" by (simp add: is_admin_promote)
  moreover have "pool_step\<^sup>*\<^sup>* c ?z" using x y z by (meson r_into_rtranclp rtranclp_trans)
  ultimately show ?thesis using gone w by blast
qed

subsection \<open>Between two changes of a group\<close>

lemma asks_and_runs:
  fixes e :: "'db env" and c :: "'db pool"
  assumes "j < length (p_conns c)" and "n_open (p_conns c ! j)" and "n_acts (p_conns c ! j) = []" and "readable r"
    and "\<And>fd. acts_of e fd (n_cur (p_conns c ! j)) r = [f fd]"
    and "\<And>fd. \<exists>nexts. exec_act e (n_cur (p_conns c ! j)) (f fd) (p_server c) = (n_cur (p_conns c ! j), s', nexts)"
  obtains c' where "pool_step\<^sup>*\<^sup>* c c'" and "p_server c' = s'" and "length (p_conns c') = length (p_conns c)"
    and "\<And>i. i \<noteq> j \<Longrightarrow> p_conns c' ! i = p_conns c ! i"
proof -
  let ?n = "p_conns c ! j" and ?x = "pool_read e j r c"
  obtain nexts where run: "exec_act e (n_cur ?n) (f (n_fd ?n)) (p_server c) = (n_cur ?n, s', nexts)" using assms(6) by blast
  have x: "pool_step c ?x" using assms(1-4) by (intro s_read)
  have nx: "p_server ?x = p_server c" "p_conns ?x = (p_conns c)[j := ?n\<lparr>n_acts := [f (n_fd ?n)]\<rparr>]"
    using assms(5) by (simp_all add: pool_read_def Let_def)
  have y: "pool_step ?x (pool_run e j ?x)" using assms(1) nx by (intro s_run) simp_all
  show thesis
    by (rule that [of "pool_run e j ?x"]) (use x y nx run assms(1) in \<open>auto simp: pool_run_def Let_def\<close>)
qed

text \<open>
  \<^verbatim>\<open>CREATE_GROUP\<close> stores the group twice. Who enters the group between the two sections has become a member, and
  the second one makes it a stranger again.
\<close>

lemma create_forgets_member:
  fixes c :: "'db pool"
  assumes "i < length (p_conns c)" and "n_acts (p_conns c ! i) = Store_group fd gid name ids # as"
    and "j < length (p_conns c)" and "n_open (p_conns c ! j)" and "n_acts (p_conns c ! j) = []"
    and "um_count (g_groups (p_server c)) gid" and "readable (T_join payload)" and "number_at payload ''groupId'' = gid"
    and "int_of_u32 (n_cur (p_conns c ! j)) \<notin> set (int_of_u32 (n_cur (p_conns c ! i)) # ids)"
  shows "\<exists>c1 c2. pool_step\<^sup>*\<^sup>* c c1 \<and> is_member (p_server c1) gid (int_of_u32 (n_cur (p_conns c ! j))) \<and>
    pool_step c1 c2 \<and> \<not> is_member (p_server c2) gid (int_of_u32 (n_cur (p_conns c ! j)))"
proof -
  fix e :: "'db env"
  let ?u = "int_of_u32 (n_cur (p_conns c ! j))" and ?s = "p_server c"
  have ij: "i \<noteq> j" using assms by auto
  obtain c1 where c1: "pool_step\<^sup>*\<^sup>* c c1" "p_server c1 = update_group gid (add_member ?u) ?s"
    "length (p_conns c1) = length (p_conns c)" "p_conns c1 ! i = p_conns c ! i"
    by (rule asks_and_runs [OF assms(3-5,7), of e "\<lambda>fd. Join_group fd gid" "update_group gid (add_member ?u) ?s"])
      (use assms(8) ij in \<open>auto simp: Let_def\<close>)
  let ?c2 = "pool_run e i c1" and ?v = "int_of_u32 (n_cur (p_conns c ! i))"
  have step: "pool_step c1 ?c2" using assms(1,2) c1 by (intro s_run) simp_all
  have before: "is_member (p_server c1) gid ?u"
    using c1(2) assms(6) by (auto simp: is_member_def update_group_def add_member_def um_count_def)
  have "p_server ?c2 = (p_server c1)\<lparr>g_groups := um_put gid (new_group gid name ?v ids) (g_groups (p_server c1))\<rparr>"
    using c1 assms(2) by (simp add: pool_run_def Let_def)
  moreover have "\<not> um_count [(?v, True)] ?u" using assms(9) by (simp add: um_count_def)
  ultimately have "\<not> is_member (p_server ?c2) gid ?u"
    using assms(9) by (simp add: is_member_def new_group_def um_count_fold_put)
  with c1(1) step before show ?thesis by blast
qed

text \<open>
  \<^verbatim>\<open>INVITE_TO_GROUP\<close> checks and adds in two sections. When the last member leaves in between the group is erased,
  and the second section makes a group of that number without a name, an owner or an admin.
\<close>

lemma invite_revives_group:
  fixes c :: "'db pool"
  assumes "i < length (p_conns c)" and "n_acts (p_conns c ! i) = Add_user fd gid uid # as"
    and "j < length (p_conns c)" and "n_open (p_conns c ! j)" and "n_acts (p_conns c ! j) = []"
    and "um_get (g_groups (p_server c)) gid = Some g" and "um_erase (int_of_u32 (n_cur (p_conns c ! j))) (g_members g) = []"
    and "readable (T_leave payload)" and "number_at payload ''groupId'' = gid" and "um_ok (g_groups (p_server c))"
  shows "\<exists>c1 c2. pool_step\<^sup>*\<^sup>* c c1 \<and> \<not> um_count (g_groups (p_server c1)) gid \<and> pool_step c1 c2 \<and>
    um_get (g_groups (p_server c2)) gid = Some (add_member uid empty_group)"
proof -
  fix e :: "'db env"
  let ?s = "p_server c"
  let ?t = "?s\<lparr>g_groups := um_erase gid (g_groups ?s)\<rparr>"
  have ij: "i \<noteq> j" using assms by auto
  have leave: "leave_memory gid (int_of_u32 (n_cur (p_conns c ! j))) ?s = (Inr (True, True), ?t)"
    using assms(6,7) by (simp add: leave_memory_def Let_def)
  obtain c1 where c1: "pool_step\<^sup>*\<^sup>* c c1" "p_server c1 = ?t" "length (p_conns c1) = length (p_conns c)"
    "p_conns c1 ! i = p_conns c ! i"
    by (rule asks_and_runs [OF assms(3-5,8), of e "\<lambda>fd. Leave_it fd gid" ?t]) (use assms(9) ij leave in auto)
  let ?c2 = "pool_run e i c1"
  have "pool_step c1 ?c2" using assms(1,2) c1 by (intro s_run) simp_all
  moreover have gone: "um_get (g_groups (p_server c1)) gid = None" using c1(2) assms(10) by simp
  moreover have "um_get (g_groups (p_server ?c2)) gid = Some (add_member uid empty_group)"
    using c1 assms(2) gone by (simp add: pool_run_def Let_def um_at_def)
  ultimately show ?thesis using c1(1) by (auto simp: um_count_def)
qed

subsection \<open>A thread runs to its end\<close>

lemma thread_runs:
  assumes "finishes e cur as s cur' t"
  shows "i < length (p_conns c) \<Longrightarrow> n_cur (p_conns c ! i) = cur \<Longrightarrow> n_acts (p_conns c ! i) = as @ bs \<Longrightarrow> p_server c = s \<Longrightarrow>
    \<exists>c' op. pool_step\<^sup>*\<^sup>* c c' \<and> p_server c' = t \<and>
      p_conns c' = (p_conns c)[i := (p_conns c ! i)\<lparr>n_cur := cur', n_acts := bs, n_open := op\<rparr>]"
  using assms
proof (induction arbitrary: c rule: finishes.induct)
  case (finished cur s)
  let ?n = "p_conns c ! i"
  have "?n = ?n\<lparr>n_cur := cur, n_acts := bs, n_open := n_open ?n\<rparr>" using finished by (cases ?n) simp
  then have "p_conns c = (p_conns c)[i := ?n\<lparr>n_cur := cur, n_acts := bs, n_open := n_open ?n\<rparr>]"
    by (metis list_update_id)
  with finished(4) show ?case by blast
next
  case (acts cur a s cur1 s1 nexts as cur' t)
  let ?c = "pool_run e i c"
  have step: "pool_step c ?c" using acts.prems by (intro s_run) simp_all
  have conns: "p_server ?c = s1 \<and> p_conns ?c = (p_conns c)[i := (p_conns c ! i)\<lparr>n_cur := cur1, n_acts := nexts @ as @ bs,
      n_open := (n_open (p_conns c ! i) \<and> a \<noteq> Close_fd)\<rparr>]"
    using acts.prems acts.hyps(1) by (simp add: pool_run_def Let_def)
  with acts.prems acts.IH [of ?c] obtain c' op where ends: "pool_step\<^sup>*\<^sup>* ?c c'" "p_server c' = t"
    "p_conns c' = (p_conns c)[i := (p_conns c ! i)\<lparr>n_cur := cur', n_acts := bs, n_open := op\<rparr>]"
    by auto
  from converse_rtranclp_into_rtranclp [OF step ends(1)] ends(2,3) show ?case by blast
qed

fun quiet :: "act \<Rightarrow> bool" where
  "quiet (Send_to fd ty p u) = True"
| "quiet (Log_it a uid d) = True"
| "quiet (List_friends uid online) = True"
| "quiet (Tell_friend fid uid online) = True"
| "quiet (Name_and_send fd u) = True"
| "quiet a = False"

lemma quiet_exec:
  "exec_act e cur a s = (cur', s', nexts) \<Longrightarrow> quiet a \<Longrightarrow>
    cur' = cur \<and> g_online_clients s' = g_online_clients s \<and> g_offline_messages s' = g_offline_messages s \<and> list_all quiet nexts"
  by (cases a) (auto simp: Let_def touch_friends_def list_all_iff)

lemma quiet_finishes:
  "finishes e cur as s cur' t \<Longrightarrow> list_all quiet as \<Longrightarrow>
    cur' = cur \<and> g_online_clients t = g_online_clients s \<and> g_offline_messages t = g_offline_messages s"
proof (induction rule: finishes.induct)
  case (acts cur a s cur1 s1 nexts as cur' t)
  from quiet_exec [OF acts.hyps(1)] acts show ?case by simp
qed simp

subsection \<open>Between the look-up and the send\<close>

text \<open>
  C33: The descriptor of a recipient is looked up under the mutex and used after it was released. In a
  server without a database, whenever a thread is about to send a message to a connection that waits for its next
  request, the client of that connection may hang up, the thread of that connection may end and close the descriptor, a new connection may be
  accepted under the same number, and then the message is sent to it: it arrives at a client that never logged in.
\<close>

theorem message_reaches_stranger:
  assumes "i < length (p_conns c)" and "n_acts (p_conns c ! i) = Send_to fd ty p u # as"
    and "j < length (p_conns c)" and "n_open (p_conns c ! j)" and "n_acts (p_conns c ! j) = []"
    and "n_fd (p_conns c ! j) = fd" and "0 \<le> fd"
  shows "\<exists>c'. pool_step\<^sup>*\<^sup>* c c' \<and> length (p_conns c') = Suc (length (p_conns c)) \<and>
    n_cur (p_conns c' ! length (p_conns c)) = 0 \<and> (length (p_conns c), sent_msg fd ty p u) \<in> set (p_got c')"
proof -
  fix e :: "'a env"
  let ?n = "p_conns c ! j"
  let ?c1 = "pool_read e j T_hangup c"
  have ij: "i \<noteq> j" using assms by auto
  have c1: "pool_step c ?c1" using assms by (intro s_read) (simp_all add: readable_def)
  have n1: "p_conns ?c1 = (p_conns c)[j := ?n\<lparr>n_acts := [Go_offline] @ [Close_fd]\<rparr>]" by (simp add: pool_read_def Let_def)
  obtain cur t where "finishes e (n_cur ?n) [Go_offline] (p_server ?c1) cur t" using finishes_total by blast
  from thread_runs [OF this, of j ?c1 "[Close_fd]"] n1 assms(3)
  obtain c2 op where c2: "pool_step\<^sup>*\<^sup>* ?c1 c2" "p_server c2 = t"
    "p_conns c2 = (p_conns c)[j := ?n\<lparr>n_cur := cur, n_acts := [Close_fd], n_open := op\<rparr>]"
    by auto
  let ?c3 = "pool_run e j c2"
  have c3: "pool_step c2 ?c3" using c2 assms(3) by (intro s_run) simp_all
  have n3: "p_conns ?c3 = (p_conns c)[j := ?n\<lparr>n_cur := cur, n_acts := [], n_open := False\<rparr>] \<and> p_peer ?c3 fd = None"
    using c2 assms by (simp add: pool_run_def Let_def)
  let ?c4 = "pool_accept fd ?c3"
  have c4: "pool_step ?c3 ?c4" using n3 assms(7) by (intro s_accept) simp_all
  have n4: "length (p_conns ?c4) = Suc (length (p_conns c)) \<and> n_acts (p_conns ?c4 ! i) = Send_to fd ty p u # as \<and>
      n_cur (p_conns ?c4 ! length (p_conns c)) = 0 \<and> p_peer ?c4 fd = Some (length (p_conns c))"
    using n3 ij assms by (simp add: pool_accept_def nth_append)
  let ?c5 = "pool_run e i ?c4"
  have c5: "pool_step ?c4 ?c5" using n4 assms(1) by (intro s_run) simp_all
  have "pool_step\<^sup>*\<^sup>* c ?c5" using c1 c2(1) c3 c4 c5 by (meson rtranclp.rtrancl_into_rtrancl converse_rtranclp_into_rtranclp)
  moreover have "length (p_conns ?c5) = Suc (length (p_conns c)) \<and> n_cur (p_conns ?c5 ! length (p_conns c)) = 0 \<and>
      (length (p_conns c), sent_msg fd ty p u) \<in> set (p_got ?c5)"
    using n4 assms(1) by (simp add: pool_run_def Let_def arrivals_def)
  ultimately show ?thesis by blast
qed

text \<open>
  C34: In a server without a database, whenever a thread that found its recipient offline is about to queue the message, the recipient may log in
  on a connection that waits for its next request. When both threads are done with it the recipient is online,
  its login is complete, and the message is in its queue: it was not part of what the login delivered.
\<close>

theorem login_misses_queued_message:
  assumes "i < length (p_conns c)" and "n_acts (p_conns c ! i) = Enqueue (u_id v) ty p u # as"
    and "j < length (p_conns c)" and "n_open (p_conns c ! j)" and "n_acts (p_conns c ! j) = []"
    and "um_get (g_users_by_name (p_server c)) (kv_at (parse_kv login) ''username'') = Some v"
    and "u_password_hash v = kv_at (parse_kv login) ''password''" and "um_ok (g_offline_messages (p_server c))"
  shows "\<exists>c'. pool_step\<^sup>*\<^sup>* c c' \<and> n_acts (p_conns c' ! i) = as \<and> n_acts (p_conns c' ! j) = [] \<and>
    n_cur (p_conns c' ! j) = u32_of_int (u_id v) \<and> online_fd (p_server c') (u_id v) = n_fd (p_conns c ! j) \<and>
    offline_queue (p_server c') (u_id v) = [queued_msg ty p u]"
proof -
  fix e :: "'a env"
  let ?n = "p_conns c ! j" and ?s = "p_server c"
  let ?name = "kv_at (parse_kv login) ''username''" and ?pw = "kv_at (parse_kv login) ''password''"
  let ?c1 = "pool_read e j (T_login login) c"
  have ij: "i \<noteq> j" using assms by auto
  have c1: "pool_step c ?c1" using assms by (intro s_read) (simp_all add: readable_def)
  have n1: "p_conns ?c1 = (p_conns c)[j := ?n\<lparr>n_acts := [Check_login (n_fd ?n) ?name ?pw] @ []\<rparr>] \<and> p_server ?c1 = ?s"
    by (simp add: pool_read_def Let_def)
  obtain cur s1 rest where x: "exec_act e (n_cur ?n) (Check_login (n_fd ?n) ?name ?pw) ?s = (cur, s1, rest)"
    by (cases "exec_act e (n_cur ?n) (Check_login (n_fd ?n) ?name ?pw) ?s")
  have s1: "cur = u32_of_int (u_id v) \<and> online_fd s1 (u_id v) = n_fd ?n \<and> offline_queue s1 (u_id v) = [] \<and> list_all quiet rest"
    using x assms(6-8) by (auto simp: Let_def list_all_iff online_fd_def offline_queue_def um_at_def um_ok_def)
  obtain cur' t where rest: "finishes e cur rest s1 cur' t" using finishes_total by blast
  have t: "cur' = u32_of_int (u_id v) \<and> online_fd t (u_id v) = n_fd ?n \<and> offline_queue t (u_id v) = []"
    using quiet_finishes [OF rest] s1 by (simp add: online_fd_def offline_queue_def)
  have "finishes e (n_cur ?n) [Check_login (n_fd ?n) ?name ?pw] ?s cur' t"
    using finishes_Cons [OF x rest finishes.finished] .
  from thread_runs [OF this, of j ?c1 "[]"] n1 assms(3)
  obtain c2 op where c2: "pool_step\<^sup>*\<^sup>* ?c1 c2" "p_server c2 = t"
    "p_conns c2 = (p_conns c)[j := ?n\<lparr>n_cur := cur', n_acts := [], n_open := op\<rparr>]"
    by auto
  let ?c3 = "pool_run e i c2"
  have c3: "pool_step c2 ?c3" using c2 ij assms by (intro s_run) simp_all
  have "pool_step\<^sup>*\<^sup>* c ?c3" using c1 c2(1) c3 by (meson rtranclp.rtrancl_into_rtrancl converse_rtranclp_into_rtranclp)
  moreover have "n_acts (p_conns ?c3 ! i) = as \<and> n_acts (p_conns ?c3 ! j) = [] \<and> n_cur (p_conns ?c3 ! j) = u32_of_int (u_id v) \<and>
      online_fd (p_server ?c3) (u_id v) = n_fd ?n \<and> offline_queue (p_server ?c3) (u_id v) = [queued_msg ty p u]"
    using c2 ij assms t by (simp add: pool_run_def Let_def enqueue_offline_def online_fd_def offline_queue_def um_at_def)
  ultimately show ?thesis by blast
qed

subsection \<open>Instances\<close>

theorem message_reaches_stranger_witness:
  "\<exists>c'. pool_step\<^sup>*\<^sup>* (pool_after to_online) c' \<and> n_cur (p_conns c' ! 2) = 0 \<and>
    (2, sent_msg 5 (code DIRECT_MESSAGE) hello 1) \<in> set (p_got c')"
proof -
  let ?c = "pool_after to_online"
  have "n_acts (p_conns ?c ! 0) = Send_to 5 (code DIRECT_MESSAGE) hello 1 # tl (n_acts (p_conns ?c ! 0))" by code_simp
  moreover have "length (p_conns ?c) = 2" by code_simp
  moreover have "n_open (p_conns ?c ! 1)" "n_acts (p_conns ?c ! 1) = []" "n_fd (p_conns ?c ! 1) = 5" by code_simp+
  ultimately show ?thesis
    using message_reaches_stranger [of 0 ?c 5 "code DIRECT_MESSAGE" hello 1 "tl (n_acts (p_conns ?c ! 0))" 1]
    by (simp del: code.simps) blast
qed

theorem login_misses_queued_message_witness:
  "\<exists>c'. pool_step\<^sup>*\<^sup>* (pool_after to_offline) c' \<and> n_cur (p_conns c' ! 1) = 2 \<and> online_fd (p_server c') 2 = 5 \<and>
    offline_queue (p_server c') 2 = [queued_msg (code DIRECT_MESSAGE) hello 1]"
proof -
  let ?c = "pool_after to_offline" and ?login = "''username=bob&password=pb''"
  have "n_acts (p_conns ?c ! 0) = Enqueue (u_id bob) (code DIRECT_MESSAGE) hello 1 # tl (n_acts (p_conns ?c ! 0))" by code_simp
  moreover have "length (p_conns ?c) = 2" by code_simp
  moreover have "n_open (p_conns ?c ! 1)" "n_acts (p_conns ?c ! 1) = []" "n_fd (p_conns ?c ! 1) = 5" by code_simp+
  moreover have "um_get (g_users_by_name (p_server ?c)) (kv_at (parse_kv ?login) ''username'') = Some bob"
    "u_password_hash bob = kv_at (parse_kv ?login) ''password''" "um_ok (g_offline_messages (p_server ?c))" by code_simp+
  moreover have "u_id bob = 2" "u32_of_int 2 = 2" by code_simp+
  ultimately show ?thesis
    using login_misses_queued_message [of 0 ?c bob "code DIRECT_MESSAGE" hello 1 "tl (n_acts (p_conns ?c ! 0))" 1 ?login]
    by (simp del: code.simps) blast
qed

text \<open>Alice makes Bob an admin of the group; his thread has passed the check for Carol.\<close>

definition to_promote :: "command list" where
  "to_promote = [Accept 4, Accept 5, Read 0 (T_login ''username=alice&password=pa'')] @ replicate 5 (Run 0) @
     [Read 1 (T_login ''username=bob&password=pb'')] @ replicate 9 (Run 1) @
     [Read 0 (T_admin ''groupId=7&userId=2'')] @ replicate 13 (Run 0) @
     [Read 1 (T_admin ''groupId=7&userId=3''), Run 1]"

lemma promote_run:
  "let c = pool_after to_promote; n = p_conns c ! 0; m = p_conns c ! 1 in
     length (p_conns c) = 2 \<and> n_acts m = Promote_user 5 7 3 # tl (n_acts m) \<and> n_open n \<and> n_acts n = [] \<and>
     int_of_u32 (n_cur n) = 1 \<and> int_of_u32 (n_cur m) = 2 \<and> is_admin (p_server c) 7 1 \<and> \<not> is_admin (p_server c) 7 3 \<and>
     is_admin (p_server (pool_run sample_env 1 c)) 7 3 \<and> list_all (\<lambda>k. int_of_u32 (n_cur k) \<noteq> 3) (p_conns c)"
  by code_simp

lemmas promote_state = promote_run [unfolded Let_def, THEN conjunct1] promote_run [unfolded Let_def, THEN conjunct2]

lemma remove_bob:
  "readable (T_remove ''groupId=7&userId=2'')" "number_at ''groupId=7&userId=2'' ''groupId'' = 7"
  "number_at ''groupId=7&userId=2'' ''userId'' = 2" "\<not> has_pg quiet_server"
  by code_simp+

theorem admins_once_checked_witness:
  "\<exists>n \<in> set (p_conns (pool_after to_promote)). (\<exists>fd as. n_acts n = Promote_user fd 7 3 # as) \<and>
    (\<exists>c0. pool_reachable quiet_server c0 \<and> pool_step\<^sup>*\<^sup>* c0 (pool_after to_promote) \<and>
      is_admin (p_server c0) 7 (int_of_u32 (n_cur n)))"
proof -
  have "pool_step (pool_after to_promote) (pool_run sample_env 1 (pool_after to_promote))"
    using promote_state by (intro s_run) (simp_all, metis list.distinct(1))
  from admins_once_checked [OF pool_after_reachable remove_bob(4) this, of 7 3] promote_state(2)
  show ?thesis by (auto simp: list_all_iff)
qed

theorem removed_admin_promotes_witness:
  "\<exists>c1 c2. pool_step\<^sup>*\<^sup>* (pool_after to_promote) c1 \<and> \<not> is_admin (p_server c1) 7 2 \<and> \<not> is_member (p_server c1) 7 2 \<and>
    \<not> is_admin (p_server c1) 7 3 \<and> pool_step c1 c2 \<and> is_admin (p_server c2) 7 3"
  using removed_admin_promotes [of 1 "pool_after to_promote" 5 7 3 "tl (n_acts (p_conns (pool_after to_promote) ! 1))" 0
      "''groupId=7&userId=2''"] promote_state remove_bob by simp

end
