(* ===== verification/Session_Properties.thy ===== *)
theory Session_Properties
  imports Delivery
begin

text \<open>
  Accounts and sessions: how a connection gets its identity, what a registration does to the user
  tables and to the users file, and what a search returns.
\<close>

subsection \<open>Identity\<close>

lemma stay_Inr: "stay cur m s = (Inr (go, cur'), t) \<Longrightarrow> go \<and> cur' = cur"
  by (auto simp: stay_def seqE_Inr_iff)

lemma switch_user_Inr: "switch_user m s = (Inr (go, cur'), t) \<Longrightarrow> go \<and> m s = (Inr cur', t)"
  by (auto simp: switch_user_def bindE_Inr_iff)

lemma login_identity:
  assumes "handle_LOGIN e fd payload cur s = (Inr cur', t)" and "cur' \<noteq> cur"
  shows "\<exists>u. um_get (g_users_by_name s) (kv_at (parse_kv payload) ''username'') = Some u \<and>
    u_password_hash u = kv_at (parse_kv payload) ''password'' \<and> cur' = u32_of_int (u_id u)"
  using assms
  by (auto simp: handle_LOGIN_def Let_def seqE_Inr_iff bindE_Inr_iff simp del: code.simps split: if_splits option.splits)

lemma register_identity:
  assumes "handle_REGISTER e fd payload cur s = (Inr cur', t)" and "cur' \<noteq> cur"
  shows "kv_at (parse_kv payload) ''username'' \<noteq> [] \<and> kv_at (parse_kv payload) ''password'' \<noteq> [] \<and>
    \<not> um_count (g_users_by_name s) (kv_at (parse_kv payload) ''username'')"
  using assms
  by (auto simp: handle_REGISTER_def Let_def seqE_Inr_iff bindE_Inr_iff simp del: code.simps split: if_splits option.splits)

text \<open>
  C9: with and without a database, the identity of a connection changes in two ways only: a
  \<^verbatim>\<open>LOGIN\<close> whose password is the stored one makes it that account, and a \<^verbatim>\<open>REGISTER\<close> with a name
  that is not taken makes it the new account. No other request changes it.
\<close>

theorem identity_only_by_credentials:
  assumes "dispatch e fd h payload cur s = (Inr (go, cur'), t)" and "cur' \<noteq> cur"
  shows "(h_type h = code LOGIN \<and> (\<exists>u. um_get (g_users_by_name s) (kv_at (parse_kv payload) ''username'') = Some u \<and>
      u_password_hash u = kv_at (parse_kv payload) ''password'' \<and> cur' = u32_of_int (u_id u))) \<or>
    (h_type h = code REGISTER \<and> kv_at (parse_kv payload) ''password'' \<noteq> [] \<and>
      \<not> um_count (g_users_by_name s) (kv_at (parse_kv payload) ''username''))"
proof (cases "type_of_code (h_type h)")
  case None
  with assms show ?thesis by (auto simp: dispatch_def dest: stay_Inr)
next
  case (Some ty)
  then have "h_type h = code ty" by (simp add: type_of_code_Some)
  with assms Some show ?thesis
    by (cases ty)
       (auto simp: dispatch_def seqE_Inr_iff simp del: code.simps
          dest!: stay_Inr switch_user_Inr dest: login_identity register_identity)
qed

text \<open>
  A login with a wrong name or password leaves the state as it was, but for the error reply, and
  the connection keeps the identity it had.
\<close>

lemma login_rejected:
  assumes "\<nexists>u. um_get (g_users_by_name s) (kv_at (parse_kv payload) ''username'') = Some u \<and>
      u_password_hash u = kv_at (parse_kv payload) ''password''"
  shows "handle_LOGIN e fd payload cur s =
    (Inr cur, s\<lparr>outbox := outbox s @ [sent_msg fd (code ERROR) ''Invalid credentials'' 0]\<rparr>)"
  using assms by (auto simp: handle_LOGIN_def Let_def split: option.split)

subsection \<open>Registration\<close>

abbreviation new_user :: "int \<Rightarrow> string \<Rightarrow> int \<Rightarrow> user" where
  "new_user uid payload fd \<equiv>
     \<lparr>u_id = uid, u_username = kv_at (parse_kv payload) ''username'',
      u_password_hash = kv_at (parse_kv payload) ''password'', u_phone = kv_at (parse_kv payload) ''phone'',
      u_socket_fd = fd, u_is_online = True, u_last_seen = 0\<rparr>"

lemma register_run:
  assumes "\<not> has_pg s" and "kv_at (parse_kv payload) ''username'' \<noteq> []"
    and "kv_at (parse_kv payload) ''password'' \<noteq> []"
    and "\<not> um_count (g_users_by_name s) (kv_at (parse_kv payload) ''username'')"
  shows "handle_REGISTER e fd payload cur s =
    (let uid = g_next_user_id s; name = kv_at (parse_kv payload) ''username'';
         t = store_registered (new_user uid payload fd) fd
           (snd (save_users e (s\<lparr>g_next_user_id := wrap_int32 (uid + 1)\<rparr>)))
     in (Inr (u32_of_int uid),
         t\<lparr>activity := activity t @ [(''REGISTER'', uid, ''username='' @ name)],
           outbox := outbox t @ [sent_msg fd (code SUCCESS) (auth_reply uid name) (u32_of_int uid)]\<rparr>))"
proof -
  have "allocate_user e n w ph s =
      (Inr (Some (g_next_user_id s)), snd (save_users e (s\<lparr>g_next_user_id := wrap_int32 (g_next_user_id s + 1)\<rparr>)))" for n w ph
    using assms(1) by (simp add: allocate_user_def save_users_def)
  with assms(2-4) show ?thesis
    by (simp add: handle_REGISTER_def Let_def del: code.simps)
qed

lemma save_users_frames [simp]:
  "g_users_by_name (snd (save_users e s)) = g_users_by_name s"
  "g_users_by_id (snd (save_users e s)) = g_users_by_id s"
  "g_next_user_id (snd (save_users e s)) = g_next_user_id s"
  "outbox (snd (save_users e s)) = outbox s"
  by (simp_all add: save_users_def)

text \<open>The two user maps agree, ids are below the counter: what a registration relies on.\<close>

definition users_consistent :: "'db server \<Rightarrow> bool" where
  "users_consistent s \<longleftrightarrow> users_keyed s \<and> users_mutual s \<and>
     (\<forall>i u. um_get (g_users_by_id s) i = Some u \<longrightarrow> i < g_next_user_id s)"

text \<open>
  A registration without a database, as long as the id counter has not reached the largest
  \<^verbatim>\<open>int\<close>: the account is stored under its name and under a fresh id, the other accounts are kept, the
  two maps stay consistent, and the connection becomes the new account.
\<close>

lemma register_keeps_consistency:
  assumes "\<not> has_pg s" and "kv_at (parse_kv payload) ''username'' \<noteq> []"
    and "kv_at (parse_kv payload) ''password'' \<noteq> []"
    and "\<not> um_count (g_users_by_name s) (kv_at (parse_kv payload) ''username'')"
    and "users_consistent s" and "0 < g_next_user_id s" and "g_next_user_id s < int32_max"
  shows "\<exists>t. handle_REGISTER e fd payload cur s = (Inr (u32_of_int (g_next_user_id s)), t) \<and>
    users_consistent t \<and> um_get (g_users_by_id s) (g_next_user_id s) = None \<and>
    g_users_by_id t = um_put (g_next_user_id s) (new_user (g_next_user_id s) payload fd) (g_users_by_id s) \<and>
    g_users_by_name t =
      um_put (kv_at (parse_kv payload) ''username'') (new_user (g_next_user_id s) payload fd) (g_users_by_name s)"
proof -
  let ?uid = "g_next_user_id s"
  have wrap: "wrap_int32 (?uid + 1) = ?uid + 1"
    using assms(6,7) by (intro wrap_int32_id) (simp add: in_int32_def int32_min_def)
  have fresh: "um_get (g_users_by_id s) ?uid = None"
    using assms(5) by (metis users_consistent_def less_irrefl option.exhaust)
  let ?t0 = "store_registered (new_user ?uid payload fd) fd (snd (save_users e (s\<lparr>g_next_user_id := wrap_int32 (?uid + 1)\<rparr>)))"
  have maps: "g_users_by_id ?t0 = um_put ?uid (new_user ?uid payload fd) (g_users_by_id s)"
    "g_users_by_name ?t0 = um_put (kv_at (parse_kv payload) ''username'') (new_user ?uid payload fd) (g_users_by_name s)"
    "g_next_user_id ?t0 = ?uid + 1"
    by (simp_all add: store_registered_def wrap)
  have "users_consistent (?t0\<lparr>activity := a, outbox := x\<rparr>)" for a x
    using assms(4,5) fresh
    by (auto simp: users_consistent_def users_keyed_def users_mutual_def maps um_count_def) fastforce+
  with maps fresh show ?thesis
    by (subst register_run [OF assms(1-4)]) (simp add: Let_def)
qed

text \<open>
  C36: what a registration without a database writes to the users file is the old user table: the
  new account is not in the file, and a server restarted from it does not know the new name.
\<close>

theorem registered_user_not_saved:
  fixes s :: "'db server"
  assumes "\<not> has_pg s" and "kv_at (parse_kv payload) ''username'' \<noteq> []"
    and "kv_at (parse_kv payload) ''password'' \<noteq> []"
    and "\<not> um_count (g_users_by_name s) (kv_at (parse_kv payload) ''username'')"
    and "fs_writable e"
  shows "users_file (snd (handle_REGISTER e fd payload cur s)) = users_file (snd (save_users e s))"
  using assms(5) by (subst register_run [OF assms(1-4)]) (simp add: Let_def store_registered_def save_users_def)

subsection \<open>Search\<close>

lemma search_loop_spec:
  assumes "cnt < 20"
  shows "search_loop s requester query us cnt items =
    (let found = take (20 - cnt) (filter (search_match requester query) us) in
     (cnt + length found,
      items @ concat (map (\<lambda>(i, u). search_items s requester i u) (enumerate cnt found))))"
  using assms
proof (induction us arbitrary: cnt items)
  case Nil
  then show ?case by (simp add: Let_def)
next
  case (Cons u us)
  show ?case
  proof (cases "search_match requester query u")
    case False
    with Cons show ?thesis by (simp add: Let_def)
  next
    case True
    show ?thesis
    proof (cases "20 \<le> Suc cnt")
      case True': True
      with Cons.prems have "20 - cnt = 1" by simp
      with True True' show ?thesis by (simp add: Let_def)
    next
      case False
      then have "20 - cnt = Suc (20 - Suc cnt)" by simp
      with True False Cons.IH [of "Suc cnt"] show ?thesis
        by (simp add: Let_def)
    qed
  qed
qed

definition search_result :: "'db env \<Rightarrow> 'db server \<Rightarrow> int \<Rightarrow> string \<Rightarrow> user list" where
  "search_result e s requester query =
     take 20 (filter
       (\<lambda>u. u_id u \<noteq> requester \<and> (\<exists>p q. map tolower (u_username u) = p @ map tolower query @ q))
       (um_values (iter_names e) (g_users_by_name s)))"

text \<open>
  A search replies with the first twenty users, in the order in which the table is visited, whose
  name contains the query regardless of case, the requester excluded; the reply lists them with
  consecutive indices, and the friendships are as before.
\<close>

lemma search_returns_first_matches:
  "\<exists>t. handle_SEARCH_USER e fd payload requester s = (Inr (), t) \<and> are_friends t = are_friends s \<and>
    outbox t = outbox s @ [sent_msg fd (code SUCCESS)
      (let found = search_result e s requester (kv_at (parse_kv payload) ''query'') in
       serialize_kv ((''count'', to_string (int (length found))) #
        concat (map (\<lambda>(i, u). search_items s requester i u) (enumerate 0 found))))
      (u32_of_int requester)]"
proof -
  let ?q = "kv_at (parse_kv payload) ''query''"
  let ?found = "search_result e s requester ?q"
  have match: "search_match requester ?q =
      (\<lambda>u. u_id u \<noteq> requester \<and> (\<exists>p q. map tolower (u_username u) = p @ map tolower ?q @ q))"
    by (simp add: fun_eq_iff search_match_def is_substring_iff)
  have loop: "search_loop s requester ?q (um_values (iter_names e) (g_users_by_name s)) 0 [] =
    (length ?found, concat (map (\<lambda>(i, u). search_items s requester i u) (enumerate 0 ?found)))"
    by (simp add: search_loop_spec Let_def search_result_def match)
  have obs: "are_friends (s\<lparr>g_friends := um_touch [] requester (g_friends s)\<rparr>) = are_friends s"
    by (simp add: fun_eq_iff)
  show ?thesis
    by (simp add: handle_SEARCH_USER_def loop whenE_def touch_friends_def obs Let_def del: code.simps)
qed

subsection \<open>Instances\<close>

text \<open>The theorems on the sample server: their hypotheses hold there.\<close>

theorem identity_only_by_credentials_witness:
  "\<exists>t. dispatch sample_env 6 (sent_header 0 (code LOGIN) ''username=bob&password=pb'' 0) ''username=bob&password=pb'' 0 sample_server =
      (Inr (True, 2), t) \<and>
    (\<exists>u. um_get (g_users_by_name sample_server) ''bob'' = Some u \<and> u_password_hash u = ''pb'' \<and> 2 = u32_of_int (u_id u))"
proof -
  let ?m = "''username=bob&password=pb''"
  have h: "um_get (g_users_by_name sample_server) (kv_at (parse_kv ?m) ''username'') = Some bob"
    "u_password_hash bob = kv_at (parse_kv ?m) ''password''"
    by code_simp+
  have two: "u32_of_int (u_id bob) = 2" by code_simp
  obtain t where "handle_LOGIN sample_env 6 ?m 0 sample_server = (Inr 2, t)"
    using login_run [OF has_pg_sample(1) h, of sample_env 6 0] two by auto
  then have run: "dispatch sample_env 6 (sent_header 0 (code LOGIN) ?m 0) ?m 0 sample_server = (Inr (True, 2), t)"
    by (simp add: dispatch_def switch_user_def del: code.simps)
  have "kv_at (parse_kv ?m) ''username'' = ''bob''" "kv_at (parse_kv ?m) ''password'' = ''pb''" by code_simp+
  with identity_only_by_credentials [OF run] run show ?thesis by simp
qed

lemma sample_register:
  "kv_at (parse_kv ''username=dave&password=pd'') ''username'' \<noteq> []"
  "kv_at (parse_kv ''username=dave&password=pd'') ''password'' \<noteq> []"
  "\<not> um_count (g_users_by_name sample_server) (kv_at (parse_kv ''username=dave&password=pd'') ''username'')"
  by code_simp+

theorem registered_user_not_saved_witness:
  "users_file (snd (handle_REGISTER sample_env 6 ''username=dave&password=pd'' 0 sample_server)) =
    users_file (snd (save_users sample_env sample_server))"
  by (rule registered_user_not_saved [OF has_pg_sample(1) sample_register])
     (simp add: sample_env_def sample_env_of_def)

end
