(* ===== verification/Robustness.thy ===== *)
theory Robustness
  imports Delivery
begin

text \<open>
  Replies and crashes. Every request that is answered at all gets an answer on the connection it
  came in on. An exception is never caught around a handler, so a field that is not a number ends
  the whole process; without a database, the requests that do are characterised exactly.
\<close>

subsection \<open>Every request gets a reply\<close>

definition fd_count :: "int \<Rightarrow> 'db server \<Rightarrow> nat" where
  "fd_count fd s = length (filter (\<lambda>x. s_fd x = fd) (outbox s))"

definition at_least :: "int \<Rightarrow> nat \<Rightarrow> 'db server \<Rightarrow> bool" where
  "at_least fd n s \<longleftrightarrow> n \<le> fd_count fd s"

lemma fd_count_frames [simp]:
  "fd_count fd (s\<lparr>activity := y\<rparr>) = fd_count fd s" "fd_count fd (s\<lparr>g_offline_messages := z\<rparr>) = fd_count fd s"
  "fd_count fd (s\<lparr>g_pg_persistence := p\<rparr>) = fd_count fd s" "fd_count fd (s\<lparr>g_friends := f\<rparr>) = fd_count fd s"
  "fd_count fd (s\<lparr>g_groups := g\<rparr>) = fd_count fd s" "fd_count fd (s\<lparr>users_file := w\<rparr>) = fd_count fd s"
  "fd_count fd (s\<lparr>g_next_user_id := n\<rparr>) = fd_count fd s" "fd_count fd (s\<lparr>g_online_clients := c\<rparr>) = fd_count fd s"
  "fd_count fd (s\<lparr>g_friend_requests := r\<rparr>) = fd_count fd s" "fd_count fd (s\<lparr>g_next_group_id := n\<rparr>) = fd_count fd s"
  "fd_count fd (store_registered u x s) = fd_count fd s" "fd_count fd (accept_memory a b s) = fd_count fd s"
  "fd_count fd (unfriend_memory a b s) = fd_count fd s" "fd_count fd (drop_request a b s) = fd_count fd s"
  by (simp_all add: fd_count_def store_registered_def accept_memory_def unfriend_memory_def
      drop_request_def set_friend_def clear_friend_def)

interpretation al: server_inv "at_least fd n"
  by unfold_locales (auto simp: at_least_def, simp_all add: fd_count_def)

definition replies :: "int \<Rightarrow> ('db server, 'a) M \<Rightarrow> bool" where
  "replies fd m \<longleftrightarrow> (\<forall>s r t. m s = (Inr r, t) \<longrightarrow> fd_count fd s < fd_count fd t)"

definition keeps_replies :: "int \<Rightarrow> ('db server, 'a) M \<Rightarrow> bool" where
  "keeps_replies fd m \<longleftrightarrow> (\<forall>n. pres (at_least fd n) m)"

lemma keeps_repliesD: "keeps_replies fd m \<Longrightarrow> m s = (r, t) \<Longrightarrow> fd_count fd s \<le> fd_count fd t"
  unfolding keeps_replies_def
  by (drule spec [of _ "fd_count fd s"], drule presD [of _ _ s]) (simp_all add: at_least_def)

lemma replies_send: "replies fd (send fd ty p u)"
  by (auto simp: replies_def fd_count_def)

lemma replies_first: "replies fd m \<Longrightarrow> (\<And>a. keeps_replies fd (f a)) \<Longrightarrow> replies fd (bindE m f)"
  unfolding replies_def by (auto simp: bindE_Inr_iff dest!: keeps_repliesD) (meson order_less_le_trans keeps_repliesD)

lemma replies_last: "keeps_replies fd m \<Longrightarrow> (\<And>a. replies fd (f a)) \<Longrightarrow> replies fd (bindE m f)"
  unfolding replies_def by (auto simp: bindE_Inr_iff) (meson order_le_less_trans keeps_repliesD)

lemma replies_first_seq: "replies fd m \<Longrightarrow> keeps_replies fd n \<Longrightarrow> replies fd (seqE m n)"
  by (simp add: seqE_def replies_first)

lemma replies_last_seq: "keeps_replies fd m \<Longrightarrow> replies fd n \<Longrightarrow> replies fd (seqE m n)"
  by (simp add: seqE_def replies_last)

lemma replies_if: "replies fd m \<Longrightarrow> replies fd n \<Longrightarrow> replies fd (if b then m else n)"
  by simp

lemma replies_case_option:
  "replies fd m \<Longrightarrow> (\<And>a. replies fd (n a)) \<Longrightarrow> replies fd (case x of None \<Rightarrow> m | Some a \<Rightarrow> n a)"
  by (cases x) simp_all

lemma replies_case_sum:
  "(\<And>a. replies fd (m a)) \<Longrightarrow> (\<And>a. replies fd (n a)) \<Longrightarrow> replies fd (case x of Inl a \<Rightarrow> m a | Inr b \<Rightarrow> n b)"
  by (cases x) simp_all

lemma replies_case_prod: "(\<And>a b. replies fd (f a b)) \<Longrightarrow> replies fd (case x of (a, b) \<Rightarrow> f a b)"
  by (cases x) simp

lemma keeps_intros:
  "keeps_replies fd (retE x)" "keeps_replies fd (getsE g)" "keeps_replies fd (liftE r)"
  "keeps_replies fd (stoi_kv kv k)" "keeps_replies fd (send fd' ty p u)" "keeps_replies fd (log_activity a b d)"
  "keeps_replies fd (pg_call op)" "keeps_replies fd (if_pg op)" "keeps_replies fd (deliver ty p u v)"
  "keeps_replies fd (broadcast ty p u ids)" "keeps_replies fd (notify_friends_status_change e v onl)"
  "keeps_replies fd (touch_friends v)" "keeps_replies fd (touch_group v)"
  "keeps_replies fd (system_broadcast e gid sys)"
  by (simp_all add: keeps_replies_def pres_intros al.pres_comm al.each.pres_system_broadcast al.each.pres_touch_group)

lemma keeps_bind:
  "keeps_replies fd m \<Longrightarrow> (\<And>a. keeps_replies fd (f a)) \<Longrightarrow> keeps_replies fd (bindE m f)"
  "keeps_replies fd m \<Longrightarrow> keeps_replies fd m' \<Longrightarrow> keeps_replies fd (seqE m m')"
  "keeps_replies fd u \<Longrightarrow> keeps_replies fd (catch_all u)"
  by (simp_all add: keeps_replies_def pres_bindE pres_seqE pres_catch_all)

lemma keeps_modify:
  "keeps_replies fd (modifyE f) \<longleftrightarrow> (\<forall>n s. at_least fd n s \<longrightarrow> at_least fd n (f s))"
  by (auto simp: keeps_replies_def pres_def)

lemma keeps_if:
  "keeps_replies fd m \<Longrightarrow> keeps_replies fd m' \<Longrightarrow> keeps_replies fd (if b then m else m')"
  "(b \<Longrightarrow> keeps_replies fd u) \<Longrightarrow> keeps_replies fd (whenE b u)"
  by (simp_all add: whenE_def keeps_intros)

lemma keeps_updates:
  "keeps_replies fd (modifyE (store_registered u x))"
  "keeps_replies fd (modifyE (\<lambda>s. s\<lparr>g_online_clients := c s\<rparr>))"
  "keeps_replies fd (modifyE (\<lambda>s. s\<lparr>g_friend_requests := r s\<rparr>))"
  "keeps_replies fd (modifyE (accept_memory a b))" "keeps_replies fd (modifyE (drop_request a b))"
  "keeps_replies fd (modifyE (unfriend_memory a b))" "keeps_replies fd (modifyE (update_group gid g))"
  "keeps_replies fd (modifyE (store_group gid nm a ids))"
  by (auto simp: keeps_modify at_least_def store_group_def update_group_def split: option.split)

lemma keeps_accounts:
  "keeps_replies fd (allocate_user e a b d)" "keeps_replies fd (login_requests e u)"
  unfolding keeps_replies_def
  by (auto intro!: al.pres_allocate_user al.pres_login_requests al.I_file al.I_next_user al.I_request)

lemma keeps_parts:
  "keeps_replies fd (take_offline u)" "keeps_replies fd (deliver_requests fd' reqs)"
  "keeps_replies fd (deliver_invites e fd' u)" "keeps_replies fd (deliver_offline fd' q)"
  "keeps_replies fd (merged_requests e u)" "keeps_replies fd (request_target e kv)"
  "keeps_replies fd (already_friends u v)" "keeps_replies fd (store_request_db e u v)"
  "keeps_replies fd (notify_request cur v)" "keeps_replies fd (history_limit kv)"
  "keeps_replies fd (in_group e gid u)" "keeps_replies fd (user_groups e u)"
  "keeps_replies fd (user_groups_items e i gs)" "keeps_replies fd (allocate_group e nm u ids)"
  "keeps_replies fd (accept_invite e gid u)" "keeps_replies fd (remove_permitted e gid u v)"
  "keeps_replies fd (admin_permitted e gid u)" "keeps_replies fd (leave_memory gid u)"
  "keeps_replies fd (message_recipients e gid u)"
  unfolding keeps_replies_def take_offline_def deliver_requests_def deliver_invites_def
    deliver_offline_def merged_requests_def request_target_def already_friends_def
    store_request_db_def notify_request_def history_limit_def in_group_def user_groups_def
    allocate_group_def accept_invite_def remove_permitted_def admin_permitted_def
    leave_memory_def message_recipients_def
  by (intro allI al.pres_user_groups_items pres_intros al.pres_comm pres_modifyE
        al.I_take al.I_requests al.I_update_group al.I_groups al.I_group; assumption)+

lemma keeps_announcements:
  "keeps_replies fd (announce_added e gid uid cur)" "keeps_replies fd (announce_rename e gid nm cur)"
  "keeps_replies fd (announce_nickname e gid uid nm cur)" "keeps_replies fd (announce_removed e gid uid cur)"
  "keeps_replies fd (announce_admin e gid uid cur)" "keeps_replies fd (notify_removed e gid uid)"
  "keeps_replies fd (notify_joined e gid uid cur)" "keeps_replies fd (notify_invited gid uid cur)"
  by (simp_all add: keeps_replies_def al.each.pres_announce)

lemmas keeps_all = keeps_intros keeps_bind keeps_if keeps_updates keeps_accounts keeps_parts keeps_announcements

text \<open>A branch replies if it sends to its client and then keeps the outbox growing, or if what
  comes first keeps it growing and the rest replies.\<close>

lemmas replies_rules =
  replies_send replies_first_seq [OF replies_send] replies_if replies_case_option replies_case_sum
  replies_case_prod

lemma replies_sessions:
  "replies fd (handle_HEARTBEAT fd cur)" "replies fd (handle_default fd cur)"
  "replies fd (handle_REGISTER e fd payload cur)" "replies fd (handle_LOGIN e fd payload cur)"
  "replies fd (handle_LOGOUT e fd cur)" "replies fd (handle_SEARCH_USER e fd payload req)"
  "replies fd (handle_GET_ALL_USERS e fd req)"
  unfolding handle_HEARTBEAT_def handle_default_def handle_REGISTER_def handle_LOGIN_def
    handle_LOGOUT_def handle_SEARCH_USER_def handle_GET_ALL_USERS_def Let_def
  by (rule replies_rules keeps_all replies_last replies_last_seq)+

lemma replies_friends:
  "replies fd (handle_GET_FRIENDS_LIST e fd cur)" "replies fd (handle_FRIEND_REQUEST e fd payload cur)"
  "replies fd (handle_FRIEND_ACCEPT e fd payload cur)" "replies fd (handle_FRIEND_DECLINE e fd payload cur)"
  "replies fd (handle_UNFRIEND fd payload cur)"
  unfolding handle_GET_FRIENDS_LIST_def handle_FRIEND_REQUEST_def handle_FRIEND_ACCEPT_def
    handle_FRIEND_DECLINE_def handle_UNFRIEND_def Let_def
  by (rule replies_rules keeps_all replies_last replies_last_seq)+

lemma replies_messages:
  "replies fd (handle_DIRECT_MESSAGE e fd payload cur)"
  "replies fd (handle_GET_CONVERSATION_HISTORY e fd payload cur)"
  "replies fd (handle_GET_GROUP_HISTORY e fd payload cur)"
  "replies fd (handle_DELETE_CONVERSATION e fd payload cur)"
  "replies fd (handle_GROUP_MESSAGE e fd payload cur)" "replies fd (handle_GET_USER_GROUPS e fd req cur)"
  unfolding handle_DIRECT_MESSAGE_def handle_GET_CONVERSATION_HISTORY_def handle_GET_GROUP_HISTORY_def
    handle_DELETE_CONVERSATION_def handle_GROUP_MESSAGE_def handle_GET_USER_GROUPS_def Let_def
  by (rule replies_rules keeps_all replies_last replies_last_seq)+

lemma replies_groups:
  "replies fd (handle_CREATE_GROUP e fd payload cur)" "replies fd (handle_INVITE_TO_GROUP e fd payload cur)"
  "replies fd (handle_ACCEPT_GROUP_INVITE e fd payload cur)"
  "replies fd (handle_DECLINE_GROUP_INVITE e fd payload cur)"
  "replies fd (handle_RENAME_GROUP e fd payload cur)" "replies fd (handle_SET_GROUP_NICKNAME e fd payload cur)"
  "replies fd (handle_REMOVE_FROM_GROUP e fd payload cur)" "replies fd (handle_MAKE_ADMIN e fd payload cur)"
  "replies fd (handle_LEAVE_GROUP e fd payload cur)"
  unfolding handle_CREATE_GROUP_def handle_INVITE_TO_GROUP_def handle_ACCEPT_GROUP_INVITE_def
    handle_DECLINE_GROUP_INVITE_def handle_RENAME_GROUP_def handle_SET_GROUP_NICKNAME_def
    handle_REMOVE_FROM_GROUP_def handle_MAKE_ADMIN_def handle_LEAVE_GROUP_def Let_def
  by (rule replies_rules keeps_all replies_last replies_last_seq)+

lemma replies_flow:
  "replies fd m \<Longrightarrow> replies fd (stay cur m)" "replies fd m' \<Longrightarrow> replies fd (switch_user m')"
  "replies fd m \<Longrightarrow> replies fd (seqE m (retE x))"
  by (simp_all add: stay_def switch_user_def replies_first_seq replies_first keeps_intros)

text \<open>
  C20: with and without a database, a request that does not end in an exception is answered: at least
  one message goes to the connection it came in on, whatever its type and payload are.
\<close>

theorem every_request_answered:
  assumes "dispatch e fd h payload cur s = (Inr r, t)"
  shows "length (filter (\<lambda>x. s_fd x = fd) (outbox s)) < length (filter (\<lambda>x. s_fd x = fd) (outbox t))"
proof -
  note rules = replies_flow replies_sessions replies_friends replies_messages replies_groups
  have "replies fd (dispatch e fd h payload cur)"
  proof (cases "type_of_code (h_type h)")
    case None
    then show ?thesis by (simp add: dispatch_def rules)
  next
    case (Some ty)
    then show ?thesis by (cases ty) (simp_all add: dispatch_def rules)
  qed
  with assms show ?thesis by (cases r) (auto simp: replies_def fd_count_def)
qed

subsection \<open>Which requests end the process\<close>

definition int_field :: "kv_map \<Rightarrow> string \<Rightarrow> bool" where
  "int_field kv k = (case stoi (kv_at kv k) of Inl _ \<Rightarrow> False | Inr _ \<Rightarrow> True)"

text \<open>The numeric fields a request needs when there is no database. The history of a conversation
  cannot be served at all: its branch uses the null \<^verbatim>\<open>g_pg_persistence\<close>.\<close>

definition request_ok :: "u8 \<Rightarrow> string \<Rightarrow> bool" where
  "request_ok ty payload =
     (let kv = parse_kv payload in
      case type_of_code ty of
        Some FRIEND_REQUEST \<Rightarrow> um_count kv ''username'' \<or> (um_count kv ''targetUserId'' \<longrightarrow> int_field kv ''targetUserId'')
      | Some FRIEND_ACCEPT \<Rightarrow> int_field kv ''userId''
      | Some FRIEND_DECLINE \<Rightarrow> int_field kv ''userId''
      | Some UNFRIEND \<Rightarrow> int_field kv ''userId''
      | Some DIRECT_MESSAGE \<Rightarrow> int_field kv ''recipientId''
      | Some GET_CONVERSATION_HISTORY \<Rightarrow> False
      | Some GET_GROUP_HISTORY \<Rightarrow> int_field kv ''groupId'' \<and> (um_count kv ''limit'' \<longrightarrow> int_field kv ''limit'')
      | Some DELETE_CONVERSATION \<Rightarrow> int_field kv ''otherUserId''
      | Some CREATE_GROUP \<Rightarrow> (case parse_members kv of Inl _ \<Rightarrow> False | Inr _ \<Rightarrow> True)
      | Some INVITE_TO_GROUP \<Rightarrow> int_field kv ''groupId'' \<and> int_field kv ''userId''
      | Some ACCEPT_GROUP_INVITE \<Rightarrow> int_field kv ''groupId''
      | Some DECLINE_GROUP_INVITE \<Rightarrow> int_field kv ''groupId''
      | Some RENAME_GROUP \<Rightarrow> int_field kv ''groupId''
      | Some SET_GROUP_NICKNAME \<Rightarrow> int_field kv ''groupId'' \<and> int_field kv ''userId''
      | Some REMOVE_FROM_GROUP \<Rightarrow> int_field kv ''groupId'' \<and> int_field kv ''userId''
      | Some MAKE_ADMIN \<Rightarrow> int_field kv ''groupId'' \<and> int_field kv ''userId''
      | Some LEAVE_GROUP \<Rightarrow> int_field kv ''groupId''
      | Some GROUP_MESSAGE \<Rightarrow> int_field kv ''groupId''
      | _ \<Rightarrow> True)"

text \<open>Without a database a computation that throws nothing of its own returns.\<close>

definition memory_total :: "('db server, 'a) M \<Rightarrow> bool" where
  "memory_total m \<longleftrightarrow> (\<forall>s. \<not> has_pg s \<longrightarrow> (\<exists>r t. m s = (Inr r, t) \<and> \<not> has_pg t))"

lemma total_basic:
  "memory_total (retE x)" "memory_total (getsE g)" "memory_total (send fd ty p u)" "memory_total (log_activity a b d)"
  "memory_total (if_pg op)" "memory_total (touch_friends v)" "memory_total (touch_group v)" "memory_total (enqueue_offline v ty p u)"
  by (auto simp: memory_total_def touch_friends_def touch_group_def enqueue_offline_def)

lemma total_modify: "(\<And>s. has_pg (f s) = has_pg s) \<Longrightarrow> memory_total (modifyE f)"
  by (simp add: memory_total_def)

lemma total_bind: "memory_total m \<Longrightarrow> (\<And>a. memory_total (f a)) \<Longrightarrow> memory_total (bindE m f)"
  unfolding memory_total_def by (metis run_bindE_Inr)

lemma total_seq: "memory_total m \<Longrightarrow> memory_total n \<Longrightarrow> memory_total (seqE m n)"
  by (simp add: seqE_def total_bind)

lemma total_if: "(b \<Longrightarrow> memory_total m) \<Longrightarrow> (\<not> b \<Longrightarrow> memory_total n) \<Longrightarrow> memory_total (if b then m else n)"
  "(b \<Longrightarrow> memory_total u) \<Longrightarrow> memory_total (whenE b u)"
  by (simp_all add: whenE_def total_basic)

lemma total_case:
  "memory_total m \<Longrightarrow> (\<And>a. memory_total (n a)) \<Longrightarrow> memory_total (case x of None \<Rightarrow> m | Some a \<Rightarrow> n a)"
  "(\<And>a b. memory_total (f a b)) \<Longrightarrow> memory_total (case y of (a, b) \<Rightarrow> f a b)"
  by (cases x; cases y; simp)+

lemma total_for: "(\<And>x. memory_total (f x)) \<Longrightarrow> memory_total (forE xs f)"
  by (induction xs) (auto intro: total_basic total_seq)

lemma total_catch: "memory_total m \<Longrightarrow> memory_total (catch_all m)"
  by (fastforce simp: memory_total_def)

text \<open>A guard \<^verbatim>\<open>if (g_pg_persistence)\<close> takes its other branch.\<close>

lemma total_has_pg: "memory_total (m2 False) \<Longrightarrow> memory_total (bindE (getsE has_pg) m2)"
  by (simp add: memory_total_def)

lemma total_has_pg_pair: "(\<And>a. memory_total (m2 (a, False))) \<Longrightarrow> memory_total (bindE (getsE (\<lambda>s. (g s, has_pg s))) m2)"
  "(\<And>a. memory_total (m3 (False, a))) \<Longrightarrow> memory_total (bindE (getsE (\<lambda>s. (has_pg s, g s))) m3)"
  by (simp_all add: memory_total_def)

lemma total_stoi: "int_field kv k \<Longrightarrow> memory_total (stoi_kv kv k)"
  by (auto simp: memory_total_def int_field_def stoi_kv_def split: sum.splits)

lemmas total_rules = total_has_pg total_has_pg_pair total_basic total_bind total_seq total_if total_case total_for
  total_catch total_stoi

lemma total_parts:
  "memory_total (deliver ty p u v)" "memory_total (broadcast ty p u ids)" "memory_total (notify_friends_status_change e v onl)"
  "memory_total (save_users e)" "memory_total (allocate_user e a b d)" "memory_total (login_requests e v)" "memory_total (take_offline v)"
  "memory_total (deliver_requests fd reqs)" "memory_total (deliver_invites e fd v)" "memory_total (deliver_offline fd q)"
  "memory_total (merged_requests e v)" "memory_total (already_friends v w)" "memory_total (store_request_db e v w)"
  "memory_total (notify_request u v)" "memory_total (in_group e gid v)" "memory_total (notify_ids e gid)"
  "memory_total (allocate_group e nm v ids)" "memory_total (accept_invite e gid v)" "memory_total (remove_permitted e gid v w)"
  "memory_total (admin_permitted e gid v)" "memory_total (leave_memory gid v)" "memory_total (message_recipients e gid v)"
  "memory_total (remaining_ids e gid)"
  unfolding deliver_def broadcast_def notify_friends_status_change_def save_users_def allocate_user_def
    login_requests_def take_offline_def deliver_requests_def deliver_invites_def deliver_offline_def
    merged_requests_def already_friends_def store_request_db_def notify_request_def in_group_def notify_ids_def
    allocate_group_def accept_invite_def remove_permitted_def admin_permitted_def leave_memory_def
    message_recipients_def remaining_ids_def Let_def
  by (simp_all add: total_has_pg total_has_pg_pair total_basic total_bind total_seq total_if total_case
        total_for total_modify)

lemma total_announcements:
  "memory_total (system_broadcast e gid sys)" "memory_total (announce_added e gid uid cur)"
  "memory_total (announce_rename e gid nm cur)" "memory_total (announce_nickname e gid uid nm cur)"
  "memory_total (announce_removed e gid uid cur)" "memory_total (announce_admin e gid uid cur)"
  "memory_total (notify_removed e gid uid)" "memory_total (notify_joined e gid uid cur)" "memory_total (notify_invited gid uid cur)"
  "memory_total (user_groups e v)"
  unfolding system_broadcast_def announce_added_def announce_rename_def announce_nickname_def
    announce_removed_def announce_admin_def notify_removed_def notify_joined_def notify_invited_def
    user_groups_def
  by (simp_all add: total_has_pg total_has_pg_pair total_basic total_bind total_seq total_if total_case
        total_for total_catch total_parts)

lemma total_user_groups_items: "memory_total (user_groups_items e i gs)"
  by (induction gs arbitrary: i) (simp_all add: group_csvs_def total_has_pg total_basic total_bind)

lemmas total_all = total_has_pg total_has_pg_pair total_basic total_bind total_seq total_if total_case
  total_catch total_stoi total_modify total_parts total_announcements total_user_groups_items

lemma total_sessions:
  "memory_total (handle_HEARTBEAT fd cur)" "memory_total (handle_default fd cur)"
  "memory_total (handle_REGISTER e fd payload cur)" "memory_total (handle_LOGIN e fd payload cur)"
  "memory_total (handle_LOGOUT e fd cur)" "memory_total (handle_SEARCH_USER e fd payload req)"
  "memory_total (handle_GET_ALL_USERS e fd req)" "memory_total (handle_GET_FRIENDS_LIST e fd cur)"
  "memory_total (handle_GET_USER_GROUPS e fd req cur)"
  unfolding handle_HEARTBEAT_def handle_default_def handle_REGISTER_def handle_LOGIN_def
    handle_LOGOUT_def handle_SEARCH_USER_def handle_GET_ALL_USERS_def handle_GET_FRIENDS_LIST_def
    handle_GET_USER_GROUPS_def Let_def
  by (simp_all add: total_all del: code.simps)

lemma total_friends:
  "um_count (parse_kv payload) ''username'' \<or>
     (um_count (parse_kv payload) ''targetUserId'' \<longrightarrow> int_field (parse_kv payload) ''targetUserId'') \<Longrightarrow>
   memory_total (handle_FRIEND_REQUEST e fd payload cur)"
  "int_field (parse_kv payload) ''userId'' \<Longrightarrow> memory_total (handle_FRIEND_ACCEPT e fd payload cur)"
  "int_field (parse_kv payload) ''userId'' \<Longrightarrow> memory_total (handle_FRIEND_DECLINE e fd payload cur)"
  "int_field (parse_kv payload) ''userId'' \<Longrightarrow> memory_total (handle_UNFRIEND fd payload cur)"
proof -
  have sum: "memory_total (case x of Inl a \<Rightarrow> m a | Inr b \<Rightarrow> n b)"
    if "\<And>a. memory_total (m a)" "\<And>b. memory_total (n b)" for x :: "string + int" and m n :: "_ \<Rightarrow> ('a server, unit) M"
    using that by (cases x) simp_all
  show "memory_total (handle_FRIEND_REQUEST e fd payload cur)"
    if "um_count (parse_kv payload) ''username'' \<or>
     (um_count (parse_kv payload) ''targetUserId'' \<longrightarrow> int_field (parse_kv payload) ''targetUserId'')"
    using that unfolding handle_FRIEND_REQUEST_def request_target_def Let_def
    by (auto intro!: total_bind sum total_if total_case total_parts total_basic total_seq total_modify total_stoi)
qed (simp_all add: handle_FRIEND_ACCEPT_def handle_FRIEND_DECLINE_def handle_UNFRIEND_def Let_def total_all del: code.simps)

lemma total_messages:
  assumes "int_field (parse_kv payload) k"
  shows "k = ''recipientId'' \<Longrightarrow> memory_total (handle_DIRECT_MESSAGE e fd payload cur)"
    and "k = ''groupId'' \<Longrightarrow> (um_count (parse_kv payload) ''limit'' \<longrightarrow> int_field (parse_kv payload) ''limit'') \<Longrightarrow>
      memory_total (handle_GET_GROUP_HISTORY e fd payload cur)"
    and "k = ''otherUserId'' \<Longrightarrow> memory_total (handle_DELETE_CONVERSATION e fd payload cur)"
    and "k = ''groupId'' \<Longrightarrow> memory_total (handle_GROUP_MESSAGE e fd payload cur)"
  using assms unfolding handle_DIRECT_MESSAGE_def handle_GET_GROUP_HISTORY_def history_limit_def
    handle_DELETE_CONVERSATION_def handle_GROUP_MESSAGE_def Let_def
  by (simp_all add: total_all del: code.simps)

lemma total_groups:
  assumes "int_field (parse_kv payload) ''groupId''"
  shows "int_field (parse_kv payload) ''userId'' \<Longrightarrow> memory_total (handle_INVITE_TO_GROUP e fd payload cur)"
    and "memory_total (handle_ACCEPT_GROUP_INVITE e fd payload cur)"
    and "memory_total (handle_DECLINE_GROUP_INVITE e fd payload cur)"
    and "memory_total (handle_RENAME_GROUP e fd payload cur)"
    and "int_field (parse_kv payload) ''userId'' \<Longrightarrow> memory_total (handle_SET_GROUP_NICKNAME e fd payload cur)"
    and "int_field (parse_kv payload) ''userId'' \<Longrightarrow> memory_total (handle_REMOVE_FROM_GROUP e fd payload cur)"
    and "int_field (parse_kv payload) ''userId'' \<Longrightarrow> memory_total (handle_MAKE_ADMIN e fd payload cur)"
    and "memory_total (handle_LEAVE_GROUP e fd payload cur)"
  using assms unfolding handle_INVITE_TO_GROUP_def handle_ACCEPT_GROUP_INVITE_def
    handle_DECLINE_GROUP_INVITE_def handle_RENAME_GROUP_def handle_SET_GROUP_NICKNAME_def
    handle_REMOVE_FROM_GROUP_def handle_MAKE_ADMIN_def handle_LEAVE_GROUP_def Let_def
  by (simp_all add: total_all del: code.simps)

lemma total_lift: "memory_total (liftE (Inr x))"
  by (simp add: memory_total_def)

lemma total_create:
  "parse_members (parse_kv payload) = Inr ids \<Longrightarrow> memory_total (handle_CREATE_GROUP e fd payload cur)"
  unfolding handle_CREATE_GROUP_def Let_def by (simp add: total_all total_lift del: code.simps)

lemma total_flow:
  "memory_total m \<Longrightarrow> memory_total (stay cur m)" "memory_total m' \<Longrightarrow> memory_total (switch_user m')"
  by (simp_all add: stay_def switch_user_def total_seq total_bind total_basic)

text \<open>The other direction: a missing number stops the handler at its first line.\<close>

lemma stay_Inl: "fst (m s) = Inl ex \<Longrightarrow> fst (stay cur m s) = Inl ex"
  by (cases "m s") (simp add: stay_def)

definition throws :: "('db server, 'a) M \<Rightarrow> 'db server \<Rightarrow> bool" where
  "throws m s \<longleftrightarrow> (\<exists>ex. fst (m s) = Inl ex)"

lemma throws_stay: "throws m s \<Longrightarrow> throws (stay cur m) s"
  by (auto simp: throws_def dest: stay_Inl)

lemma int_field_cases: "\<not> int_field kv k \<longleftrightarrow> (\<exists>ex. stoi (kv_at kv k) = Inl ex)"
  by (auto simp: int_field_def split: sum.split)

lemma throws_one_field:
  assumes "\<not> int_field (parse_kv payload) k"
  shows "k = ''userId'' \<Longrightarrow> throws (handle_FRIEND_ACCEPT e fd payload cur) s"
    and "k = ''userId'' \<Longrightarrow> throws (handle_FRIEND_DECLINE e fd payload cur) s"
    and "k = ''userId'' \<Longrightarrow> throws (handle_UNFRIEND fd payload cur) s"
    and "k = ''recipientId'' \<Longrightarrow> throws (handle_DIRECT_MESSAGE e fd payload cur) s"
    and "k = ''otherUserId'' \<Longrightarrow> throws (handle_DELETE_CONVERSATION e fd payload cur) s"
    and "k = ''groupId'' \<Longrightarrow> throws (handle_ACCEPT_GROUP_INVITE e fd payload cur) s"
    and "k = ''groupId'' \<Longrightarrow> throws (handle_DECLINE_GROUP_INVITE e fd payload cur) s"
    and "k = ''groupId'' \<Longrightarrow> throws (handle_RENAME_GROUP e fd payload cur) s"
    and "k = ''groupId'' \<Longrightarrow> throws (handle_LEAVE_GROUP e fd payload cur) s"
    and "k = ''groupId'' \<Longrightarrow> throws (handle_GROUP_MESSAGE e fd payload cur) s"
  using assms
  by (auto simp: throws_def int_field_cases handle_FRIEND_ACCEPT_def handle_FRIEND_DECLINE_def
      handle_UNFRIEND_def handle_DIRECT_MESSAGE_def handle_DELETE_CONVERSATION_def
      handle_ACCEPT_GROUP_INVITE_def handle_DECLINE_GROUP_INVITE_def handle_RENAME_GROUP_def
      handle_LEAVE_GROUP_def handle_GROUP_MESSAGE_def Let_def)

lemma throws_two_fields:
  assumes "\<not> (int_field (parse_kv payload) ''groupId'' \<and> int_field (parse_kv payload) ''userId'')"
  shows "throws (handle_INVITE_TO_GROUP e fd payload cur) s"
    and "throws (handle_SET_GROUP_NICKNAME e fd payload cur) s"
    and "throws (handle_REMOVE_FROM_GROUP e fd payload cur) s"
    and "throws (handle_MAKE_ADMIN e fd payload cur) s"
  using assms
  by (auto simp: throws_def int_field_def handle_INVITE_TO_GROUP_def handle_SET_GROUP_NICKNAME_def
      handle_REMOVE_FROM_GROUP_def handle_MAKE_ADMIN_def Let_def split: sum.splits)

lemma throws_others:
  "\<not> has_pg s \<Longrightarrow> throws (handle_GET_CONVERSATION_HISTORY e fd payload cur) s"
  "\<not> (int_field (parse_kv payload) ''groupId'' \<and> (um_count (parse_kv payload) ''limit'' \<longrightarrow> int_field (parse_kv payload) ''limit'')) \<Longrightarrow>
   throws (handle_GET_GROUP_HISTORY e fd payload cur) s"
  "\<not> um_count (parse_kv payload) ''username'' \<Longrightarrow> um_count (parse_kv payload) ''targetUserId'' \<Longrightarrow>
   \<not> int_field (parse_kv payload) ''targetUserId'' \<Longrightarrow> throws (handle_FRIEND_REQUEST e fd payload cur) s"
  "parse_members (parse_kv payload) = Inl ex \<Longrightarrow> throws (handle_CREATE_GROUP e fd payload cur) s"
  by (auto simp: throws_def int_field_def handle_GET_CONVERSATION_HISTORY_def history_limit_def pg_call_def
      has_pg_def handle_GET_GROUP_HISTORY_def handle_FRIEND_REQUEST_def request_target_def
      handle_CREATE_GROUP_def stoi_kv_def bindE_def Let_def split: sum.splits)

text \<open>
  C19: without a database, exactly the requests that lack a number they need end in an uncaught
  exception, and the request for a conversation history always does (it uses the null database
  pointer). Everything else is served.
\<close>

theorem crashing_requests:
  assumes "\<not> has_pg s"
  shows "(\<exists>ex. fst (dispatch e fd h payload cur s) = Inl ex) \<longleftrightarrow> \<not> request_ok (h_type h) payload"
proof -
  let ?m = "dispatch e fd h payload cur"
  note tot = total_flow total_sessions total_friends total_messages [OF _ refl] total_groups total_seq total_basic
  note thr = throws_stay throws_one_field [OF _ refl] throws_two_fields throws_others(1) [OF assms] throws_others(2-)
  have "memory_total ?m" if "request_ok (h_type h) payload"
  proof (cases "type_of_code (h_type h)")
    case None
    then show ?thesis by (simp add: dispatch_def tot)
  next
    case (Some ty)
    with that show ?thesis
      by (cases ty) (simp_all add: dispatch_def request_ok_def Let_def total_create tot split: sum.splits)
  qed
  moreover have "throws ?m s" if "\<not> request_ok (h_type h) payload"
  proof (cases "type_of_code (h_type h)")
    case None
    with that show ?thesis by (simp add: request_ok_def)
  next
    case (Some ty)
    with that show ?thesis
      by (cases ty) (auto simp: dispatch_def request_ok_def Let_def intro!: thr split: sum.splits)
  qed
  ultimately show ?thesis
    using assms by (fastforce simp: memory_total_def throws_def)
qed

subsection \<open>The receive loop ends\<close>

text \<open>
  C21: whatever a client sends, the receive loop of its connection runs a bounded number of requests: every one
  takes a whole header from the input, so there are at most as many as headers fit into the bytes received.
\<close>

theorem serve_request_bound:
  assumes "serve es n fd k cur s = (Inr (n', cur'), s')"
  shows "n \<le> n' \<and> n' \<le> n + length (stream k) div HEADER_SIZE"
  using assms
proof (induction es n fd k cur s arbitrary: n' rule: serve.induct)
  case (1 es n fd k cur s)
  obtain f k' where f: "read_frame k = (f, k')" by (cases "read_frame k")
  show ?case
  proof (cases f)
    case F_closed
    with f "1.prems" show ?thesis by (simp add: serve.simps [of es n])
  next
    case (F_invalid h)
    with f "1.prems" show ?thesis by (simp add: serve.simps [of es n])
  next
    case (F_msg h payload)
    obtain go c t where run: "dispatch (es n) fd h payload cur s = (Inr (go, c), t)"
      using "1.prems" f F_msg by (subst (asm) serve.simps) (auto split: prod.splits sum.splits)
    have fits: "Suc (length (stream k') div HEADER_SIZE) \<le> length (stream k) div HEADER_SIZE"
      using div_le_mono [OF read_frame_consumes [of k h payload k'], of HEADER_SIZE] f F_msg
      by (simp add: HEADER_SIZE_def)
    show ?thesis
    proof (cases go)
      case True
      with "1.prems" f F_msg run have "serve es (Suc n) fd k' c t = (Inr (n', cur'), s')"
        by (subst (asm) serve.simps) simp
      from "1.IH" [OF f [symmetric] F_msg run [symmetric] refl refl True this] fits show ?thesis by linarith
    next
      case False
      with "1.prems" f F_msg run have "n' = Suc n" by (subst (asm) serve.simps) simp
      with fits show ?thesis by linarith
    qed
  qed
qed

subsection \<open>Instances\<close>

text \<open>The theorems on the sample server: their hypotheses hold there.\<close>

theorem every_request_answered_witness:
  "\<exists>r t. dispatch sample_env 4 (sent_header 0 0x7E [] 0) [] 1 sample_server = (Inr r, t) \<and>
    length (filter (\<lambda>x. s_fd x = 4) (outbox sample_server)) < length (filter (\<lambda>x. s_fd x = 4) (outbox t))"
proof -
  have none: "type_of_code 0x7E = None" by code_simp
  then obtain t where run: "dispatch sample_env 4 (sent_header 0 0x7E [] 0) [] 1 sample_server = (Inr (True, 1), t)"
    by (simp add: dispatch_def stay_def handle_default_def send_def)
  from every_request_answered [OF run] run show ?thesis by blast
qed

theorem crashing_requests_witness:
  "\<exists>ex. fst (dispatch sample_env 4 (sent_header 0 (code UNFRIEND) ''userId=x'' 0) ''userId=x'' 1 sample_server) = Inl ex"
proof -
  have "\<not> request_ok (h_type (sent_header 0 (code UNFRIEND) ''userId=x'' 0)) ''userId=x''" by code_simp
  then show ?thesis
    using crashing_requests [OF has_pg_sample(1), of sample_env 4 "sent_header 0 (code UNFRIEND) ''userId=x'' 0" "''userId=x''" 1]
    by simp
qed

definition sample_beats :: sock where
  "sample_beats = \<lparr>segs = [frame 0 (code HEARTBEAT) [] 0, frame 0 (code HEARTBEAT) [] 0 @ [7]], broken = False\<rparr>"

theorem serve_request_bound_witness:
  "\<exists>n' cur s. serve (\<lambda>n. sample_env) 0 4 sample_beats 0 sample_server = (Inr (n', cur), s) \<and>
    0 \<le> n' \<and> n' \<le> 0 + length (stream sample_beats) div HEADER_SIZE \<and> length (stream sample_beats) div HEADER_SIZE = 2"
proof -
  have "fst (serve (\<lambda>n. sample_env) 0 4 sample_beats 0 sample_server) = Inr (2, 0)" by code_simp
  then obtain s where run: "serve (\<lambda>n. sample_env) 0 4 sample_beats 0 sample_server = (Inr (2, 0), s)"
    by (metis prod.collapse)
  have "length (stream sample_beats) div HEADER_SIZE = 2" by code_simp
  with run serve_request_bound [OF run] show ?thesis by blast
qed

end
