(* ===== verification/Database_Properties.thy ===== *)
theory Database_Properties
  imports Delivery
begin

text \<open>
  The server with a database: transactions that fail leave the committed data alone, memory follows
  the database, strings are quoted so that they cannot leave their literal, and the order in which a
  history is returned. What is used of PostgreSQL and libpq is a hypothesis of each statement.
\<close>

subsection \<open>Quoting\<close>

text \<open>How SQL reads a string literal after its opening quote: the content and what follows.\<close>

fun sql_literal :: "string \<Rightarrow> (string \<times> string) option" where
  "sql_literal [] = None"
| "sql_literal [c] = (if c = CHR 0x27 then Some ([], []) else None)"
| "sql_literal (c # d # cs) =
     (if c = CHR 0x27 then
        if d = CHR 0x27 then map_option (\<lambda>(x, y). (CHR 0x27 # x, y)) (sql_literal cs)
        else Some ([], d # cs)
      else map_option (\<lambda>(x, y). (c # x, y)) (sql_literal (d # cs)))"

lemma sql_literal_plain:
  "c \<noteq> CHR 0x27 \<Longrightarrow> cs \<noteq> [] \<Longrightarrow> sql_literal (c # cs) = map_option (\<lambda>(x, y). (c # x, y)) (sql_literal cs)"
  by (cases cs) simp_all

lemma sql_literal_double_quotes:
  "(rest = [] \<or> hd rest \<noteq> CHR 0x27) \<Longrightarrow> sql_literal (double_quotes s @ CHR 0x27 # rest) = Some (s, rest)"
proof (induction s)
  case Nil
  then show ?case by (cases rest) auto
next
  case (Cons c cs)
  have "double_quotes cs @ CHR 0x27 # rest \<noteq> []" by simp
  with Cons show ?case by (auto simp: sql_literal_plain)
qed

lemma escape_string_double_quotes:
  "PQescape lib = double_quotes \<Longrightarrow>
   escape_string lib s = double_quotes (takeWhile (\<lambda>c. c \<noteq> CHR 0x00) s)"
  unfolding escape_string_def by (induction s) auto

text \<open>
  A string that goes into a query through \<^verbatim>\<open>escape_string\<close> cannot leave its literal: whatever
  characters it holds (no NUL), the database reads back exactly that string and continues after it.
\<close>

lemma quoted_string_stays_literal:
  assumes "PQescape lib = double_quotes" and "CHR 0x00 \<notin> set s" and "rest = [] \<or> hd rest \<noteq> CHR 0x27"
  shows "\<exists>body. quoted lib s @ rest = CHR 0x27 # body \<and> sql_literal body = Some (s, rest)"
proof -
  have "takeWhile (\<lambda>c. c \<noteq> CHR 0x00) s = s"
    using assms(2) by (auto simp: takeWhile_eq_all_conv)
  then have "escape_string lib s = double_quotes s"
    by (simp only: escape_string_double_quotes [OF assms(1)])
  then show ?thesis
    using sql_literal_double_quotes [OF assms(3), of s] by (simp add: quoted_def sq_def)
qed

subsection \<open>Single statements\<close>

text \<open>
  \<open>no_semicolon\<close>: outside its string literals a query holds no semicolon, so it is one statement. The
  queries of the server are, because the strings in them are quoted.
\<close>

fun no_semicolon :: "bool \<Rightarrow> string \<Rightarrow> bool" where
  "no_semicolon quote [] = True"
| "no_semicolon quote (c # cs) =
     (if c = CHR 0x27 then no_semicolon (\<not> quote) cs
      else (quote \<or> c \<noteq> CHR '';'') \<and> no_semicolon quote cs)"

definition data_statement :: "string \<Rightarrow> bool" where
  "data_statement q \<longleftrightarrow> (take 6 q = ''INSERT'' \<or> take 6 q = ''DELETE'') \<and> no_semicolon False q"

lemma no_semicolon_plain:
  "(\<forall>c\<in>set xs. c \<noteq> CHR 0x27 \<and> c \<noteq> CHR '';'') \<Longrightarrow> no_semicolon b (xs @ ys) = no_semicolon b ys"
  by (induction xs) auto

lemma no_semicolon_to_string [simp]:
  "no_semicolon b (to_string i @ ys) = no_semicolon b ys" "no_semicolon b (to_string i)"
proof -
  have "\<forall>c\<in>set (to_string i). c \<noteq> CHR 0x27 \<and> c \<noteq> CHR '';''"
    by (auto dest: to_string_chars simp: is_digit_def)
  from no_semicolon_plain [OF this] show "no_semicolon b (to_string i @ ys) = no_semicolon b ys"
    and "no_semicolon b (to_string i)"
    by (force dest: spec [where x = "[]"])+
qed

lemma no_semicolon_double_quotes: "no_semicolon True (double_quotes s @ ys) = no_semicolon True ys"
  by (induction s) auto

lemma no_semicolon_quoted:
  "PQescape lib = double_quotes \<Longrightarrow> no_semicolon False (quoted lib s @ ys) = no_semicolon False ys"
  by (simp add: quoted_def sq_def escape_string_double_quotes no_semicolon_double_quotes)

subsection \<open>Transactions\<close>

text \<open>
  The documented behaviour of a transaction block, for a committed view \<open>view\<close> and a session state
  \<open>in_txn\<close>: until \<^verbatim>\<open>COMMIT\<close> succeeds, nothing the inserts and deletions of a block do is visible. \<^verbatim>\<open>ROLLBACK\<close> drops
  it and ends the block, unless the connection is lost; a \<^verbatim>\<open>COMMIT\<close> that
  reports a failure has committed nothing. Strings are escaped by doubling their quotes.
\<close>

definition transactional :: "'db pg_lib \<Rightarrow> ('db \<Rightarrow> 'v) \<Rightarrow> ('db \<Rightarrow> bool) \<Rightarrow> bool" where
  "transactional lib view in_txn \<longleftrightarrow>
     (\<forall>d r d'. PQexec lib ''BEGIN'' d = (r, d') \<longrightarrow>
        view d' = view d \<and> (if r = Pg_fatal then in_txn d' \<longrightarrow> in_txn d else in_txn d')) \<and>
     PQescape lib = double_quotes \<and>
     (\<forall>q d r d'. PQexec lib q d = (r, d') \<longrightarrow> in_txn d \<longrightarrow> data_statement q \<longrightarrow>
        in_txn d' \<and> view d' = view d) \<and>
     (\<forall>d r d'. PQexec lib ''ROLLBACK'' d = (r, d') \<longrightarrow>
        view d' = view d \<and> (in_txn d' \<longrightarrow> \<not> PQstatus_ok lib d')) \<and>
     (\<forall>d d'. PQexec lib ''COMMIT'' d = (Pg_fatal, d') \<longrightarrow> view d' = view d)"

text \<open>\<open>in_block\<close>: a computation on a session inside a block stays in it and shows nothing outside.\<close>

definition in_block :: "('db \<Rightarrow> 'v) \<Rightarrow> ('db \<Rightarrow> bool) \<Rightarrow> ('db pg, 'a) M \<Rightarrow> bool" where
  "in_block view in_txn m \<longleftrightarrow>
     (\<forall>p r p'. m p = (r, p') \<longrightarrow> in_txn (pg_db p) \<longrightarrow> in_txn (pg_db p') \<and> view (pg_db p') = view (pg_db p))"

lemma in_block_execute:
  assumes "transactional lib view in_txn" and "data_statement q"
  shows "in_block view in_txn (pg_execute lib q)"
  using assms unfolding in_block_def transactional_def pg_execute_def
  by (auto split: if_splits prod.splits pg_result.splits)

lemma transactional_escape: "transactional lib view in_txn \<Longrightarrow> PQescape lib = double_quotes"
  by (simp add: transactional_def)

lemma in_block_ret: "in_block view in_txn (retE x)"
  by (simp add: in_block_def)

lemma in_block_bind:
  "in_block view in_txn m \<Longrightarrow> (\<And>a. in_block view in_txn (f a)) \<Longrightarrow> in_block view in_txn (bindE m f)"
  unfolding in_block_def by (fastforce simp: bindE_def split: prod.splits sum.splits)

lemma in_block_seq: "in_block view in_txn m \<Longrightarrow> in_block view in_txn n \<Longrightarrow> in_block view in_txn (seqE m n)"
  by (simp add: seqE_def in_block_bind)

lemma in_block_exec_then:
  assumes "transactional lib view in_txn" and "data_statement q" and "in_block view in_txn m"
  shows "in_block view in_txn (exec_then lib q m)"
  unfolding exec_then_def
  by (rule in_block_bind [OF in_block_execute [OF assms(1,2)]])
     (auto split: option.split intro: in_block_ret assms(3))

lemma in_block_log: "transactional lib view in_txn \<Longrightarrow> in_block view in_txn (pg_log_activity lib a b c d)"
  unfolding pg_log_activity_def
  by (rule in_block_exec_then)
     (simp_all add: in_block_ret data_statement_def no_semicolon_quoted [OF transactional_escape])


lemma in_block_add_member: "transactional lib view in_txn \<Longrightarrow> in_block view in_txn (pg_add_group_member lib g u)"
  unfolding pg_add_group_member_def
  by (intro in_block_exec_then in_block_seq in_block_log in_block_ret) (simp_all add: data_statement_def)

text \<open>A session that can still be used is outside of a block.\<close>

definition settled :: "'db pg_lib \<Rightarrow> ('db \<Rightarrow> bool) \<Rightarrow> 'db pg \<Rightarrow> bool" where
  "settled lib in_txn p \<longleftrightarrow> pg_is_connected lib p \<longrightarrow> \<not> in_txn (pg_db p)"

lemma rollback_settles:
  assumes "transactional lib view in_txn" and "rollback_fail lib (retE x) p = (r, p')"
  shows "view (pg_db p') = view (pg_db p) \<and> settled lib in_txn p'"
proof (cases "pg_is_connected lib p")
  case False
  with assms(2) have "p' = p" by (simp add: rollback_fail_def seqE_def bindE_def pg_execute_def)
  with False show ?thesis by (simp add: settled_def)
next
  case True
  obtain res d where d: "PQexec lib ''ROLLBACK'' (pg_db p) = (res, d)" by (cases "PQexec lib ''ROLLBACK'' (pg_db p)")
  with assms(1) have "view d = view (pg_db p)" "in_txn d \<longrightarrow> \<not> PQstatus_ok lib d" unfolding transactional_def by blast+
  moreover have "p' = p\<lparr>pg_db := d\<rparr>"
    using assms(2) True d by (cases res) (simp_all add: rollback_fail_def seqE_def bindE_def pg_execute_def)
  ultimately show ?thesis by (auto simp: settled_def pg_is_connected_def)
qed

lemma begin_view:
  assumes "transactional lib view in_txn" and "pg_execute lib ''BEGIN'' p = (Inr r, p')"
  shows "view (pg_db p') = view (pg_db p) \<and> (if r = None then in_txn (pg_db p') \<longrightarrow> in_txn (pg_db p) else in_txn (pg_db p'))"
proof -
  obtain res d where d: "PQexec lib ''BEGIN'' (pg_db p) = (res, d)" by (cases "PQexec lib ''BEGIN'' (pg_db p)")
  with assms(1) have "view d = view (pg_db p)" "if res = Pg_fatal then in_txn d \<longrightarrow> in_txn (pg_db p) else in_txn d"
    unfolding transactional_def by blast+
  with assms(2) d show ?thesis by (cases res) (auto simp: pg_execute_def split: if_splits)
qed

lemma commit_view:
  assumes "transactional lib view in_txn" and "pg_execute lib ''COMMIT'' p = (Inr None, p')"
  shows "view (pg_db p') = view (pg_db p)"
proof -
  obtain res d where d: "PQexec lib ''COMMIT'' (pg_db p) = (res, d)" by (cases "PQexec lib ''COMMIT'' (pg_db p)")
  with assms(1) have "res = Pg_fatal \<Longrightarrow> view d = view (pg_db p)" unfolding transactional_def by blast
  with assms(2) d show ?thesis by (cases res) (auto simp: pg_execute_def split: if_splits)
qed

lemma in_blockD:
  "in_block view in_txn m \<Longrightarrow> m p = (r, p') \<Longrightarrow> in_txn (pg_db p) \<Longrightarrow>
   in_txn (pg_db p') \<and> view (pg_db p') = view (pg_db p)"
  by (simp add: in_block_def)

text \<open>
  \<open>undone x m\<close>: when \<open>m\<close>, run inside a block, reports the failure \<open>x\<close>, nothing is committed and the block has ended.
\<close>

definition undone :: "'db pg_lib \<Rightarrow> ('db \<Rightarrow> 'v) \<Rightarrow> ('db \<Rightarrow> bool) \<Rightarrow> 'a \<Rightarrow> ('db pg, 'a) M \<Rightarrow> bool" where
  "undone lib view in_txn x m \<longleftrightarrow>
     (\<forall>p p'. m p = (Inr x, p') \<longrightarrow> in_txn (pg_db p) \<longrightarrow> view (pg_db p') = view (pg_db p) \<and> settled lib in_txn p')"

lemma undone_bind:
  assumes "in_block view in_txn m" and "\<And>a. undone lib view in_txn x (f a)"
  shows "undone lib view in_txn x (bindE m f)"
  using assms(2) unfolding undone_def bindE_Inr_iff by (metis in_blockD [OF assms(1)])

lemma undone_rollback: "transactional lib view in_txn \<Longrightarrow> undone lib view in_txn x (rollback_fail lib (retE x))"
  by (auto simp: undone_def dest: rollback_settles)

lemma undone_commit:
  assumes tr: "transactional lib view in_txn" and "\<And>a p p'. n a p \<noteq> (Inr x, p')"
  shows "undone lib view in_txn x (bindE (pg_execute lib ''COMMIT'')
    (\<lambda>c. case c of None \<Rightarrow> rollback_fail lib (retE x) | Some a \<Rightarrow> n a))"
  unfolding undone_def bindE_Inr_iff
  by (auto split: option.splits simp: assms(2) dest!: commit_view [OF tr] rollback_settles [OF tr])

lemma undone_begin:
  assumes tr: "transactional lib view in_txn"
    and "bindE (pg_execute lib ''BEGIN'') (\<lambda>r. case r of None \<Rightarrow> retE x | Some a \<Rightarrow> m a) p = (Inr x, p')"
    and "\<And>a. undone lib view in_txn x (m a)" and "\<not> in_txn (pg_db p)"
  shows "view (pg_db p') = view (pg_db p) \<and> settled lib in_txn p'"
  using assms(2-4) unfolding undone_def bindE_Inr_iff
  by (auto split: option.splits if_splits simp: settled_def dest!: begin_view [OF tr])


text \<open>
  When creating a group fails in the database, neither the group nor its first member is
  committed, and no block is left open.
\<close>

lemma failed_create_group_commits_nothing:
  assumes tr: "transactional lib view in_txn" and run: "pg_create_group lib name creator p = (Inr None, p')"
    and "\<not> in_txn (pg_db p)"
  shows "view (pg_db p') = view (pg_db p) \<and> settled lib in_txn p'"
proof -
  have ins: "in_block view in_txn (pg_execute lib
      (''INSERT INTO groups (name, creator_id) VALUES ('' @ quoted lib name @ '', '' @
       to_string creator @ '') RETURNING id''))"
    by (rule in_block_execute [OF tr])
       (simp add: data_statement_def no_semicolon_quoted [OF transactional_escape [OF tr]])
  have lift: "in_block view in_txn (liftE r)" for r :: "int res"
    by (simp add: in_block_def)
  show ?thesis
    by (rule undone_begin [OF tr run [unfolded pg_create_group_def] _ assms(3)])
       (auto intro!: undone_bind [OF ins [simplified]] undone_bind [OF lift] undone_bind [OF in_block_add_member [OF tr]]
          undone_rollback undone_commit tr simp: seqE_Inr_iff split: option.split)
qed

text \<open>
  The server's memory follows the database: when the database refuses the acceptance, the
  friendships and the pending requests in memory stay as they are and the client is told.
\<close>

lemma refused_accept_keeps_memory:
  assumes "g_pg_persistence s = Some p" and "stoi (kv_at (parse_kv payload) ''userId'') = Inr other"
    and "pg_accept_friend_request (pq e) other (int_of_u32 cur) p = (Inr False, p')"
  shows "handle_FRIEND_ACCEPT e fd payload cur s =
    (Inr (), s\<lparr>g_pg_persistence := Some p',
       outbox := outbox s @ [sent_msg fd (code ERROR) ''Failed to accept friend request'' cur]\<rparr>)"
  using assms by (simp add: handle_FRIEND_ACCEPT_def Let_def has_pg_def bind_pg_call)

subsection \<open>Histories\<close>

definition conversation_item :: "nat \<Rightarrow> message \<Rightarrow> kv_items" where
  "conversation_item i msg =
     [(indexed ''from'' i, to_string (m_from_user_id msg)), (indexed ''to'' i, to_string (m_to_user_id msg)),
      (indexed ''content'' i, m_content msg), (indexed ''timestamp'' i, to_string (m_timestamp msg))]"

lemma conversation_items_rev:
  "i + n = length ms \<Longrightarrow>
   conversation_items ms i n = concat (map (\<lambda>(j, m). conversation_item j m) (enumerate i (drop i (rev ms))))"
proof (induction n arbitrary: i)
  case 0
  then show ?case by simp
next
  case (Suc n)
  then have "drop i (rev ms) = rev ms ! i # drop (Suc i) (rev ms)"
    by (intro Cons_nth_drop_Suc [symmetric]) simp
  with Suc show ?case
    by (simp add: Let_def conversation_item_def rev_nth)
qed

text \<open>
  What the query of a history asks of the database: it answers with the newest rows first.
\<close>

definition history_query :: "int \<Rightarrow> int \<Rightarrow> int \<Rightarrow> string" where
  "history_query a b limit =
     ''SELECT id, from_user_id, to_user_id, content, timestamp, is_read FROM messages WHERE '' @
     conversation_where a b @ '' ORDER BY timestamp DESC LIMIT '' @ to_string limit"

definition answers_newest_first :: "'db pg_lib \<Rightarrow> bool" where
  "answers_newest_first lib \<longleftrightarrow>
     (\<forall>a b limit d rows d' ms. PQexec lib (history_query a b limit) d = (Pg_rows rows, d') \<longrightarrow>
        mapS message_of_row rows = Inr ms \<longrightarrow>
        sorted_wrt (\<ge>) (map m_timestamp ms))"

text \<open>
  C28: with a database, whatever limit the client asks for, the history of a conversation is sent newest first:
  the messages the database answers, each once and in the order of its answer. The database layer reverses them
  into chronological order, and the handler, which means to make them chronological, reverses them again.
\<close>

theorem history_newest_first:
  assumes "g_pg_persistence s = Some p" and "pg_is_connected (pq e) p" and "answers_newest_first (pq e)"
    and "stoi (kv_at (parse_kv payload) ''otherUserId'') = Inr other"
    and "history_limit (parse_kv payload) s = (Inr limit, s)"
    and "PQexec (pq e) (history_query (int_of_u32 cur) other limit) (pg_db p) = (Pg_rows rows, d)"
    and "mapS message_of_row rows = Inr ms"
  shows "\<exists>t. handle_GET_CONVERSATION_HISTORY e fd payload cur s = (Inr (), t) \<and>
    sorted_wrt (\<ge>) (map m_timestamp ms) \<and>
    outbox t = outbox s @ [sent_msg fd (code SUCCESS)
      (serialize_kv ((''count'', to_string (int (length ms))) #
        concat (map (\<lambda>(j, m). conversation_item j m) (enumerate 0 ms)))) cur]"
proof -
  have "pg_get_conversation (pq e) (int_of_u32 cur) other limit p = (Inr (rev ms), p\<lparr>pg_db := d\<rparr>)"
    using assms(2,6,7) by (simp add: pg_get_conversation_def exec_rows_def pg_execute_def bindE_def history_query_def)
  then have "\<exists>t. handle_GET_CONVERSATION_HISTORY e fd payload cur s = (Inr (), t) \<and>
    outbox t = outbox s @ [sent_msg fd (code SUCCESS)
      (serialize_kv ((''count'', to_string (int (length ms))) #
        concat (map (\<lambda>(j, m). conversation_item j m) (enumerate 0 ms)))) cur]"
    using assms(1,4,5) conversation_items_rev [of 0 "length ms" "rev ms"]
    by (simp add: handle_GET_CONVERSATION_HISTORY_def Let_def bind_pg_call bindE_def [of "history_limit _"])
  with assms(3,6,7) show ?thesis unfolding answers_newest_first_def by blast
qed

subsection \<open>Instances\<close>

text \<open>The theorems on the sample server: their hypotheses hold there.\<close>


lemma sample_pg_idle: "snd (pg_db sample_pg) = None" "pg_is_connected (sample_lib True fails answer) sample_pg"
  by (simp_all add: sample_pg_def sample_lib_def pg_is_connected_def)


abbreviation deny_members :: "sample_db pg_lib" where
  "deny_members \<equiv> sample_lib True (\<lambda>q. take 25 q = ''INSERT INTO group_members'') (\<lambda>_. [[Some ''9'']])"



text \<open>A database with two messages.\<close>

abbreviation two_messages :: "string \<Rightarrow> string option list list" where
  "two_messages \<equiv> \<lambda>q. [[Some ''2'', Some ''1'', Some ''2'', Some ''b'', Some ''20'', Some ''f''],
     [Some ''1'', Some ''2'', Some ''1'', Some ''a'', Some ''10'', Some ''f'']]"

lemma two_messages_decoded:
  "mapS message_of_row (two_messages q) =
     Inr [\<lparr>m_id = 2, m_from_user_id = 1, m_to_user_id = 2, m_content = ''b'', m_timestamp = 20, m_is_read = False\<rparr>,
          \<lparr>m_id = 1, m_from_user_id = 2, m_to_user_id = 1, m_content = ''a'', m_timestamp = 10, m_is_read = False\<rparr>]"
  by code_simp

lemma two_messages_order: "answers_newest_first (sample_lib True (\<lambda>_. False) two_messages)"
  using two_messages_decoded
  by (auto simp: answers_newest_first_def sample_lib_def sample_exec_def history_query_def split: prod.splits if_splits)

theorem history_newest_first_witness:
  "\<exists>t. handle_GET_CONVERSATION_HISTORY (sample_env_of (sample_lib True (\<lambda>_. False) two_messages)) 4
      ''otherUserId=2&limit=9'' 1 sample_db_server = (Inr (), t) \<and>
    outbox t = [sent_msg 4 (code SUCCESS)
      ''count=2&from0=1&to0=2&content0=b&timestamp0=20&from1=2&to1=1&content1=a&timestamp1=10'' 1]"
proof -
  let ?lib = "sample_lib True (\<lambda>_. False) two_messages" and ?m = "''otherUserId=2&limit=9''"
  let ?q = "history_query (int_of_u32 1) 2 9"
  have "stoi (kv_at (parse_kv ?m) ''otherUserId'') = Inr 2"
    "history_limit (parse_kv ?m) sample_db_server = (Inr 9, sample_db_server)"
    by (code_simp, simp add: history_limit_def stoi_kv_def, code_simp)
  moreover have "PQexec ?lib ?q (pg_db sample_pg) = (Pg_rows (two_messages ?q), ([?q], None))"
    by (simp add: sample_lib_def sample_exec_def sample_pg_def history_query_def)
  moreover have "g_pg_persistence sample_db_server = Some sample_pg" "outbox sample_db_server = []"
    by (simp_all add: sample_db_server_def sample_server_def)
  moreover have items: "serialize_kv ((''count'', to_string 2) # concat (map (\<lambda>(j, m). conversation_item j m) (enumerate 0
      [\<lparr>m_id = 2, m_from_user_id = 1, m_to_user_id = 2, m_content = ''b'', m_timestamp = 20, m_is_read = False\<rparr>,
       \<lparr>m_id = 1, m_from_user_id = 2, m_to_user_id = 1, m_content = ''a'', m_timestamp = 10, m_is_read = False\<rparr>]))) =
      ''count=2&from0=1&to0=2&content0=b&timestamp0=20&from1=2&to1=1&content1=a&timestamp1=10''"
    by code_simp
  ultimately show ?thesis
    using history_newest_first [where e = "sample_env_of ?lib" and fd = 4 and payload = ?m and rows = "two_messages ?q",
        OF _ _ _ _ _ _ two_messages_decoded] two_messages_order sample_pg_idle(2)
    by (fastforce simp: sample_env_of_def simp del: code.simps)
qed

end
