(* ===== verification/Activity_Log.thy ===== *)
theory Activity_Log
  imports File_Persistence
begin

text \<open>
  The text that \<^verbatim>\<open>logger.cpp\<close> writes for the entries of \<open>activity\<close>: one line of \<^verbatim>\<open>/tmp/chat_activity.log\<close> and one
  line of the console per entry. \<open>timestamp\<close> is the local time as \<^verbatim>\<open>strftime\<close> prints it.
\<close>

type_synonym log_entry = "string \<times> int \<times> string"

definition log_body :: "log_entry \<Rightarrow> string" where
  "log_body = (\<lambda>(action, userId, details).
     '' userId='' @ to_string userId @ '' action='' @ action @ (if details \<noteq> [] then '' details='' @ details else []))"

definition log_line :: "string \<Rightarrow> log_entry \<Rightarrow> string" where
  "log_line timestamp x = ''['' @ timestamp @ '']'' @ log_body x @ [newline]"

definition console_line :: "log_entry \<Rightarrow> string" where
  "console_line x = ''[LOG]'' @ log_body x @ [newline]"

text \<open>The file after the entries of \<open>activity\<close>, each with its time; nothing is written when it cannot be opened.\<close>

definition activity_log :: "bool \<Rightarrow> string list \<Rightarrow> log_entry list \<Rightarrow> string" where
  "activity_log opened timestamps entries = (if opened then concat (map2 log_line timestamps entries) else [])"

text \<open>
  Details are written as they are, so one that holds a line break is indistinguishable from two entries: a
  user can choose a name that forges entries of other users.
\<close>

lemma log_line_forged:
  assumes "d \<noteq> []"
  shows "\<exists>d'. log_line ts (a, u, d') = log_line ts (a, u, d) @ log_line ts' y"
proof -
  obtain line where line: "log_line ts' y = line @ [newline]" by (simp add: log_line_def)
  have "log_line ts (a, u, d @ newline # line) = log_line ts (a, u, d) @ log_line ts' y"
    using assms line by (simp add: log_line_def log_body_def)
  then show ?thesis by blast
qed

text \<open>Without line breaks the lines of the file are the entries.\<close>

lemma activity_log_lines:
  assumes "length timestamps = length entries" and "\<forall>x\<in>set entries. newline \<notin> set (log_body x)"
    and "\<forall>t\<in>set timestamps. newline \<notin> set t"
  shows "getlines newline (activity_log True timestamps entries) =
    map2 (\<lambda>t x. ''['' @ t @ '']'' @ log_body x) timestamps entries"
  using assms
proof (induction rule: list_induct2)
  case (Cons t ts x xs)
  let ?l = "''['' @ t @ '']'' @ log_body x"
  have "newline \<notin> set ?l" using Cons.prems by (auto simp: newline_def)
  from getlines_acc_delim [OF this, of "[]"]
  have "getlines newline (?l @ newline # s) = ?l # getlines newline s" for s
    by (simp add: getlines_def)
  with Cons show ?case by (simp add: activity_log_def log_line_def)
qed (simp add: activity_log_def)

end
