(* ===== verification/Client_Protocol.thy ===== *)
theory Client_Protocol
  imports Chat_Network
begin

text \<open>
  \<^verbatim>\<open>app/src/main/cpp/protocol_handler.cpp\<close>: the Android client's side of the wire protocol
  (\<open>createMessage\<close>, \<open>parseMessage\<close>, \<open>validateMessage\<close>) and its CRC-32 (\<open>calculateChecksum\<close>). The
  host is little-endian with a 64-bit \<^verbatim>\<open>size_t\<close>, as the ABIs the app ships for are. A read past the
  end of the input is a result of its own.
\<close>

unbundle bit_operations_syntax

subsection \<open>64-bit byte order\<close>

text \<open>\<open>le32 w\<close> and \<open>le64 w\<close>: the bytes of a word in memory; \<open>of_le32\<close>, \<open>of_le64\<close> the word that
  \<^verbatim>\<open>memcpy\<close> makes of them. \<open>bswap32\<close> is \<^verbatim>\<open>htonl\<close> and \<^verbatim>\<open>ntohl\<close>.\<close>

definition le32 :: "u32 \<Rightarrow> byte list" where "le32 w = rev (be32 w)"

definition of_le32 :: "byte list \<Rightarrow> u32" where "of_le32 bs = of_be32 (rev (take 4 bs))"

definition bswap32 :: "u32 \<Rightarrow> u32" where "bswap32 w = of_le32 (be32 w)"

definition le64 :: "u64 \<Rightarrow> byte list" where
  "le64 w = le32 (ucast (w AND 0xFFFFFFFF)) @ le32 (ucast (drop_bit 32 w))"

definition of_le64 :: "byte list \<Rightarrow> u64" where
  "of_le64 bs = push_bit 32 (ucast (of_le32 (drop 4 bs))) OR ucast (of_le32 (take 4 bs))"

definition htonll :: "u64 \<Rightarrow> u64" where
  "htonll value =
     (let high = bswap32 (ucast (drop_bit 32 value));
          low = bswap32 (ucast (value AND 0xFFFFFFFF))
      in push_bit 32 (ucast low) OR ucast high)"

definition ntohll :: "u64 \<Rightarrow> u64" where
  "ntohll value =
     (let high = bswap32 (ucast (drop_bit 32 value));
          low = bswap32 (ucast (value AND 0xFFFFFFFF))
      in push_bit 32 (ucast high) OR ucast low)"

subsection \<open>createMessage and parseMessage\<close>

definition PROTOCOL_MAGIC :: u32 where "PROTOCOL_MAGIC = 0x43484154"
definition PROTOCOL_VERSION :: u8 where "PROTOCOL_VERSION = 1"

text \<open>The message types of the client; each is the type of the same name of the server.\<close>

datatype client_type =
    C_REGISTER | C_LOGIN | C_LOGOUT | C_SEARCH_USER | C_GET_ALL_USERS
  | C_FRIEND_REQUEST | C_FRIEND_ACCEPT | C_FRIEND_DECLINE | C_UNFRIEND | C_GET_FRIENDS_LIST
  | C_DIRECT_MESSAGE | C_MESSAGE_RECEIVED | C_TYPING_STATUS
  | C_CREATE_GROUP | C_INVITE_TO_GROUP | C_REMOVE_FROM_GROUP | C_LEAVE_GROUP | C_GROUP_MESSAGE
  | C_USER_ONLINE | C_USER_OFFLINE | C_SUCCESS | C_ERROR | C_HEARTBEAT

primrec client_code :: "client_type \<Rightarrow> u8" where
  "client_code C_REGISTER = 0x01"
| "client_code C_LOGIN = 0x02"
| "client_code C_LOGOUT = 0x03"
| "client_code C_SEARCH_USER = 0x04"
| "client_code C_GET_ALL_USERS = 0x05"
| "client_code C_FRIEND_REQUEST = 0x10"
| "client_code C_FRIEND_ACCEPT = 0x11"
| "client_code C_FRIEND_DECLINE = 0x12"
| "client_code C_UNFRIEND = 0x13"
| "client_code C_GET_FRIENDS_LIST = 0x14"
| "client_code C_DIRECT_MESSAGE = 0x20"
| "client_code C_MESSAGE_RECEIVED = 0x21"
| "client_code C_TYPING_STATUS = 0x22"
| "client_code C_CREATE_GROUP = 0x30"
| "client_code C_INVITE_TO_GROUP = 0x31"
| "client_code C_REMOVE_FROM_GROUP = 0x32"
| "client_code C_LEAVE_GROUP = 0x33"
| "client_code C_GROUP_MESSAGE = 0x34"
| "client_code C_USER_ONLINE = 0x40"
| "client_code C_USER_OFFLINE = 0x41"
| "client_code C_SUCCESS = 0xF0"
| "client_code C_ERROR = 0xF1"
| "client_code C_HEARTBEAT = 0xFF"

primrec server_type :: "client_type \<Rightarrow> MessageType" where
  "server_type C_REGISTER = REGISTER"
| "server_type C_LOGIN = LOGIN"
| "server_type C_LOGOUT = LOGOUT"
| "server_type C_SEARCH_USER = SEARCH_USER"
| "server_type C_GET_ALL_USERS = GET_ALL_USERS"
| "server_type C_FRIEND_REQUEST = FRIEND_REQUEST"
| "server_type C_FRIEND_ACCEPT = FRIEND_ACCEPT"
| "server_type C_FRIEND_DECLINE = FRIEND_DECLINE"
| "server_type C_UNFRIEND = UNFRIEND"
| "server_type C_GET_FRIENDS_LIST = GET_FRIENDS_LIST"
| "server_type C_DIRECT_MESSAGE = DIRECT_MESSAGE"
| "server_type C_MESSAGE_RECEIVED = MESSAGE_RECEIVED"
| "server_type C_TYPING_STATUS = TYPING_STATUS"
| "server_type C_CREATE_GROUP = CREATE_GROUP"
| "server_type C_INVITE_TO_GROUP = INVITE_TO_GROUP"
| "server_type C_REMOVE_FROM_GROUP = REMOVE_FROM_GROUP"
| "server_type C_LEAVE_GROUP = LEAVE_GROUP"
| "server_type C_GROUP_MESSAGE = GROUP_MESSAGE"
| "server_type C_USER_ONLINE = USER_ONLINE"
| "server_type C_USER_OFFLINE = USER_OFFLINE"
| "server_type C_SUCCESS = SUCCESS"
| "server_type C_ERROR = ERROR"
| "server_type C_HEARTBEAT = HEARTBEAT"

lemma client_codes_agree: "type_of_code (client_code t) = Some (server_type t)"
proof -
  have "client_code t = code (server_type t)" by (cases t) simp_all
  then show ?thesis by (simp del: code.simps)
qed

text \<open>\<open>now\<close> is \<^verbatim>\<open>time(nullptr)\<close>.\<close>

definition createMessage :: "u64 \<Rightarrow> u8 \<Rightarrow> string \<Rightarrow> u32 \<Rightarrow> byte list" where
  "createMessage now ty payload userId =
     (let message = replicate (32 + length payload) 0;
          message = memcpy_at 0 (le32 (bswap32 PROTOCOL_MAGIC)) message;
          message = memcpy_at 4 [PROTOCOL_VERSION] message;
          message = memcpy_at 5 [ty] message;
          message = memcpy_at 6 (le32 (bswap32 (word_of_nat (length payload)))) message;
          message = memcpy_at 10 (le64 (htonll now)) message;
          message = memcpy_at 18 (le32 (bswap32 userId)) message;
          message = memcpy_at 22 (le32 0) message;
          message = (if payload \<noteq> [] then memcpy_at 32 (bytes_of payload) message else message)
      in message)"

datatype parsed = P_false | P_over_read | P_true header string

text \<open>
  \<^verbatim>\<open>length < 32 + payload_length\<close> is computed in 32 bits, as both operands are; the copy of the payload
  then reads \<open>payload_length\<close> bytes.
\<close>

definition parseMessage :: "byte list \<Rightarrow> parsed" where
  "parseMessage data =
     (if length data < 32 then P_false
      else
        let magic = bswap32 (of_le32 (slice 0 4 data));
            version = data ! 4;
            msg_type = data ! 5;
            payload_length = bswap32 (of_le32 (slice 6 4 data));
            timestamp = ntohll (of_le64 (slice 10 8 data));
            user_id = bswap32 (of_le32 (slice 18 4 data));
            checksum = bswap32 (of_le32 (slice 22 4 data))
        in if magic \<noteq> PROTOCOL_MAGIC then P_false
           else if version \<noteq> PROTOCOL_VERSION then P_false
           else if length data < unat (32 + payload_length) then P_false
           else if length data < 32 + unat payload_length then P_over_read
           else P_true \<lparr>h_magic = magic, h_version = version, h_type = msg_type, h_length = payload_length,
                        h_ts = timestamp, h_userId = user_id, h_checksum = checksum\<rparr>
                  (string_of (slice 32 (unat payload_length) data)))"

definition validateMessage :: "byte list \<Rightarrow> bool" where
  "validateMessage data = (case parseMessage data of P_true h p \<Rightarrow> True | _ \<Rightarrow> False)"

subsection \<open>CRC-32\<close>

definition crcTable :: "u32 list" where
  "crcTable = [
    0x00000000, 0x77073096, 0xEE0E612C, 0x990951BA, 0x076DC419, 0x706AF48F, 0xE963A535, 0x9E6495A3,
    0x0EDB8832, 0x79DCB8A4, 0xE0D5E91E, 0x97D2D988, 0x09B64C2B, 0x7EB17CBD, 0xE7B82D07, 0x90BF1D91,
    0x1DB71064, 0x6AB020F2, 0xF3B97148, 0x84BE41DE, 0x1ADAD47D, 0x6DDDE4EB, 0xF4D4B551, 0x83D385C7,
    0x136C9856, 0x646BA8C0, 0xFD62F97A, 0x8A65C9EC, 0x14015C4F, 0x63066CD9, 0xFA0F3D63, 0x8D080DF5,
    0x3B6E20C8, 0x4C69105E, 0xD56041E4, 0xA2677172, 0x3C03E4D1, 0x4B04D447, 0xD20D85FD, 0xA50AB56B,
    0x35B5A8FA, 0x42B2986C, 0xDBBBC9D6, 0xACBCF940, 0x32D86CE3, 0x45DF5C75, 0xDCD60DCF, 0xABD13D59,
    0x26D930AC, 0x51DE003A, 0xC8D75180, 0xBFD06116, 0x21B4F4B5, 0x56B3C423, 0xCFBA9599, 0xB8BDA50F,
    0x2802B89E, 0x5F058808, 0xC60CD9B2, 0xB10BE924, 0x2F6F7C87, 0x58684C11, 0xC1611DAB, 0xB6662D3D,
    0x76DC4190, 0x01DB7106, 0x98D220BC, 0xEFD5102A, 0x71B18589, 0x06B6B51F, 0x9FBFE4A5, 0xE8B8D433,
    0x7807C9A2, 0x0F00F934, 0x9609A88E, 0xE10E9818, 0x7F6A0DBB, 0x086D3D2D, 0x91646C97, 0xE6635C01,
    0x6B6B51F4, 0x1C6C6162, 0x856530D8, 0xF262004E, 0x6C0695ED, 0x1B01A57B, 0x8208F4C1, 0xF50FC457,
    0x65B0D9C6, 0x12B7E950, 0x8BBEB8EA, 0xFCB9887C, 0x62DD1DDF, 0x15DA2D49, 0x8CD37CF3, 0xFBD44C65,
    0x4DB26158, 0x3AB551CE, 0xA3BC0074, 0xD4BB30E2, 0x4ADFA541, 0x3DD895D7, 0xA4D1C46D, 0xD3D6F4FB,
    0x4369E96A, 0x346ED9FC, 0xAD678846, 0xDA60B8D0, 0x44042D73, 0x33031DE5, 0xAA0A4C5F, 0xDD0D7CC9,
    0x5005713C, 0x270241AA, 0xBE0B1010, 0xC90C2086, 0x5768B525, 0x206F85B3, 0xB966D409, 0xCE61E49F,
    0x5EDEF90E, 0x29D9C998, 0xB0D09822, 0xC7D7A8B4, 0x59B33D17, 0x2EB40D81, 0xB7BD5C3B, 0xC0BA6CAD,
    0xEDB88320, 0x9ABFB3B6, 0x03B6E20C, 0x74B1D29A, 0xEAD54739, 0x9DD277AF, 0x04DB2615, 0x73DC1683,
    0xE3630B12, 0x94643B84, 0x0D6D6A3E, 0x7A6A5AA8, 0xE40ECF0B, 0x9309FF9D, 0x0A00AE27, 0x7D079EB1,
    0xF00F9344, 0x8708A3D2, 0x1E01F268, 0x6906C2FE, 0xF762575D, 0x806567CB, 0x196C3671, 0x6E6B06E7,
    0xFED41B76, 0x89D32BE0, 0x10DA7A5A, 0x67DD4ACC, 0xF9B9DF6F, 0x8EBEEFF9, 0x17B7BE43, 0x60B08ED5,
    0xD6D6A3E8, 0xA1D1937E, 0x38D8C2C4, 0x4FDFF252, 0xD1BB67F1, 0xA6BC5767, 0x3FB506DD, 0x48B2364B,
    0xD80D2BDA, 0xAF0A1B4C, 0x36034AF6, 0x41047A60, 0xDF60EFC3, 0xA867DF55, 0x316E8EEF, 0x4669BE79,
    0xCB61B38C, 0xBC66831A, 0x256FD2A0, 0x5268E236, 0xCC0C7795, 0xBB0B4703, 0x220216B9, 0x5505262F,
    0xC5BA3BBE, 0xB2BD0B28, 0x2BB45A92, 0x5CB36A04, 0xC2D7FFA7, 0xB5D0CF31, 0x2CD99E8B, 0x5BDEAE1D,
    0x9B64C2B0, 0xEC63F226, 0x756AA39C, 0x026D930A, 0x9C0906A9, 0xEB0E363F, 0x72076785, 0x05005713,
    0x95BF4A82, 0xE2B87A14, 0x7BB12BAE, 0x0CB61B38, 0x92D28E9B, 0xE5D5BE0D, 0x7CDCEFB7, 0x0BDBDF21,
    0x86D3D2D4, 0xF1D4E242, 0x68DDB3F8, 0x1FDA836E, 0x81BE16CD, 0xF6B9265B, 0x6FB077E1, 0x18B74777,
    0x88085AE6, 0xFF0F6A70, 0x66063BCA, 0x11010B5C, 0x8F659EFF, 0xF862AE69, 0x616BFFD3, 0x166CCF45,
    0xA00AE278, 0xD70DD2EE, 0x4E048354, 0x3903B3C2, 0xA7672661, 0xD06016F7, 0x4969474D, 0x3E6E77DB,
    0xAED16A4A, 0xD9D65ADC, 0x40DF0B66, 0x37D83BF0, 0xA9BCAE53, 0xDEBB9EC5, 0x47B2CF7F, 0x30B5FFE9,
    0xBDBDF21C, 0xCABAC28A, 0x53B39330, 0x24B4A3A6, 0xBAD03605, 0xCDD70693, 0x54DE5729, 0x23D967BF,
    0xB3667A2E, 0xC4614AB8, 0x5D681B02, 0x2A6F2B94, 0xB40BBE37, 0xC30C8EA1, 0x5A05DF1B, 0x2D02EF8D]"

fun crc_loop :: "byte list \<Rightarrow> u32 \<Rightarrow> u32" where
  "crc_loop [] crc = crc"
| "crc_loop (b # bs) crc =
     crc_loop bs (drop_bit 8 crc XOR crcTable ! unat ((crc XOR ucast b) AND 0xFF))"

definition calculateChecksum :: "byte list \<Rightarrow> u32" where
  "calculateChecksum data = crc_loop data 0xFFFFFFFF XOR 0xFFFFFFFF"

subsection \<open>Byte order lemmas\<close>

lemma length_le32 [simp]: "length (le32 w) = 4"
  by (simp add: le32_def)

lemma of_le32_le32 [simp]: "of_le32 (le32 w) = w"
  by (simp add: of_le32_def le32_def)

lemma of_le32_prefix [simp]: "of_le32 (le32 w @ bs) = w"
  by (simp add: of_le32_def le32_def)

lemma be32_of_be32: "length bs = 4 \<Longrightarrow> be32 (of_be32 bs) = bs"
proof -
  assume "length bs = 4"
  then obtain a b c d where bs: "bs = [a, b, c, d]"
    by (auto simp: length_Suc_conv numeral_eq_Suc)
  have "ucast (drop_bit 24 (of_be32 bs)) = a" "ucast (drop_bit 16 (of_be32 bs)) = b"
    "ucast (drop_bit 8 (of_be32 bs)) = c" "ucast (of_be32 bs) = d"
    by (auto intro!: bit_word_eqI simp: bs of_be32_def bit_simps) (auto dest!: bit_imp_le_length)
  then show ?thesis by (simp add: be32_def bs)
qed

lemma le32_bswap32 [simp]: "le32 (bswap32 w) = be32 w"
proof -
  have "be32 (of_be32 (rev (take 4 (be32 w)))) = rev (take 4 (be32 w))"
    by (rule be32_of_be32) simp
  then show ?thesis by (simp add: le32_def bswap32_def of_le32_def)
qed

lemma bswap32_of_le32: "length bs = 4 \<Longrightarrow> bswap32 (of_le32 bs) = of_be32 bs"
  by (simp add: bswap32_def of_le32_def be32_of_be32)

lemma bswap32_bswap32 [simp]: "bswap32 (bswap32 w) = w"
  by (metis bswap32_def bswap32_of_le32 length_be32 of_be32_be32)

text \<open>The two halves of a 64-bit word that was put together from halves.\<close>

lemma halves:
  fixes h l :: u32
  shows "ucast (drop_bit 32 (push_bit 32 (ucast h) OR ucast l :: u64)) = h"
    and "ucast ((push_bit 32 (ucast h) OR ucast l :: u64) AND 0xFFFFFFFF) = l"
proof -
  have mask: "(0xFFFFFFFF :: u64) = mask 32" by (simp add: mask_eq_decr_exp)
  show "ucast (drop_bit 32 (push_bit 32 (ucast h) OR ucast l :: u64)) = h"
    by (rule bit_word_eqI) (auto simp: bit_simps dest: bit_imp_le_length)
  show "ucast ((push_bit 32 (ucast h) OR ucast l :: u64) AND 0xFFFFFFFF) = l"
    by (rule bit_word_eqI) (auto simp: bit_simps mask)
qed

text \<open>The timestamp goes out big-endian.\<close>

lemma le64_htonll:
  "le64 (htonll ts) = be32 (ucast (drop_bit 32 ts)) @ be32 (ucast (ts AND 0xFFFFFFFF))"
  by (simp only: le64_def htonll_def Let_def halves le32_bswap32)

subsection \<open>Agreement with the server\<close>

lemma createMessage_layout:
  "createMessage now ty payload userId =
     be32 PROTOCOL_MAGIC @ [PROTOCOL_VERSION, ty] @ be32 (word_of_nat (length payload)) @
     be32 (ucast (drop_bit 32 now)) @ be32 (ucast (now AND 0xFFFFFFFF)) @ be32 userId @ be32 0 @
     replicate 6 0 @ bytes_of payload"
proof -
  let ?pre = "((((((be32 PROTOCOL_MAGIC @ [PROTOCOL_VERSION]) @ [ty]) @ be32 (word_of_nat (length payload))) @
     be32 (ucast (drop_bit 32 now)) @ be32 (ucast (now AND 0xFFFFFFFF))) @ be32 userId) @ be32 0)"
  have zero: "le32 0 = be32 0" by (simp add: le32_def be32_def)
  have pre: "memcpy_at 22 (le32 0) (memcpy_at 18 (le32 (bswap32 userId)) (memcpy_at 10 (le64 (htonll now))
      (memcpy_at 6 (le32 (bswap32 (word_of_nat (length payload)))) (memcpy_at 5 [ty]
      (memcpy_at 4 [PROTOCOL_VERSION] (memcpy_at 0 (le32 (bswap32 PROTOCOL_MAGIC))
        (replicate (32 + length payload) 0))))))) = ?pre @ replicate (6 + length payload) 0"
    by (simp add: memcpy_at_zeros le64_htonll zero del: append_assoc replicate_add replicate.simps)
  have "createMessage now ty payload userId =
      (if payload \<noteq> [] then memcpy_at 32 (bytes_of payload) (?pre @ replicate (6 + length payload) 0)
       else ?pre @ replicate (6 + length payload) 0)"
    unfolding createMessage_def Let_def pre by (rule refl)
  also have "\<dots> = ?pre @ replicate 6 0 @ bytes_of payload"
    by (simp add: memcpy_at_def replicate_add)
  finally show ?thesis by simp
qed

lemma createMessage_frame: "createMessage now ty payload userId = frame now ty payload userId"
  by (simp add: createMessage_layout frame_def write_header_layout PROTOCOL_MAGIC_def MAGIC_def
      PROTOCOL_VERSION_def VERSION_def)

lemma slice_mid: "length pre = off \<Longrightarrow> length bs = n \<Longrightarrow> slice off n (pre @ bs @ post) = bs"
  by (simp add: slice_def)

lemma frame_slices:
  "length (frame ts ty payload userId) = 32 + length payload"
  "slice 0 4 (frame ts ty payload userId) = be32 MAGIC"
  "frame ts ty payload userId ! 4 = VERSION" "frame ts ty payload userId ! 5 = ty"
  "slice 6 4 (frame ts ty payload userId) = be32 (word_of_nat (length payload))"
  "slice 10 8 (frame ts ty payload userId) = be32 (ucast (drop_bit 32 ts)) @ be32 (ucast (ts AND 0xFFFFFFFF))"
  "slice 18 4 (frame ts ty payload userId) = be32 userId"
  "slice 22 4 (frame ts ty payload userId) = be32 0"
  "slice 32 n (frame ts ty payload userId) = take n (bytes_of payload)"
  by (simp_all add: frame_def write_header_layout slice_def nth_append)

definition swap_halves :: "u64 \<Rightarrow> u64" where
  "swap_halves w = push_bit 32 w OR drop_bit 32 w"

lemma ntohll_wire:
  "ntohll (of_le64 (be32 (ucast (drop_bit 32 ts)) @ be32 (ucast (ts AND 0xFFFFFFFF)))) = swap_halves ts"
proof -
  have mask: "(0xFFFFFFFF :: u64) = mask 32" by (simp add: mask_eq_decr_exp)
  have "bswap32 (of_le32 (be32 w)) = w" for w by (simp add: bswap32_of_le32)
  then have "ntohll (of_le64 (be32 (ucast (drop_bit 32 ts)) @ be32 (ucast (ts AND 0xFFFFFFFF)))) =
      push_bit 32 (ucast (ucast (ts AND 0xFFFFFFFF) :: u32)) OR ucast (ucast (drop_bit 32 ts) :: u32)"
    by (simp add: ntohll_def of_le64_def Let_def halves del: drop_bit_or bit.conj_disj_distribs)
  also have "\<dots> = swap_halves ts"
    by (rule bit_word_eqI) (auto simp: swap_halves_def bit_simps mask dest: bit_imp_le_length)
  finally show ?thesis .
qed

lemma parse_frame:
  assumes "length payload < 2 ^ 32 - 32"
  shows "parseMessage (frame ts ty payload userId) =
    P_true \<lparr>h_magic = MAGIC, h_version = VERSION, h_type = ty, h_length = word_of_nat (length payload),
            h_ts = swap_halves ts, h_userId = userId, h_checksum = 0\<rparr> payload"
proof -
  have u: "unat (word_of_nat (length payload) :: u32) = length payload"
    using assms by (simp add: unat_of_nat)
  have "unat (32 + word_of_nat (length payload) :: u32) = 32 + length payload"
    using assms by (simp add: unat_word_ariths unat_of_nat)
  then show ?thesis
    by (simp add: parseMessage_def frame_slices Let_def bswap32_of_le32 ntohll_wire u
        PROTOCOL_MAGIC_def MAGIC_def PROTOCOL_VERSION_def VERSION_def)
qed

text \<open>
  C29: the client parses every frame of the server and gets back its type, its sender and its payload.
  The timestamp it gets has its two 32-bit halves exchanged.
\<close>

theorem client_parses_server_frames:
  assumes "length payload < 2 ^ 32 - 32"
  shows "\<exists>h. parseMessage (frame ts ty payload userId) = P_true h payload \<and>
    h_type h = ty \<and> h_userId h = userId \<and> h_length h = word_of_nat (length payload) \<and>
    h_ts h = swap_halves ts"
  using parse_frame [OF assms] by simp

text \<open>
  C40: a header that announces a payload of at least \<open>2 ^ 32 - 32\<close> bytes passes the length check,
  because the check is computed in 32 bits: the parser then reads past the end of a 32-byte input.
\<close>

theorem length_check_wraps:
  assumes "2 ^ 32 - 32 \<le> n" and "n < 2 ^ 32"
  shows "parseMessage (write_header ts ty (word_of_nat n) userId) = P_over_read"
proof -
  have u: "unat (word_of_nat n :: u32) = n" using assms(2) by (simp add: unat_of_nat)
  have "unat (32 + word_of_nat n :: u32) = (32 + n) mod 2 ^ 32"
    using assms(2) by (simp add: unat_word_ariths unat_of_nat)
  also have "\<dots> = n - (2 ^ 32 - 32)"
    using assms by (subst le_mod_geq) auto
  finally have w: "unat (32 + word_of_nat n :: u32) = n - (2 ^ 32 - 32)" .
  have sl: "slice 0 4 (write_header ts ty (word_of_nat n) userId) = be32 MAGIC"
    "write_header ts ty (word_of_nat n) userId ! 4 = VERSION"
    "slice 6 4 (write_header ts ty (word_of_nat n) userId) = be32 (word_of_nat n)"
    by (simp_all add: write_header_layout slice_def nth_append)
  show ?thesis
    using assms
    by (simp add: parseMessage_def Let_def sl bswap32_of_le32 w u HEADER_SIZE_def PROTOCOL_MAGIC_def MAGIC_def
        PROTOCOL_VERSION_def VERSION_def)
qed

subsection \<open>The table-driven checksum is CRC-32\<close>

text \<open>The definition of CRC-32, bit by bit: the reflected polynomial \<^verbatim>\<open>0xEDB88320\<close>.\<close>

definition crc_bit :: "u32 \<Rightarrow> u32" where
  "crc_bit x = (if bit x 0 then drop_bit 1 x XOR 0xEDB88320 else drop_bit 1 x)"

definition crc32_spec :: "byte list \<Rightarrow> u32" where
  "crc32_spec data = fold (\<lambda>b crc. (crc_bit ^^ 8) (crc XOR ucast b)) data 0xFFFFFFFF XOR 0xFFFFFFFF"

lemma crc_bit_xor: "crc_bit (x XOR y) = crc_bit x XOR crc_bit y"
  by (simp add: crc_bit_def bit_xor_iff xor.left_commute xor.commute xor.assoc)

lemma crc_bits_xor: "(crc_bit ^^ n) (x XOR y) = (crc_bit ^^ n) x XOR (crc_bit ^^ n) y"
  by (induction n) (simp_all add: crc_bit_xor)

lemma crc_bits_zeros: "take_bit n x = 0 \<Longrightarrow> (crc_bit ^^ n) x = drop_bit n x"
proof (induction n arbitrary: x)
  case 0
  then show ?case by simp
next
  case (Suc n)
  have x: "\<not> bit x i" if "i < Suc n" for i
    using Suc.prems that by (metis bit_take_bit_iff bit_0_eq bot_apply bot_bool_def)
  then have "crc_bit x = drop_bit 1 x" by (simp add: crc_bit_def)
  moreover have "take_bit n (drop_bit 1 x) = 0"
    using x by (intro bit_word_eqI) (auto simp: bit_simps)
  ultimately show ?case
    using Suc.IH [of "drop_bit 1 x"] by (simp add: funpow_Suc_right drop_bit_drop_bit del: funpow.simps)
qed

text \<open>The 256 entries, checked one by one.\<close>

definition crc_byte :: "u32 \<Rightarrow> u32" where
  "crc_byte x = crc_bit (crc_bit (crc_bit (crc_bit (crc_bit (crc_bit (crc_bit (crc_bit x)))))))"

definition byte_values :: "'a::numeral list" where
  "byte_values = [
     1, 2, 3, 4, 5, 6, 7, 8, 9, 10, 11, 12, 13, 14, 15,
     16, 17, 18, 19, 20, 21, 22, 23, 24, 25, 26, 27, 28, 29, 30, 31,
     32, 33, 34, 35, 36, 37, 38, 39, 40, 41, 42, 43, 44, 45, 46, 47,
     48, 49, 50, 51, 52, 53, 54, 55, 56, 57, 58, 59, 60, 61, 62, 63,
     64, 65, 66, 67, 68, 69, 70, 71, 72, 73, 74, 75, 76, 77, 78, 79,
     80, 81, 82, 83, 84, 85, 86, 87, 88, 89, 90, 91, 92, 93, 94, 95,
     96, 97, 98, 99, 100, 101, 102, 103, 104, 105, 106, 107, 108, 109, 110, 111,
     112, 113, 114, 115, 116, 117, 118, 119, 120, 121, 122, 123, 124, 125, 126, 127,
     128, 129, 130, 131, 132, 133, 134, 135, 136, 137, 138, 139, 140, 141, 142, 143,
     144, 145, 146, 147, 148, 149, 150, 151, 152, 153, 154, 155, 156, 157, 158, 159,
     160, 161, 162, 163, 164, 165, 166, 167, 168, 169, 170, 171, 172, 173, 174, 175,
     176, 177, 178, 179, 180, 181, 182, 183, 184, 185, 186, 187, 188, 189, 190, 191,
     192, 193, 194, 195, 196, 197, 198, 199, 200, 201, 202, 203, 204, 205, 206, 207,
     208, 209, 210, 211, 212, 213, 214, 215, 216, 217, 218, 219, 220, 221, 222, 223,
     224, 225, 226, 227, 228, 229, 230, 231, 232, 233, 234, 235, 236, 237, 238, 239,
     240, 241, 242, 243, 244, 245, 246, 247, 248, 249, 250, 251, 252, 253, 254, 255]"

text \<open>The table is linear: eight entries give the others, by doubling.\<close>

definition crc_span :: "u32 list \<Rightarrow> u32 list" where
  "crc_span ps = fold (\<lambda>p xs. xs @ map (\<lambda>x. p XOR x) xs) ps [0]"

lemma crc_byte_linear: "crc_byte (x XOR y) = crc_byte x XOR crc_byte y" "crc_byte 0 = 0"
  by (simp_all add: crc_byte_def crc_bit_xor) (simp add: crc_bit_def)

lemma crc_byte_span: "map crc_byte (crc_span ps) = crc_span (map crc_byte ps)"
proof -
  have "map crc_byte (fold (\<lambda>p xs. xs @ map (\<lambda>x. p XOR x) xs) ps zs) =
      fold (\<lambda>p xs. xs @ map (\<lambda>x. p XOR x) xs) (map crc_byte ps) (map crc_byte zs)" for zs
    by (induction ps arbitrary: zs) (simp_all add: crc_byte_linear comp_def)
  then show ?thesis by (simp add: crc_span_def crc_byte_linear)
qed

lemma crcTable_entries: "map crc_byte (0 # byte_values) = crcTable"
proof -
  have "0 # byte_values = crc_span [1, 2, 4, 8, 16, 32, 64, 128]"
    by (simp add: byte_values_def crc_span_def)
  moreover have "map crc_byte [1, 2, 4, 8, 16, 32, 64, 128] =
      [0x77073096, 0xEE0E612C, 0x076DC419, 0x0EDB8832, 0x1DB71064, 0x3B6E20C8, 0x76DC4190, 0xEDB88320]"
    by (simp add: crc_byte_def crc_bit_def)
  moreover have "crc_span [0x77073096, 0xEE0E612C, 0x076DC419, 0x0EDB8832, 0x1DB71064, 0x3B6E20C8, 0x76DC4190, 0xEDB88320] = crcTable"
    by (simp add: crc_span_def crcTable_def)
  ultimately show ?thesis by (simp only: crc_byte_span)
qed

lemma upt_256: "[0..<256] = 0 # byte_values"
  unfolding byte_values_def by code_simp

lemma byte_values_word: "map word_of_nat (0 # byte_values) = (0 # byte_values :: u32 list)"
  by (simp add: byte_values_def)

lemma crcTable_nth: "i < 256 \<Longrightarrow> crcTable ! i = (crc_bit ^^ 8) (word_of_nat i)"
proof -
  assume "i < 256"
  have "crcTable = map (\<lambda>i. crc_byte (word_of_nat i)) [0..<256]"
    using byte_values_word by (simp add: crcTable_entries [symmetric] upt_256 flip: map_map [unfolded comp_def])
  moreover have "i < n \<Longrightarrow> map f [0..<n] ! i = f i" for n and f :: "nat \<Rightarrow> u32" by simp
  ultimately have "crcTable ! i = crc_byte (word_of_nat i)" using \<open>i < 256\<close> by metis
  then show ?thesis by (simp add: crc_byte_def numeral_eq_Suc)
qed

lemma crc_step:
  fixes crc :: u32 and b :: byte
  shows "drop_bit 8 crc XOR crcTable ! unat ((crc XOR ucast b) AND 0xFF) = (crc_bit ^^ 8) (crc XOR ucast b)"
proof -
  let ?x = "crc XOR ucast b"
  have mask: "(0xFF :: u32) = mask 8" by (simp add: mask_eq_decr_exp)
  have "?x AND 0xFF \<le> 0xFF" by (rule word_and_le1)
  then have lt: "unat (?x AND 0xFF) < 256" by (simp add: word_le_nat_alt)
  have split: "?x = (?x AND NOT 0xFF) XOR (?x AND 0xFF)"
    by (rule bit_word_eqI) (auto simp: bit_simps mask)
  have "take_bit 8 (?x AND NOT 0xFF) = 0"
    by (rule bit_word_eqI) (auto simp: bit_simps mask)
  then have hi: "(crc_bit ^^ 8) (?x AND NOT 0xFF) = drop_bit 8 (?x AND NOT 0xFF)"
    by (rule crc_bits_zeros)
  have "drop_bit 8 (?x AND NOT 0xFF) = drop_bit 8 crc"
    by (rule bit_word_eqI) (auto simp: bit_simps mask dest: bit_imp_le_length)
  moreover have "crcTable ! unat (?x AND 0xFF) = (crc_bit ^^ 8) (?x AND 0xFF)"
    using crcTable_nth [OF lt] by simp
  ultimately show ?thesis
    using hi by (subst (2) split) (simp add: crc_bits_xor)
qed

text \<open>
  C31: the table-driven checksum of the client is CRC-32 as defined bit by bit: every one of the 256
  entries of the table is right, and so is the loop that uses them.
\<close>

theorem checksum_is_crc32: "calculateChecksum data = crc32_spec data"
proof -
  have "crc_loop data crc = fold (\<lambda>b crc. (crc_bit ^^ 8) (crc XOR ucast b)) data crc" for crc
    by (induction data arbitrary: crc) (simp_all only: crc_loop.simps fold_simps crc_step)
  then show ?thesis by (simp add: calculateChecksum_def crc32_spec_def)
qed

subsection \<open>Instances\<close>

theorem client_parses_server_frames_witness:
  "\<exists>h. parseMessage (frame 7 (code SUCCESS) ''ok'' 3) = P_true h ''ok'' \<and> h_type h = code SUCCESS \<and>
    h_userId h = 3 \<and> h_length h = 2 \<and> h_ts h = swap_halves 7"
  using client_parses_server_frames [of "''ok''" 7 "code SUCCESS" 3] by simp

theorem length_check_wraps_witness:
  "parseMessage (write_header 0 (code SUCCESS) (word_of_nat 4294967295) 1) = P_over_read"
  by (rule length_check_wraps) simp_all

end
