(* ===== verification/Client_Serializer.thy ===== *)
theory Client_Serializer
  imports Chat_Utils Chat_Network "HOL-Library.List_Lexorder" "HOL-Library.Char_ord"
begin

text \<open>
  \<^verbatim>\<open>app/src/main/cpp/message_serializer.cpp\<close>: the client's implementation of the key-value payloads,
  over a \<^verbatim>\<open>std::map\<close> (an association list sorted by key), the requests it builds and the replies it
  reads, and its binary helpers. It is the second implementation of the codec contract.
\<close>

unbundle bit_operations_syntax

subsection \<open>std::map\<close>

definition smap_put :: "string \<Rightarrow> 'v \<Rightarrow> (string, 'v) umap \<Rightarrow> (string, 'v) umap" where
  "smap_put k v m = insort_key fst (k, v) (um_erase k m)"

definition smap_ok :: "(string, 'v) umap \<Rightarrow> bool" where
  "smap_ok m \<longleftrightarrow> sorted (um_keys m) \<and> distinct (um_keys m)"

lemma map_of_insort:
  "um_get m k = None \<Longrightarrow> um_get (insort_key fst (k, v) m) k' = (if k' = k then Some v else um_get m k')"
  by (induction m) (auto split: if_splits)

lemma keys_insort: "um_keys (insort_key fst (k, v) m) = insort k (um_keys m)"
  by (induction m) auto

lemma keys_erase_filter: "um_keys (um_erase k m) = filter (\<lambda>x. x \<noteq> k) (um_keys m)"
  by (induction m) (auto simp: AList.delete_eq)

interpretation sm: unordered_map smap_put um_erase um_get um_keys smap_ok
proof
  fix k k' :: string and v :: 'v and m
  show "um_get (smap_put k v m) k' = (if k' = k then Some v else um_get m k')"
    by (simp add: smap_put_def map_of_insort)
  show "k \<in> set (um_keys m) \<longleftrightarrow> um_get m k \<noteq> None"
    by (rule um.keys_get)
  assume "smap_ok m"
  then show "smap_ok (smap_put k v m)" "smap_ok (um_erase k m)" "distinct (um_keys m)"
    by (auto simp: smap_ok_def smap_put_def keys_insort keys_erase_filter sorted_insort distinct_insort sorted_filter
        intro: sorted_filter [where f = id, simplified])
qed simp

subsection \<open>serialize and deserialize\<close>

fun serialize_loop :: "bool \<Rightarrow> kv_items \<Rightarrow> string" where
  "serialize_loop first [] = []"
| "serialize_loop first ((key, val) # rest) =
     (if \<not> first then ''&'' else []) @ key @ ''='' @ val @ serialize_loop False rest"

definition serialize :: "kv_map \<Rightarrow> string" where
  "serialize data = serialize_loop True data"

definition deserialize_pair :: "string \<Rightarrow> kv_map \<Rightarrow> kv_map" where
  "deserialize_pair piece result =
     (case split_first (CHR ''='') piece of None \<Rightarrow> result | Some (key, val) \<Rightarrow> smap_put key val result)"

definition deserialize :: "string \<Rightarrow> kv_map" where
  "deserialize data = fold deserialize_pair (getlines (CHR ''&'') data) []"

text \<open>\<^verbatim>\<open>data["k1"] = v1; data["k2"] = v2; ...\<close>\<close>

definition smap_of :: "kv_items \<Rightarrow> kv_map" where
  "smap_of items = fold (\<lambda>(k, v). smap_put k v) items []"

lemma serialize_loop_eq:
  "serialize_loop False items = (if items = [] then [] else CHR ''&'' # intersperse_concat (CHR ''&'') (map kv_piece items))"
proof (induction items)
  case (Cons x items)
  obtain k v where "x = (k, v)" by (cases x)
  with Cons show ?case by (cases items) simp_all
qed simp

text \<open>Both implementations write the same text for the same list of pairs, and read the same pairs.\<close>

lemma serialize_eq: "serialize items = serialize_kv items"
proof (cases items)
  case (Cons x xs)
  obtain k v where "x = (k, v)" by (cases x)
  with Cons show ?thesis
    by (cases xs) (simp_all add: serialize_def serialize_kv_eq serialize_loop_eq)
qed (simp add: serialize_def serialize_kv_eq)

lemma fold_deserialize_pair:
  "(\<And>k. um_get m k = um_get m' k) \<Longrightarrow>
   um_get (fold deserialize_pair pieces m) k = um_get (fold parse_kv_pair pieces m') k"
proof (induction pieces arbitrary: m m')
  case (Cons p ps)
  have "um_get (deserialize_pair p m) k = um_get (parse_kv_pair p m') k" for k
    using Cons.prems by (auto simp: deserialize_pair_def parse_kv_pair_def sm.get_put split: option.split)
  with Cons.IH show ?case by simp
qed simp

lemma deserialize_get: "um_get (deserialize s) k = um_get (parse_kv s) k"
  unfolding deserialize_def parse_kv_def by (rule fold_deserialize_pair) simp

lemma smap_of_get: "um_get (smap_of items) k = map_of (rev items) k"
proof -
  have "um_get (fold (\<lambda>(k, v). smap_put k v) items m) k =
     (case map_of (rev items) k of None \<Rightarrow> um_get m k | Some v \<Rightarrow> Some v)" for m
    by (induction items arbitrary: m) (auto split: option.splits simp: map_add_def sm.get_put)
  then show ?thesis by (simp add: smap_of_def split: option.split)
qed

lemma smap_of_ok: "smap_ok (smap_of items)"
proof -
  have "smap_ok m \<Longrightarrow> smap_ok (fold (\<lambda>(k, v). smap_put k v) items m)" for m :: kv_map
    by (induction items arbitrary: m) (auto simp: sm.ok_put)
  moreover have "smap_ok []" by (simp add: smap_ok_def)
  ultimately show ?thesis by (simp add: smap_of_def)
qed

lemma kv_clean_smap_of: "kv_clean items \<Longrightarrow> kv_clean (smap_of items)"
proof -
  have "kv_clean (insort_key fst (k, v) m)" if "kv_clean ((k, v) # m)" for k v m
    using that by (auto simp: kv_clean_def list_all_iff set_insort_key)
  moreover have "kv_clean m \<Longrightarrow> kv_clean (um_erase k m)" for k m
    by (auto simp: kv_clean_def list_all_iff AList.delete_eq)
  ultimately have "kv_clean items \<Longrightarrow> kv_clean m \<Longrightarrow> kv_clean (fold (\<lambda>(k, v). smap_put k v) items m)" for m
    by (induction items arbitrary: m) (auto simp: smap_put_def)
  then show "kv_clean items \<Longrightarrow> kv_clean (smap_of items)" by (simp add: smap_of_def)
qed

lemma map_of_rev_distinct:
  assumes "distinct (map fst xs)"
  shows "map_of (rev xs) = map_of xs"
proof -
  have "distinct (map fst (rev xs))" using assms by (simp add: rev_map [symmetric])
  with assms show ?thesis by (subst map_of_inject_set) simp_all
qed

interpretation client_kv: kv_codec "\<lambda>items. serialize (smap_of items)" deserialize
proof
  fix items k
  assume clean: "kv_clean items"
  have "distinct (map fst (smap_of items))" using smap_of_ok by (simp add: smap_ok_def)
  then have rv: "map_of (rev (smap_of items)) = map_of (smap_of items)"
    by (simp add: map_of_rev_distinct)
  have "um_get (deserialize (serialize (smap_of items))) k = map_of (rev (smap_of items)) k"
    using kv_clean_smap_of [OF clean] by (simp add: deserialize_get serialize_eq server_kv.get_par_ser)
  with rv show "um_get (deserialize (serialize (smap_of items))) k = map_of (rev items) k"
    by (simp add: smap_of_get)
next
  fix s k v
  assume "um_get (deserialize s) k = Some v"
  then show "CHR ''&'' \<notin> set k \<and> CHR ''='' \<notin> set k \<and> CHR ''&'' \<notin> set v"
    by (simp add: deserialize_get server_kv.par_clean)
qed

subsection \<open>Requests\<close>

text \<open>\<open>serialize\<close> writes the pairs of the map in the order of its keys, whatever order they were put in.\<close>

definition serializeLoginRequest :: "string \<Rightarrow> string \<Rightarrow> string" where
  "serializeLoginRequest username password =
     serialize (smap_of [(''username'', username), (''password'', password)])"

definition serializeRegisterRequest :: "string \<Rightarrow> string \<Rightarrow> string \<Rightarrow> string" where
  "serializeRegisterRequest username password email =
     serialize (smap_of [(''username'', username), (''password'', password), (''email'', email)])"

definition serializeChatMessage :: "u32 \<Rightarrow> string \<Rightarrow> string" where
  "serializeChatMessage recipientId message =
     serialize (smap_of [(''recipientId'', to_string (uint recipientId)), (''message'', message)])"

definition serializeGroupMessage :: "u32 \<Rightarrow> string \<Rightarrow> string" where
  "serializeGroupMessage groupId message =
     serialize (smap_of [(''groupId'', to_string (uint groupId)), (''message'', message)])"

definition serializeFriendRequest :: "u32 \<Rightarrow> string" where
  "serializeFriendRequest targetUserId = serialize (smap_of [(''targetUserId'', to_string (uint targetUserId))])"

fun members_csv :: "nat \<Rightarrow> u32 list \<Rightarrow> string" where
  "members_csv i [] = []"
| "members_csv i (m # ms) = (if 0 < i then '','' else []) @ to_string (uint m) @ members_csv (Suc i) ms"

definition serializeCreateGroup :: "string \<Rightarrow> u32 list \<Rightarrow> string" where
  "serializeCreateGroup groupName memberIds =
     serialize (smap_of [(''groupName'', groupName), (''memberIds'', members_csv 0 memberIds)])"

subsection \<open>Replies\<close>

text \<open>
  \<^verbatim>\<open>std::stoul\<close> and \<^verbatim>\<open>std::stoull\<close> with 64-bit results: a minus sign negates modulo \<open>2 ^ 64\<close>, and the
  magnitude has to fit.
\<close>

definition stoull :: "string \<Rightarrow> u64 res" where
  "stoull s = (case strtol10 s of
       None \<Rightarrow> Inl Invalid_argument
     | Some i \<Rightarrow> if \<bar>i\<bar> < 2 ^ 64 then Inr (word_of_int i) else Inl Out_of_range)"

text \<open>\<^verbatim>\<open>uint32_t x = std::stoul(map["key"])\<close>\<close>

definition stoul_at :: "kv_map \<Rightarrow> string \<Rightarrow> u32 res" where
  "stoul_at m k = bindS (stoull (kv_at m k)) (\<lambda>w. Inr (ucast w))"

text \<open>The variables the caller passes by reference, and the result of the function.\<close>

record login_response =
  lr_userId :: u32
  lr_token :: string
  lr_success :: bool

definition deserializeLoginResponse :: "string \<Rightarrow> login_response \<Rightarrow> (bool \<times> login_response) res" where
  "deserializeLoginResponse data r =
     (let m = deserialize data in
      if \<not> um_count m ''success'' then Inr (False, r)
      else
        let ok = (kv_at m ''success'' = ''true'' \<or> kv_at m ''success'' = ''1'');
            r = r\<lparr>lr_success := ok\<rparr>
        in if \<not> ok then Inr (True, r)
           else if \<not> um_count m ''userId'' then Inr (False, r)
           else bindS (stoul_at m ''userId'') (\<lambda>userId.
             let r = r\<lparr>lr_userId := userId\<rparr> in
             if \<not> um_count m ''token'' then Inr (False, r)
             else Inr (True, r\<lparr>lr_token := kv_at m ''token''\<rparr>)))"

record chat_message =
  cm_senderId :: u32
  cm_message :: string
  cm_timestamp :: u64

definition deserializeChatMessage :: "string \<Rightarrow> chat_message \<Rightarrow> (bool \<times> chat_message) res" where
  "deserializeChatMessage data r =
     (let m = deserialize data in
      if \<not> um_count m ''senderId'' \<or> \<not> um_count m ''message'' then Inr (False, r)
      else
        bindS (stoul_at m ''senderId'') (\<lambda>senderId.
        bindS (if um_count m ''timestamp'' then stoull (kv_at m ''timestamp'') else Inr 0) (\<lambda>timestamp.
          Inr (True, \<lparr>cm_senderId = senderId, cm_message = kv_at m ''message'', cm_timestamp = timestamp\<rparr>))))"

fun friends_loop :: "kv_map \<Rightarrow> nat \<Rightarrow> nat \<Rightarrow> (u32 \<times> string) list res" where
  "friends_loop m i 0 = Inr []"
| "friends_loop m i (Suc n) =
     (let idKey = ''id'' @ to_string (int i); nameKey = ''name'' @ to_string (int i) in
      if um_count m idKey \<and> um_count m nameKey
      then bindS (stoul_at m idKey) (\<lambda>id.
           bindS (friends_loop m (Suc i) n) (\<lambda>rest. Inr ((id, kv_at m nameKey) # rest)))
      else friends_loop m (Suc i) n)"

definition deserializeFriendsList ::
  "string \<Rightarrow> (u32 \<times> string) list \<Rightarrow> (bool \<times> (u32 \<times> string) list) res" where
  "deserializeFriendsList data friends =
     (let m = deserialize data in
      if \<not> um_count m ''count'' then Inr (False, friends)
      else bindS (stoi (kv_at m ''count'')) (\<lambda>cnt.
           bindS (friends_loop m 0 (nat cnt)) (\<lambda>fs. Inr (True, fs))))"

record group_chat_message =
  gcm_groupId :: u32
  gcm_senderId :: u32
  gcm_message :: string

definition deserializeGroupMessage :: "string \<Rightarrow> group_chat_message \<Rightarrow> (bool \<times> group_chat_message) res" where
  "deserializeGroupMessage data r =
     (let m = deserialize data in
      if \<not> um_count m ''groupId'' \<or> \<not> um_count m ''senderId'' \<or> \<not> um_count m ''message'' then Inr (False, r)
      else
        bindS (stoul_at m ''groupId'') (\<lambda>groupId.
        bindS (stoul_at m ''senderId'') (\<lambda>senderId.
          Inr (True, \<lparr>gcm_groupId = groupId, gcm_senderId = senderId, gcm_message = kv_at m ''message''\<rparr>))))"

subsection \<open>Binary helpers\<close>

definition byte_at :: "nat \<Rightarrow> 'a::len word \<Rightarrow> byte" where
  "byte_at n value = ucast (drop_bit n value AND 0xFF)"

definition writeUint32 :: "byte list \<Rightarrow> u32 \<Rightarrow> byte list" where
  "writeUint32 buffer value = buffer @ [byte_at 24 value, byte_at 16 value, byte_at 8 value, byte_at 0 value]"

definition writeUint64 :: "byte list \<Rightarrow> u64 \<Rightarrow> byte list" where
  "writeUint64 buffer value =
     buffer @ [byte_at 56 value, byte_at 48 value, byte_at 40 value, byte_at 32 value,
               byte_at 24 value, byte_at 16 value, byte_at 8 value, byte_at 0 value]"

definition writeString :: "byte list \<Rightarrow> string \<Rightarrow> byte list" where
  "writeString buffer str = writeUint32 buffer (word_of_nat (length str)) @ bytes_of str"

text \<open>The readers have no end of the input to check against: \<open>None\<close> is a read past it.\<close>

definition readUint32 :: "byte list \<Rightarrow> (u32 \<times> byte list) option" where
  "readUint32 ptr =
     (if length ptr < 4 then None
      else Some (push_bit 24 (ucast (ptr ! 0)) OR push_bit 16 (ucast (ptr ! 1)) OR
                 push_bit 8 (ucast (ptr ! 2)) OR ucast (ptr ! 3), drop 4 ptr))"

definition readUint64 :: "byte list \<Rightarrow> (u64 \<times> byte list) option" where
  "readUint64 ptr =
     (if length ptr < 8 then None
      else Some (push_bit 56 (ucast (ptr ! 0)) OR push_bit 48 (ucast (ptr ! 1)) OR
                 push_bit 40 (ucast (ptr ! 2)) OR push_bit 32 (ucast (ptr ! 3)) OR
                 push_bit 24 (ucast (ptr ! 4)) OR push_bit 16 (ucast (ptr ! 5)) OR
                 push_bit 8 (ucast (ptr ! 6)) OR ucast (ptr ! 7), drop 8 ptr))"

definition readString :: "nat \<Rightarrow> byte list \<Rightarrow> (string \<times> byte list) option" where
  "readString maxLength ptr =
     (case readUint32 ptr of
        None \<Rightarrow> None
      | Some (len, ptr) \<Rightarrow>
          let n = (if maxLength < unat len then maxLength else unat len) in
          if length ptr < n then None else Some (string_of (take n ptr), drop n ptr))"

subsection \<open>What the requests say\<close>

lemma kv_at_client:
  "kv_clean items \<Longrightarrow>
   kv_at (parse_kv (serialize (smap_of items))) k = (case map_of (rev items) k of None \<Rightarrow> [] | Some v \<Rightarrow> v)"
  using client_kv.get_par_ser [of items k] by (simp add: kv_at_def um_at_def deserialize_get)

lemma count_client:
  "kv_clean items \<Longrightarrow> um_count (parse_kv (serialize (smap_of items))) k = (k \<in> fst ` set items)"
  using client_kv.get_par_ser [of items k]
  by (auto simp: um_count_def deserialize_get map_of_eq_None_iff)

lemma members_csv_clean: "CHR ''&'' \<notin> set (members_csv i ms)"
  by (induction ms arbitrary: i) auto

lemma server_items_get:
  "kv_clean items \<Longrightarrow> um_get (deserialize (serialize_kv items)) k = map_of (rev items) k"
  by (simp add: deserialize_get server_kv.get_par_ser)

lemma server_items_count:
  "kv_clean items \<Longrightarrow> um_count (deserialize (serialize_kv items)) k = (k \<in> fst ` set items)"
  by (auto simp: um_count_def server_items_get map_of_eq_None_iff)

lemma server_items_at:
  "kv_clean items \<Longrightarrow>
   kv_at (deserialize (serialize_kv items)) k = (case map_of (rev items) k of None \<Rightarrow> [] | Some v \<Rightarrow> v)"
  by (simp add: kv_at_def um_at_def server_items_get)

lemma stoull_to_string [simp]: "\<bar>i\<bar> < 2 ^ 64 \<Longrightarrow> stoull (to_string i) = Inr (word_of_int i)"
  by (simp add: stoull_def)

lemma in_int32_abs: "in_int32 i \<Longrightarrow> \<bar>i\<bar> < 2 ^ 64"
  by (auto simp: in_int32_def int32_min_def int32_max_def abs_if)

lemma ucast_word_of_int: "(ucast (word_of_int i :: u64) :: u32) = u32_of_int i"
  by (rule bit_word_eqI) (simp add: u32_of_int_def bit_simps)

subsection \<open>The binary helpers are inverse to each other\<close>

lemma byte_at_0xFF: "byte_at n w = ucast (drop_bit n w)"
  for w :: "'a::len word"
proof -
  have mask: "(0xFF :: 'a word) = mask 8" by (simp add: mask_eq_decr_exp)
  show ?thesis
    unfolding byte_at_def mask
    by (rule bit_word_eqI) (auto simp: bit_simps dest: bit_imp_le_length)
qed

text \<open>Each byte contributes the bits of its own interval.\<close>

lemma bit_byte_at:
  fixes w :: u64
  assumes "k \<le> 56"
  shows "bit (push_bit k (ucast (byte_at k w)) :: u64) n \<longleftrightarrow> k \<le> n \<and> n < k + 8 \<and> bit w n"
  using assms by (auto simp: byte_at_0xFF bit_simps)

lemma readUint32_writeUint32: "readUint32 (writeUint32 [] w @ rest) = Some (w, rest)"
proof -
  have "writeUint32 [] w = be32 w" by (simp add: writeUint32_def byte_at_0xFF be32_def)
  moreover have "of_be32 (be32 w @ rest) = w" by simp
  ultimately show ?thesis by (simp add: readUint32_def of_be32_def)
qed

lemma readUint64_writeUint64: "readUint64 (writeUint64 [] w @ rest) = Some (w, rest)"
proof -
  let ?read = "push_bit 56 (ucast (byte_at 56 w)) OR push_bit 48 (ucast (byte_at 48 w)) OR
     push_bit 40 (ucast (byte_at 40 w)) OR push_bit 32 (ucast (byte_at 32 w)) OR
     push_bit 24 (ucast (byte_at 24 w)) OR push_bit 16 (ucast (byte_at 16 w)) OR
     push_bit 8 (ucast (byte_at 8 w)) OR (ucast (byte_at 0 w) :: u64)"
  have low: "bit (ucast (byte_at 0 w) :: u64) n \<longleftrightarrow> n < 8 \<and> bit w n" for n
    using bit_byte_at [of 0 w n] by simp
  have "?read = w"
  proof (rule bit_word_eqI)
    fix n
    assume "n < LENGTH(64)"
    then have "n < 64" by simp
    then have "56 \<le> n \<and> n < 64 \<or> 48 \<le> n \<and> n < 56 \<or> 40 \<le> n \<and> n < 48 \<or> 32 \<le> n \<and> n < 40 \<or>
        24 \<le> n \<and> n < 32 \<or> 16 \<le> n \<and> n < 24 \<or> 8 \<le> n \<and> n < 16 \<or> n < 8"
      by linarith
    then show "bit ?read n = bit w n"
      unfolding bit_or_iff low by (simp add: bit_byte_at) blast
  qed
  then show ?thesis by (simp add: readUint64_def writeUint64_def)
qed

text \<open>A string that fits is read back; of a longer one only a prefix, and the rest of it stays in the input.\<close>

lemma readString_writeString:
  assumes "length str < 2 ^ 32"
  shows "readString maxLength (writeString [] str @ rest) =
    Some (take maxLength str, drop maxLength (bytes_of str) @ rest)"
proof -
  have u: "unat (word_of_nat (length str) :: u32) = length str"
    using assms by (simp add: unat_of_nat)
  show ?thesis
    by (cases "maxLength < length str")
       (simp_all add: readString_def writeString_def readUint32_writeUint32 u Let_def string_of_def bytes_of_def take_map drop_map comp_def)
qed

end
