(* ===== verification/Client_Server.thy ===== *)
theory Client_Server
  imports Group_Safety Delivery Client_Serializer
begin

text \<open>
  The payloads of the client against the handlers of the server: what the serializer of the app writes is what
  the handlers read, and what the handlers answer is what the app reads; and the request where it is not.
\<close>

lemma stoul_int32: "in_int32 i \<Longrightarrow> bindS (stoull (to_string i)) (\<lambda>w. Inr (ucast w)) = Inr (u32_of_int i)"
  using stoull_to_string [OF in_int32_abs, of i] by (simp add: ucast_word_of_int)

subsection \<open>Logging in\<close>

lemma login_request_reads:
  assumes "CHR ''&'' \<notin> set username" and "CHR ''&'' \<notin> set password"
  shows "kv_at (parse_kv (serializeLoginRequest username password)) ''username'' = username"
    and "kv_at (parse_kv (serializeLoginRequest username password)) ''password'' = password"
  using assms by (simp_all add: serializeLoginRequest_def kv_at_client)

lemma auth_reply_reads:
  assumes "in_int32 uid" and "CHR ''&'' \<notin> set username"
  shows "deserializeLoginResponse (auth_reply uid username) r =
    Inr (True, r\<lparr>lr_userId := u32_of_int uid, lr_token := ''demo_token'', lr_success := True\<rparr>)"
  using assms
  by (simp add: deserializeLoginResponse_def auth_reply_def server_items_count server_items_at stoul_at_def
      stoul_int32 Let_def)

subsection \<open>Direct messages\<close>

lemma chat_request_reads:
  assumes "CHR ''&'' \<notin> set message"
  shows "kv_at (parse_kv (serializeChatMessage recipientId message)) ''recipientId'' = to_string (uint recipientId)"
    and "kv_at (parse_kv (serializeChatMessage recipientId message)) ''message'' = message"
  using assms by (simp_all add: serializeChatMessage_def kv_at_client)

lemma dm_payload_decodes:
  assumes "CHR ''&'' \<notin> set (kv_at (parse_kv payload) ''message'')" and "\<bar>now_s e\<bar> < 2 ^ 64"
  shows "deserializeChatMessage (dm_payload e cur payload) r =
    Inr (True, \<lparr>cm_senderId = cur, cm_message = kv_at (parse_kv payload) ''message'',
                cm_timestamp = word_of_int (now_s e)\<rparr>)"
  using assms
  by (simp add: deserializeChatMessage_def dm_payload_def server_items_count server_items_at stoul_at_def
      stoul_int32 Let_def)

text \<open>
  A message from one app to another, without a database. What the sender's client has serialized for a
  recipient below \<open>2 ^ 31\<close>, the server sends to the recipient's connection, or queues for it, as a message that
  the recipient's client decodes to the same text, the account of the sender and the time of the server,
  also for sender ids that the server prints as negative numbers.
\<close>

lemma chat_handshake:
  assumes "\<not> has_pg s" and "CHR ''&'' \<notin> set message" and "uint recipientId < 2 ^ 31" and "\<bar>now_s e\<bar> < 2 ^ 64"
  shows "\<exists>t out. handle_DIRECT_MESSAGE e fd (serializeChatMessage recipientId message) cur s = (Inr (), t) \<and>
    deserializeChatMessage out r =
      Inr (True, \<lparr>cm_senderId = cur, cm_message = message, cm_timestamp = word_of_int (now_s e)\<rparr>) \<and>
    outbox t = outbox s @
      (if is_online s (uint recipientId)
       then [sent_msg (online_fd s (uint recipientId)) (code DIRECT_MESSAGE) out cur] else []) @
      [sent_msg fd (code SUCCESS) ''Message sent'' cur] \<and>
    (\<not> is_online s (uint recipientId) \<longrightarrow>
      offline_queue t (uint recipientId) =
        offline_queue s (uint recipientId) @ [queued_msg (code DIRECT_MESSAGE) out cur])"
proof -
  let ?p = "serializeChatMessage recipientId message"
  note reads = chat_request_reads [OF assms(2), of recipientId]
  have "in_int32 (uint recipientId)"
    using assms(3) uint_nonnegative [of recipientId] unfolding in_int32_def int32_min_def int32_max_def by linarith
  then have "stoi (kv_at (parse_kv ?p) ''recipientId'') = Inr (uint recipientId)" by (simp add: reads)
  from dm_run [OF assms(1) this, of e fd cur] obtain t where t:
    "handle_DIRECT_MESSAGE e fd ?p cur s = (Inr (), t)"
    "outbox t = outbox s @
      (if is_online s (uint recipientId)
       then [sent_msg (online_fd s (uint recipientId)) (code DIRECT_MESSAGE) (dm_payload e cur ?p) cur] else []) @
      [sent_msg fd (code SUCCESS) ''Message sent'' cur]"
    "\<forall>v. offline_queue t v = offline_queue s v @
      (if v = uint recipientId \<and> \<not> is_online s (uint recipientId)
       then [queued_msg (code DIRECT_MESSAGE) (dm_payload e cur ?p) cur] else [])" by blast
  have "deserializeChatMessage (dm_payload e cur ?p) r =
      Inr (True, \<lparr>cm_senderId = cur, cm_message = message, cm_timestamp = word_of_int (now_s e)\<rparr>)"
    using dm_payload_decodes [of ?p e cur r] assms(2,4) by (simp only: reads simp_thms)
  with t show ?thesis by (intro exI [of _ t] exI [of _ "dm_payload e cur ?p"] conjI impI)
      (simp_all only: simp_thms if_True)
qed

subsection \<open>Creating a group\<close>

definition has_group :: "int \<Rightarrow> group \<Rightarrow> 'db server \<Rightarrow> bool" where
  "has_group gid g s \<longleftrightarrow> um_get (g_groups s) gid = Some g"

interpretation hg: group_inv "has_group gid g" gid
  by unfold_locales (auto simp: has_group_def um_touch_def um_count_def)

lemma create_group_reads:
  assumes "CHR ''&'' \<notin> set groupName"
  shows "parse_members (parse_kv (serializeCreateGroup groupName memberIds)) = Inr []"
    and "\<not> um_count (parse_kv (serializeCreateGroup groupName memberIds)) ''name''"
  using assms
  by (simp_all add: serializeCreateGroup_def parse_members_def kv_at_client count_client members_csv_clean)

text \<open>
  C39: the group request of the client is not understood by the server, without a database. The client sends the
  name and the members under the keys \<^verbatim>\<open>groupName\<close> and \<^verbatim>\<open>memberIds\<close>, the server reads \<^verbatim>\<open>name\<close> and \<^verbatim>\<open>members\<close>:
  whatever members the client asks for and whatever name without an ampersand, the group gets a name made of the time and no member but its creator.
\<close>

theorem create_group_request_ignored:
  assumes "\<not> has_pg s" and "CHR ''&'' \<notin> set groupName"
  shows "um_get (g_groups (snd (handle_CREATE_GROUP e fd (serializeCreateGroup groupName memberIds) cur s)))
      (g_next_group_id s) =
    Some (new_group (g_next_group_id s) (''group_'' @ to_string (now_s e)) (int_of_u32 cur) [])"
proof -
  note reads = create_group_reads [OF assms(2), of memberIds]
  have "has_group (g_next_group_id s)
      (new_group (g_next_group_id s) (''group_'' @ to_string (now_s e)) (int_of_u32 cur) [])
      (snd (handle_CREATE_GROUP e fd (serializeCreateGroup groupName memberIds) cur s))"
    by (rule hg.create_group_stored [OF assms(1) refl reads(1)]) (simp add: reads has_group_def stored_twice_def)
  then show ?thesis by (simp add: has_group_def)
qed

subsection \<open>Instances\<close>

theorem create_group_request_ignored_witness:
  "um_get (g_groups (snd (handle_CREATE_GROUP sample_env 4 (serializeCreateGroup ''club'' [2, 3]) 1 sample_server)))
      (g_next_group_id sample_server) =
    Some (new_group (g_next_group_id sample_server) (''group_'' @ to_string (now_s sample_env)) (int_of_u32 1) [])"
  by (rule create_group_request_ignored) simp_all

end
