(* ===== verification/Client_Socket.thy ===== *)
theory Client_Socket
  imports Client_Protocol
begin

text \<open>
  \<^verbatim>\<open>app/src/main/cpp/socket_manager.cpp\<close>: the connection of the client, its blocking send and receive,
  and the receive thread that cuts the byte stream into messages. What the system calls return is an
  argument of each operation. \<open>size_t\<close> has 64 bits; what is different where it has 32 is shown at the end.
\<close>

subsection \<open>State\<close>

text \<open>
  \<^verbatim>\<open>receiveThread\<close>: no thread, a thread inside \<^verbatim>\<open>receiveLoop\<close>, or one that has left it and was not joined.
  \<open>open_fds\<close> are the descriptors that were opened and not closed.
\<close>

datatype thread_state = No_thread | Running | Finished

record socket_manager =
  sockfd :: int
  connected :: bool
  receiving :: bool
  receiveThread :: thread_state
  open_fds :: "int list"

definition new_socket_manager :: socket_manager where
  "new_socket_manager =
     \<lparr>sockfd = - 1, connected = False, receiving = False, receiveThread = No_thread, open_fds = []\<rparr>"

subsection \<open>Connecting\<close>

text \<open>\<open>fd\<close> is the result of \<^verbatim>\<open>socket\<close>, \<open>addr_ok\<close> and \<open>conn_ok\<close> whether \<^verbatim>\<open>inet_pton\<close> and \<^verbatim>\<open>connect\<close> succeed.\<close>

definition sm_connect :: "int \<Rightarrow> bool \<Rightarrow> bool \<Rightarrow> socket_manager \<Rightarrow> bool \<times> socket_manager" where
  "sm_connect fd addr_ok conn_ok m =
     (if connected m then (True, m)
      else if fd < 0 then (False, m\<lparr>sockfd := fd\<rparr>)
      else if \<not> addr_ok then (False, m\<lparr>sockfd := - 1\<rparr>)
      else if \<not> conn_ok then (False, m\<lparr>sockfd := - 1\<rparr>)
      else (True, m\<lparr>sockfd := fd, connected := True, open_fds := fd # open_fds m\<rparr>))"

text \<open>
  Joining the thread waits for its \<^verbatim>\<open>recv\<close> to return: \<open>next\<close> is what it returns, \<open>None\<close> when it never does,
  and then the caller never returns either. The callbacks that this last \<^verbatim>\<open>recv\<close> still causes are those of
  \<open>drain\<close> below and not part of the state.
\<close>

definition stopReceiveLoop :: "recv_ret option \<Rightarrow> socket_manager \<Rightarrow> socket_manager option" where
  "stopReceiveLoop next m =
     (if \<not> receiving m then Some m
      else
        let m = m\<lparr>receiving := False\<rparr> in
        case receiveThread m of
          No_thread \<Rightarrow> Some m
        | Finished \<Rightarrow> Some (m\<lparr>receiveThread := No_thread\<rparr>)
        | Running \<Rightarrow>
            (case next of
               None \<Rightarrow> None
             | Some r \<Rightarrow>
                 Some (m\<lparr>receiveThread := No_thread,
                         connected := (connected m \<and> (case r of R_data bs \<Rightarrow> bs \<noteq> [] | _ \<Rightarrow> False))\<rparr>)))"

definition disconnect :: "recv_ret option \<Rightarrow> socket_manager \<Rightarrow> socket_manager option" where
  "disconnect next m =
     (case stopReceiveLoop next m of
        None \<Rightarrow> None
      | Some m \<Rightarrow>
          Some (if 0 \<le> sockfd m
                then m\<lparr>open_fds := removeAll (sockfd m) (open_fds m), sockfd := - 1, connected := False\<rparr>
                else m\<lparr>connected := False\<rparr>))"

definition isConnected :: "socket_manager \<Rightarrow> bool" where
  "isConnected m = connected m"

subsection \<open>Sending and receiving\<close>

text \<open>
  The loop of \<^verbatim>\<open>sendData\<close>: the results of the successive \<^verbatim>\<open>send\<close> calls are \<open>script\<close>. Unlike the server's
  \<open>send_all\<close>, a result of 0 is not a failure: the loop goes on. \<open>None\<close> is a call that never returns.
\<close>

fun sendData_loop :: "int list \<Rightarrow> byte list \<Rightarrow> byte list \<Rightarrow> (bool \<times> byte list) option" where
  "sendData_loop script [] out = Some (True, out)"
| "sendData_loop [] (b # bs) out = None"
| "sendData_loop (r # script) (b # bs) out =
     (if r < 0 then Some (False, out)
      else sendData_loop script (drop (nat r) (b # bs)) (out @ take (nat r) (b # bs)))"

definition sendData ::
  "int list \<Rightarrow> byte list \<Rightarrow> socket_manager \<Rightarrow> (bool \<times> byte list \<times> socket_manager) option" where
  "sendData script data m =
     (if \<not> connected m \<or> sockfd m < 0 then Some (False, [], m)
      else case sendData_loop script data [] of
          None \<Rightarrow> None
        | Some (ok, out) \<Rightarrow> Some (ok, out, if ok then m else m\<lparr>connected := False\<rparr>))"

definition receiveData :: "recv_ret \<Rightarrow> socket_manager \<Rightarrow> int \<times> byte list \<times> socket_manager" where
  "receiveData r m =
     (if \<not> connected m \<or> sockfd m < 0 then (- 1, [], m)
      else case r of
          R_data bs \<Rightarrow>
            if bs = [] then (- 1, [], m\<lparr>connected := False\<rparr>) else (int (length bs), bs, m)
        | _ \<Rightarrow> (- 1, [], m\<lparr>connected := False\<rparr>))"

subsection \<open>The receive loop\<close>

text \<open>Assigning a new thread to a joinable one ends the process: \<open>None\<close>.\<close>

definition startReceiveLoop :: "socket_manager \<Rightarrow> socket_manager option" where
  "startReceiveLoop m =
     (if receiving m then Some m
      else if receiveThread m \<noteq> No_thread then None
      else Some (m\<lparr>receiving := True, receiveThread := Running\<rparr>))"

text \<open>
  The inner loop: the complete messages at the front of the buffer, handed to the callback in order, and what
  is left. \<open>totalMessageSize\<close> is a sum in a \<open>size_t\<close> of \<open>bits\<close> bits. With 64 bits the sum does not wrap, and the
  loop ends because every message has at least a header.
\<close>

definition announced_length :: "byte list \<Rightarrow> nat" where
  "announced_length buf = unat (bswap32 (of_le32 (slice 6 4 buf)))"

definition totalMessageSize :: "nat \<Rightarrow> byte list \<Rightarrow> nat" where
  "totalMessageSize bits buf = (32 + announced_length buf) mod 2 ^ bits"

definition message_size :: "byte list \<Rightarrow> nat" where
  "message_size buf = totalMessageSize 64 buf"

lemma announced_bound: "announced_length buf < 2 ^ 32"
  using unsigned_less [of "bswap32 (of_le32 (slice 6 4 buf))", where 'a = nat] by (simp add: announced_length_def)

lemma message_size_sum: "message_size buf = 32 + announced_length buf"
  using announced_bound [of buf] by (simp add: message_size_def totalMessageSize_def)

function drain :: "byte list \<Rightarrow> byte list list \<times> byte list" where
  "drain buf =
     (if 32 \<le> length buf \<and> message_size buf \<le> length buf
      then case drain (drop (message_size buf) buf) of
             (msgs, rest) \<Rightarrow> (take (message_size buf) buf # msgs, rest)
      else ([], buf))"
  by pat_completeness auto
termination
  by (relation "measure length") (auto simp: message_size_sum)

declare drain.simps [simp del]

text \<open>
  The outer loop on the results of the successive \<^verbatim>\<open>recv\<close> calls: what the callback was given, the state and
  the buffer. At the end of \<open>script\<close> the thread waits in \<^verbatim>\<open>recv\<close>.
\<close>

fun receiveLoop ::
  "recv_ret list \<Rightarrow> socket_manager \<Rightarrow> byte list \<Rightarrow> byte list list \<times> socket_manager \<times> byte list" where
  "receiveLoop script m messageBuffer =
     (if \<not> (receiving m \<and> connected m) then ([], m\<lparr>receiveThread := Finished\<rparr>, messageBuffer)
      else case script of
          [] \<Rightarrow> ([], m, messageBuffer)
        | R_data bs # script' \<Rightarrow>
            if bs = [] then ([], m\<lparr>connected := False, receiveThread := Finished\<rparr>, messageBuffer)
            else
              (case drain (messageBuffer @ bs) of
                 (msgs, buf) \<Rightarrow>
                   (case receiveLoop script' m buf of
                      (rest, m', buf') \<Rightarrow> (msgs @ rest, m', buf')))
        | _ # script' \<Rightarrow> ([], m\<lparr>connected := False, receiveThread := Finished\<rparr>, messageBuffer))"

declare receiveLoop.simps [simp del]

subsection \<open>Reassembly\<close>

lemma message_size_append: "32 \<le> length buf \<Longrightarrow> message_size (buf @ bs) = message_size buf"
  by (simp add: message_size_sum announced_length_def slice_def)

lemma drain_done: "\<not> (32 \<le> length buf \<and> message_size buf \<le> length buf) \<Longrightarrow> drain buf = ([], buf)"
  by (subst drain.simps) (simp only: if_False)

lemma drain_step:
  assumes "32 \<le> length buf" and "message_size buf \<le> length buf"
  shows "drain (buf @ bs) =
    (case drain (drop (message_size buf) buf @ bs) of
       (msgs, rest) \<Rightarrow> (take (message_size buf) buf # msgs, rest))"
  using assms by (subst drain.simps) (simp add: message_size_append)

text \<open>Draining what has arrived first and the rest later is draining everything at once.\<close>

lemma drain_append:
  "drain (buf @ bs) =
     (case drain buf of (msgs, rest) \<Rightarrow>
        (case drain (rest @ bs) of (msgs', rest') \<Rightarrow> (msgs @ msgs', rest')))"
proof (induction buf rule: drain.induct)
  case (1 buf)
  show ?case
  proof (cases "32 \<le> length buf \<and> message_size buf \<le> length buf")
    case True
    with "1.IH" show ?thesis
      by (simp add: drain_step drain.simps [of buf] split: prod.split)
  next
    case False
    then have "drain buf = ([], buf)" by (rule drain_done)
    then show ?thesis by (simp split: prod.split)
  qed
qed

lemma drain_rest: "drain buf = (msgs, rest) \<Longrightarrow> drain rest = ([], rest)"
proof (induction buf arbitrary: msgs rule: drain.induct)
  case (1 buf)
  show ?case
  proof (cases "32 \<le> length buf \<and> message_size buf \<le> length buf")
    case True
    with "1.prems" obtain msgs' where "drain (drop (message_size buf) buf) = (msgs', rest)"
      by (subst (asm) drain.simps) (auto split: prod.splits)
    with "1.IH" True show ?thesis by blast
  next
    case False
    then have "drain buf = ([], buf)" by (rule drain_done)
    with "1.prems" show ?thesis by simp
  qed
qed

text \<open>The loop depends only on the bytes that arrived, not on how they were cut.\<close>

lemma receiveLoop_drain:
  assumes "receiving m" and "connected m" and "\<forall>c\<in>set chunks. c \<noteq> []" and "drain buf = ([], buf)"
  shows "receiveLoop (map R_data chunks) m buf =
    (case drain (buf @ concat chunks) of (msgs, rest) \<Rightarrow> (msgs, m, rest))"
  using assms
proof (induction chunks arbitrary: buf)
  case Nil
  then show ?case by (simp add: receiveLoop.simps [of "[]"])
next
  case (Cons c cs)
  obtain msgs rest where d: "drain (buf @ c) = (msgs, rest)" by (cases "drain (buf @ c)")
  with drain_append [of "buf @ c" "concat cs"] Cons.IH [OF Cons.prems(1,2) _ drain_rest [OF d]] Cons.prems
  show ?case
    by (subst receiveLoop.simps) (simp split: prod.split)
qed

lemma message_size_frame:
  "length payload < 2 ^ 32 \<Longrightarrow> message_size (frame ts ty payload userId @ bs) = 32 + length payload"
  by (subst message_size_append) (simp_all add: message_size_sum announced_length_def frame_slices bswap32_of_le32 unat_of_nat)

lemma drain_frame:
  assumes "length payload < 2 ^ 32"
  shows "drain (frame ts ty payload userId @ bs) =
    (case drain bs of (msgs, rest) \<Rightarrow> (frame ts ty payload userId # msgs, rest))"
  using message_size_frame [OF assms, of ts ty userId bs]
  by (subst drain.simps) (simp add: frame_slices)

text \<open>A message of the server: time stamp, type, payload and sender.\<close>

type_synonym server_msg = "u64 \<times> u8 \<times> string \<times> u32"

definition frame_of :: "server_msg \<Rightarrow> byte list" where
  "frame_of = (\<lambda>(ts, ty, payload, userId). frame ts ty payload userId)"

definition sendable :: "server_msg \<Rightarrow> bool" where
  "sendable = (\<lambda>(ts, ty, payload, userId). length payload < 2 ^ 32 - 32)"

lemma drain_frames:
  "\<forall>m\<in>set ms. sendable m \<Longrightarrow>
   drain (concat (map frame_of ms) @ bs) = (case drain bs of (msgs, rest) \<Rightarrow> (map frame_of ms @ msgs, rest))"
proof (induction ms)
  case (Cons m ms)
  obtain ts ty payload userId where m: "m = (ts, ty, payload, userId)" by (cases m)
  with Cons.prems have "length payload < 2 ^ 32" by (simp add: sendable_def)
  with Cons m show ?case by (simp add: frame_of_def drain_frame split: prod.split)
qed (simp split: prod.split)

lemma receiveLoop_frames:
  assumes "receiving m" and "connected m" and "\<forall>c\<in>set chunks. c \<noteq> []" and "\<forall>x\<in>set ms. sendable x"
    and "concat chunks = concat (map frame_of ms) @ part" and "drain part = ([], part)"
  shows "receiveLoop (map R_data chunks) m [] = (map frame_of ms, m, part)"
proof -
  have "drain [] = ([], [])" by (simp add: drain.simps [of "[]"])
  from receiveLoop_drain [OF assms(1-3) this] show ?thesis
    using drain_frames [OF assms(4), of part] assms(5,6) by simp
qed

text \<open>
  However the network cuts a sequence of messages of the server into chunks, the receive loop of the
  client hands exactly these messages to its callback, in order and each exactly once; the bytes of a
  message that is still incomplete stay in the buffer, and the connection stays up.
\<close>

lemma receive_loop_reassembles:
  assumes "receiving m" and "connected m" and "\<forall>c\<in>set chunks. c \<noteq> []" and "\<forall>x\<in>set ms. sendable x"
    and "concat chunks = concat (map frame_of ms) @ part" and "length part < 32 \<or> length part < message_size part"
  shows "receiveLoop (map R_data chunks) m [] = (map frame_of ms, m, part)"
proof (rule receiveLoop_frames [OF assms(1-5)])
  show "drain part = ([], part)" using assms(6) by (intro drain_done) auto
qed

subsection \<open>Where size\_t has 32 bits\<close>

text \<open>
  The app is also built for \<^verbatim>\<open>armeabi-v7a\<close> and \<^verbatim>\<open>x86\<close>. \<open>drain_pass\<close> is one pass of the inner loop: the message for
  the callback and the buffer after it, or \<open>None\<close> where the loop ends.
\<close>

definition drain_pass :: "nat \<Rightarrow> byte list \<Rightarrow> (byte list \<times> byte list) option" where
  "drain_pass bits buf =
     (let n = totalMessageSize bits buf in
      if 32 \<le> length buf \<and> n \<le> length buf then Some (take n buf, drop n buf) else None)"

lemma drain_passes:
  "drain buf =
     (case drain_pass 64 buf of
        None \<Rightarrow> ([], buf)
      | Some (msg, rest) \<Rightarrow> (case drain rest of (msgs, rest') \<Rightarrow> (msg # msgs, rest')))"
  by (subst drain.simps) (simp add: drain_pass_def message_size_def Let_def)

text \<open>Up to a payload of \<open>2\<^sup>3\<^sup>2 - 33\<close> bytes, so for every \<open>sendable\<close> message, it makes no difference.\<close>

lemma drain_pass_32:
  "announced_length buf < 2 ^ 32 - 32 \<Longrightarrow> drain_pass 32 buf = drain_pass 64 buf"
  by (simp add: drain_pass_def totalMessageSize_def)

text \<open>
  But a header that announces exactly \<open>2\<^sup>3\<^sup>2 - 32\<close> bytes makes the sum 0: the pass hands an empty message to the
  callback, takes nothing from the buffer, and so repeats for ever.
\<close>

lemma drain_spins_32:
  "32 \<le> length buf \<Longrightarrow> announced_length buf = 2 ^ 32 - 32 \<Longrightarrow> drain_pass 32 buf = Some ([], buf)"
  by (simp add: drain_pass_def totalMessageSize_def)

lemma spinning_header:
  assumes "buf = replicate 6 0 @ [0xFF, 0xFF, 0xFF, 0xE0] @ replicate 22 0 @ bs"
  shows "32 \<le> length buf \<and> announced_length buf = 2 ^ 32 - 32"
proof -
  have "uint (bswap32 (of_le32 [0xFF, 0xFF, 0xFF, 0xE0])) = 2 ^ 32 - 32" by code_simp
  then have "unat (bswap32 (of_le32 [0xFF, 0xFF, 0xFF, 0xE0])) = nat (2 ^ 32 - 32)" by (simp only: unat_eq_nat_uint)
  moreover have "slice 6 4 buf = [0xFF, 0xFF, 0xFF, 0xE0]" by (simp add: assms slice_def)
  ultimately show ?thesis by (simp add: assms announced_length_def)
qed

subsection \<open>After the peer has closed\<close>

text \<open>
  C37: after the server has closed the connection, the client believes that its receive loop is still
  running: a new connection succeeds but no thread receives on it, and the descriptor of the old connection
  is never closed.
\<close>

theorem reconnect_receives_nothing:
  assumes "receiving m" and "connected m" and "receiveThread m = Running" and "0 \<le> fd"
  shows "\<exists>m1 m2. receiveLoop [R_zero] m [] = ([], m1, []) \<and> sm_connect fd True True m1 = (True, m2) \<and>
    startReceiveLoop m2 = Some m2 \<and> connected m2 \<and> receiveThread m2 = Finished \<and>
    open_fds m2 = fd # open_fds m"
  using assms by (simp add: receiveLoop.simps [of "[R_zero]"] sm_connect_def startReceiveLoop_def)

text \<open>Stopping a loop that waits in \<^verbatim>\<open>recv\<close> on an idle connection never returns.\<close>

lemma disconnect_blocks:
  "receiving m \<Longrightarrow> receiveThread m = Running \<Longrightarrow> disconnect None m = None"
  by (simp add: disconnect_def stopReceiveLoop_def Let_def)

text \<open>A send that reports success has handed over all bytes.\<close>

lemma sendData_loop_True: "sendData_loop script bs out = Some (True, sent) \<Longrightarrow> sent = out @ bs"
  by (induction script bs out rule: sendData_loop.induct) (auto split: if_splits)

lemma sendData_True:
  "sendData script data m = Some (True, sent, m') \<Longrightarrow> sent = data \<and> m' = m \<and> connected m"
  by (auto simp: sendData_def split: if_splits option.splits dest: sendData_loop_True)

text \<open>It returns as soon as every \<^verbatim>\<open>send\<close> takes at least one byte.\<close>

lemma sendData_loop_returns:
  "length bs \<le> length script \<Longrightarrow> \<forall>r\<in>set script. 0 < r \<Longrightarrow> \<exists>x. sendData_loop script bs out = Some x"
proof (induction script bs out rule: sendData_loop.induct)
  case (3 r script b bs out)
  then have "length (drop (nat r) (b # bs)) \<le> length script" by (cases "nat r") auto
  with 3 show ?case by auto
qed auto

subsection \<open>Instances\<close>

definition sample_manager :: socket_manager where
  "sample_manager = \<lparr>sockfd = 3, connected = True, receiving = True, receiveThread = Running, open_fds = [3]\<rparr>"

definition sample_msgs :: "server_msg list" where
  "sample_msgs = [(1, code SUCCESS, ''ok'', 2), (2, code DIRECT_MESSAGE, ''hi'', 3)]"

definition sample_stream :: "byte list" where
  "sample_stream = concat (map frame_of sample_msgs) @ [0x43]"

theorem reconnect_receives_nothing_witness:
  "\<exists>m1 m2. receiveLoop [R_zero] sample_manager [] = ([], m1, []) \<and> sm_connect 5 True True m1 = (True, m2) \<and>
    startReceiveLoop m2 = Some m2 \<and> connected m2 \<and> receiveThread m2 = Finished \<and>
    open_fds m2 = 5 # open_fds sample_manager"
  by (rule reconnect_receives_nothing) (simp_all add: sample_manager_def)

end
