(* ===== verification/Client_Crypto.thy ===== *)
theory Client_Crypto
  imports Chat_Network
begin

text \<open>
  \<^verbatim>\<open>app/src/main/cpp/crypto_utils.cpp\<close>: the SHA-256 of the client with its padding loop, message schedule and
  rounds, the hash called \<open>md5\<close>, the key derivation and the cipher that \<open>encryptAES\<close> and \<open>decryptAES\<close>
  implement. Random bytes are arguments. SHA-256 is compared with the definition of FIPS 180-4.
\<close>

unbundle bit_operations_syntax

subsection \<open>Hexadecimal numbers\<close>

definition hex_digit :: "nat \<Rightarrow> char" where
  "hex_digit d = (if d < 10 then char_of (48 + d) else char_of (87 + d))"

lemma hex_digit_0 [simp]: "hex_digit 0 = CHR ''0''"
  by code_simp

fun nat_to_hex :: "nat \<Rightarrow> string" where
  "nat_to_hex n = (if n < 16 then [hex_digit n] else nat_to_hex (n div 16) @ [hex_digit (n mod 16)])"

declare nat_to_hex.simps [simp del]

text \<open>\<^verbatim>\<open>ss << std::hex << std::setw(width) << std::setfill('0') << n\<close>\<close>

definition setw_hex :: "nat \<Rightarrow> nat \<Rightarrow> string" where
  "setw_hex width n = replicate (width - length (nat_to_hex n)) (CHR ''0'') @ nat_to_hex n"

definition hex_value :: "char \<Rightarrow> nat option" where
  "hex_value c =
     (let n = (of_char c :: nat) in
      if 48 \<le> n \<and> n \<le> 57 then Some (n - 48)
      else if 97 \<le> n \<and> n \<le> 102 then Some (n - 87)
      else if 65 \<le> n \<and> n \<le> 70 then Some (n - 55)
      else None)"

definition is_xdigit :: "char \<Rightarrow> bool" where
  "is_xdigit c = (hex_value c \<noteq> None)"

definition xdigits_value :: "string \<Rightarrow> nat" where
  "xdigits_value ds = foldl (\<lambda>a c. 16 * a + the (hex_value c)) 0 ds"

text \<open>
  \<^verbatim>\<open>std::strtol(s, nullptr, 16)\<close> on short strings: white space, a sign, an optional \<^verbatim>\<open>0x\<close> before a digit, the
  longest run of digits; 0 when there is none.
\<close>

definition strtol16 :: "string \<Rightarrow> int" where
  "strtol16 s =
     (let t = dropWhile is_space s;
          neg = (t \<noteq> [] \<and> hd t = CHR ''-'');
          u = (if t \<noteq> [] \<and> (hd t = CHR ''-'' \<or> hd t = CHR ''+'') then tl t else t);
          v = (case u of
                 z # x # d # rest \<Rightarrow>
                   if z = CHR ''0'' \<and> (x = CHR ''x'' \<or> x = CHR ''X'') \<and> is_xdigit d then d # rest else u
               | _ \<Rightarrow> u);
          n = int (xdigits_value (takeWhile is_xdigit v))
      in if neg then - n else n)"

subsection \<open>SHA-256\<close>

definition rotr :: "u32 \<Rightarrow> nat \<Rightarrow> u32" where
  "rotr x n = drop_bit n x OR push_bit (32 - n) x"

definition sha_K :: "u32 list" where
  "sha_K = [
     0x428a2f98,0x71374491,0xb5c0fbcf,0xe9b5dba5,0x3956c25b,0x59f111f1,0x923f82a4,0xab1c5ed5,
     0xd807aa98,0x12835b01,0x243185be,0x550c7dc3,0x72be5d74,0x80deb1fe,0x9bdc06a7,0xc19bf174,
     0xe49b69c1,0xefbe4786,0x0fc19dc6,0x240ca1cc,0x2de92c6f,0x4a7484aa,0x5cb0a9dc,0x76f988da,
     0x983e5152,0xa831c66d,0xb00327c8,0xbf597fc7,0xc6e00bf3,0xd5a79147,0x06ca6351,0x14292967,
     0x27b70a85,0x2e1b2138,0x4d2c6dfc,0x53380d13,0x650a7354,0x766a0abb,0x81c2c92e,0x92722c85,
     0xa2bfe8a1,0xa81a664b,0xc24b8b70,0xc76c51a3,0xd192e819,0xd6990624,0xf40e3585,0x106aa070,
     0x19a4c116,0x1e376c08,0x2748774c,0x34b0bcb5,0x391c0cb3,0x4ed8aa4a,0x5b9cca4f,0x682e6ff3,
     0x748f82ee,0x78a5636f,0x84c87814,0x8cc70208,0x90befffa,0xa4506ceb,0xbef9a3f7,0xc67178f2]"

definition sha_H0 :: "u32 list" where
  "sha_H0 = [0x6a09e667,0xbb67ae85,0x3c6ef372,0xa54ff53a,0x510e527f,0x9b05688c,0x1f83d9ab,0x5be0cd19]"

lemma mod_bits: "(n * 8) mod 512 = 8 * (n mod 64)" for n :: nat
  using mod_mult_mult2 [of n 8 64] by (simp add: mult.commute)

lemma mod_add_7:
  fixes n :: nat
  assumes "n mod 64 \<noteq> 56"
  shows "(n + 7) mod 64 < 63"
proof (cases "n mod 64 < 57")
  case True
  have "(n + 7) mod 64 = (n mod 64 + 7) mod 64" by (simp only: mod_add_left_eq)
  also have "\<dots> = n mod 64 + 7" using True by (intro mod_less) simp
  finally show ?thesis using True assms by linarith
next
  case False
  have "n mod 64 < 64" by simp
  with False have "n mod 64 + 7 = (n mod 64 - 57) + 64" by linarith
  then have "(n + 7) mod 64 = (n mod 64 - 57) mod 64" by (metis mod_add_left_eq mod_add_self2)
  also have "\<dots> \<le> n mod 64 - 57" by simp
  finally show ?thesis using \<open>n mod 64 < 64\<close> by linarith
qed

text \<open>\<^verbatim>\<open>while ((padded.size() * 8) % 512 != 448) padded.push_back(char(0));\<close>\<close>

function pad_zeros :: "byte list \<Rightarrow> byte list" where
  "pad_zeros padded = (if (length padded * 8) mod 512 \<noteq> 448 then pad_zeros (padded @ [0]) else padded)"
  by pat_completeness auto
termination
proof (relation "measure (\<lambda>p. 63 - (length p + 7) mod 64)")
  fix p :: "byte list"
  assume "(length p * 8) mod 512 \<noteq> 448"
  then have "length p mod 64 \<noteq> 56" by (auto simp: mod_bits)
  then have "63 - Suc (length p + 7) mod 64 < 63 - (length p + 7) mod 64"
    using mod_add_7 [of "length p"] unfolding mod_Suc by auto
  then show "(p @ [0], p) \<in> measure (\<lambda>p. 63 - (length p + 7) mod 64)" by simp
qed simp

declare pad_zeros.simps [simp del]

definition sha_pad :: "byte list \<Rightarrow> byte list" where
  "sha_pad data =
     (let bitlen = (word_of_nat (length data) :: u64) * 8;
          padded = pad_zeros (data @ [0x80])
      in padded @ map (\<lambda>i. ucast (drop_bit (i * 8) bitlen AND 0xFF)) (rev [0..<8]))"

text \<open>The message schedule of the chunk that starts at \<open>chunk_ptr\<close>.\<close>

definition sha_word :: "byte list \<Rightarrow> nat \<Rightarrow> u32" where
  "sha_word chunk_ptr t =
     push_bit 24 (ucast (chunk_ptr ! (t * 4))) OR push_bit 16 (ucast (chunk_ptr ! (t * 4 + 1))) OR
     push_bit 8 (ucast (chunk_ptr ! (t * 4 + 2))) OR ucast (chunk_ptr ! (t * 4 + 3))"

definition sha_extend :: "nat \<Rightarrow> u32 list \<Rightarrow> u32 list" where
  "sha_extend t W =
     (let s0 = rotr (W ! (t - 15)) 7 XOR rotr (W ! (t - 15)) 18 XOR drop_bit 3 (W ! (t - 15));
          s1 = rotr (W ! (t - 2)) 17 XOR rotr (W ! (t - 2)) 19 XOR drop_bit 10 (W ! (t - 2))
      in W @ [W ! (t - 16) + s0 + W ! (t - 7) + s1])"

definition sha_schedule :: "byte list \<Rightarrow> u32 list" where
  "sha_schedule chunk_ptr = fold sha_extend [16..<64] (map (sha_word chunk_ptr) [0..<16])"

type_synonym sha_vars = "u32 \<times> u32 \<times> u32 \<times> u32 \<times> u32 \<times> u32 \<times> u32 \<times> u32"

definition sha_round :: "u32 list \<Rightarrow> nat \<Rightarrow> sha_vars \<Rightarrow> sha_vars" where
  "sha_round W t = (\<lambda>(a, b, c, d, e, f, g, h).
     let S1 = rotr e 6 XOR rotr e 11 XOR rotr e 25;
         ch = (e AND f) XOR (NOT e AND g);
         temp1 = h + S1 + ch + sha_K ! t + W ! t;
         S0 = rotr a 2 XOR rotr a 13 XOR rotr a 22;
         maj = (a AND b) XOR (a AND c) XOR (b AND c);
         temp2 = S0 + maj
     in (temp1 + temp2, a, b, c, d + temp1, e, f, g))"

definition sha_chunk :: "byte list \<Rightarrow> nat \<Rightarrow> u32 list \<Rightarrow> u32 list" where
  "sha_chunk padded chunk H =
     (let W = sha_schedule (drop (chunk * 64) padded);
          (a, b, c, d, e, f, g, h) =
            fold (sha_round W) [0..<64] (H ! 0, H ! 1, H ! 2, H ! 3, H ! 4, H ! 5, H ! 6, H ! 7)
      in [H ! 0 + a, H ! 1 + b, H ! 2 + c, H ! 3 + d, H ! 4 + e, H ! 5 + f, H ! 6 + g, H ! 7 + h])"

definition sha256 :: "string \<Rightarrow> string" where
  "sha256 data =
     (let padded = sha_pad (bytes_of data);
          chunks = length padded * 8 div 512;
          H = fold (sha_chunk padded) [0..<chunks] sha_H0
      in concat (map (\<lambda>h. setw_hex 8 (unat h)) H))"

subsection \<open>md5 and salts\<close>

text \<open>\<^verbatim>\<open>static_cast<uint32_t>(c)\<close> depends on whether \<^verbatim>\<open>char\<close> is signed on the platform.\<close>

definition u32_of_char :: "bool \<Rightarrow> char \<Rightarrow> u32" where
  "u32_of_char char_signed c = (if char_signed then scast (byte_of_char c) else ucast (byte_of_char c))"

definition md5_mix :: "bool \<Rightarrow> char \<Rightarrow> u32 \<Rightarrow> u32" where
  "md5_mix char_signed c h =
     (let h = push_bit 3 h OR drop_bit 29 h;
          h = h XOR u32_of_char char_signed c
      in (h * 0xcc9e2d51) XOR drop_bit 16 h)"

definition md5 :: "bool \<Rightarrow> string \<Rightarrow> string" where
  "md5 char_signed data =
     concat (map (\<lambda>h. setw_hex 8 (unat h))
       (fold (\<lambda>c. map (md5_mix char_signed c)) data [0x67452301, 0xefcdab89, 0x98badcfe, 0x10325476]))"

definition hex_of_bytes :: "byte list \<Rightarrow> string" where
  "hex_of_bytes bs = concat (map (\<lambda>b. setw_hex 2 (unat b)) bs)"

text \<open>\<open>dis i\<close> is what the \<open>i\<close>-th call of \<^verbatim>\<open>dis(gen)\<close> returns.\<close>

definition generateRandomBytes :: "(nat \<Rightarrow> byte) \<Rightarrow> nat \<Rightarrow> byte list" where
  "generateRandomBytes dis n = map dis [0..<n]"

definition generateSalt :: "(nat \<Rightarrow> byte) \<Rightarrow> string" where
  "generateSalt dis = hex_of_bytes (generateRandomBytes dis 16)"

definition deriveKey :: "string \<Rightarrow> string \<Rightarrow> string" where
  "deriveKey password salt = sha256 (password @ salt)"

subsection \<open>The cipher\<close>

record crypto =
  aesKey :: "byte list"
  iv :: "byte list"

definition new_crypto :: crypto where
  "new_crypto = \<lparr>aesKey = [], iv = []\<rparr>"

text \<open>\<^verbatim>\<open>aesKey.resize(32)\<close> keeps what there is; the loop then stores the bytes of the derived key.\<close>

definition initializeKey :: "(nat \<Rightarrow> byte) \<Rightarrow> string \<Rightarrow> crypto \<Rightarrow> crypto" where
  "initializeKey dis key c =
     (let old = take 32 (aesKey c @ replicate 32 0);
          derivedKey = sha256 key
      in c\<lparr>aesKey := map (\<lambda>i. if i * 2 < length derivedKey
                               then word_of_int (strtol16 (take 2 (drop (i * 2) derivedKey))) else old ! i) [0..<32],
           iv := generateRandomBytes dis 16\<rparr>)"

definition encryptAES :: "(nat \<Rightarrow> byte) \<Rightarrow> byte list \<Rightarrow> string \<Rightarrow> crypto \<Rightarrow> byte list \<times> crypto" where
  "encryptAES dis data key c =
     (let c = initializeKey dis key c in
      (iv c @ map (\<lambda>i. data ! i XOR aesKey c ! (i mod length (aesKey c)) XOR iv c ! (i mod length (iv c)))
                [0..<length data], c))"

definition decryptAES :: "(nat \<Rightarrow> byte) \<Rightarrow> byte list \<Rightarrow> string \<Rightarrow> crypto \<Rightarrow> byte list \<times> crypto" where
  "decryptAES dis encryptedData key c =
     (if length encryptedData < 16 then ([], c)
      else
        let extractedIV = take 16 encryptedData;
            c = initializeKey dis key c
        in (map (\<lambda>i. encryptedData ! i XOR aesKey c ! ((i - 16) mod length (aesKey c))
                       XOR extractedIV ! ((i - 16) mod length extractedIV))
              [16..<length encryptedData], c))"

subsection \<open>Decryption undoes encryption\<close>

lemma length_generateRandomBytes [simp]: "length (generateRandomBytes dis n) = n"
  by (simp add: generateRandomBytes_def)

lemma length_aesKey [simp]: "length (aesKey (initializeKey dis key c)) = 32"
  by (simp add: initializeKey_def Let_def)

lemma iv_initializeKey [simp]: "iv (initializeKey dis key c) = generateRandomBytes dis 16"
  by (simp add: initializeKey_def Let_def)

text \<open>The key depends on the pass phrase only: the derived key is long enough to replace all old bytes.\<close>

lemma length_setw_hex: "n < 16 ^ Suc w \<Longrightarrow> length (setw_hex (Suc w) n) = Suc w"
proof -
  have "n < 16 ^ Suc w \<Longrightarrow> length (nat_to_hex n) \<le> Suc w" for n w
  proof (induction w arbitrary: n)
    case 0
    then show ?case by (simp add: nat_to_hex.simps [of n])
  next
    case (Suc w)
    then have "n div 16 < 16 ^ Suc w" by (simp add: less_mult_imp_div_less mult.commute)
    with Suc.IH show ?case by (subst nat_to_hex.simps) auto
  qed
  then show "n < 16 ^ Suc w \<Longrightarrow> length (setw_hex (Suc w) n) = Suc w"
    by (simp add: setw_hex_def)
qed

lemma length_setw_hex_u32 [simp]: "length (setw_hex 8 (unat (h :: u32))) = 8"
proof -
  have "unat h < 16 ^ Suc 7" using unsigned_less [of h, where ?'a = nat] by simp
  from length_setw_hex [OF this] show ?thesis by simp
qed

lemma length_setw_hex_u8 [simp]: "length (setw_hex 2 (unat (b :: byte))) = 2"
proof -
  have "unat b < 16 ^ Suc 1" using unsigned_less [of b, where ?'a = nat] by simp
  from length_setw_hex [OF this] show ?thesis by (simp add: numeral_2_eq_2)
qed

lemma length_sha_chunk [simp]: "length (sha_chunk padded i H) = 8"
  by (simp add: sha_chunk_def Let_def split: prod.split)

lemma length_sha_digest: "length (fold (sha_chunk padded) is sha_H0) = 8"
proof -
  have "length H = 8 \<Longrightarrow> length (fold (sha_chunk padded) is H) = 8" for H
    by (induction "is" arbitrary: H) auto
  then show ?thesis by (simp add: sha_H0_def)
qed

lemma length_sha256 [simp]: "length (sha256 data) = 64"
proof -
  have "length (concat (map (\<lambda>h :: u32. setw_hex 8 (unat h)) H)) = 8 * length H" for H
    by (induction H) auto
  then show ?thesis by (simp add: sha256_def Let_def length_sha_digest)
qed

lemma aesKey_initializeKey:
  "aesKey (initializeKey dis key c) =
     map (\<lambda>i. word_of_int (strtol16 (take 2 (drop (i * 2) (sha256 key))))) [0..<32]"
  by (simp add: initializeKey_def Let_def)

lemma decrypt_encrypt:
  "fst (decryptAES dis' (fst (encryptAES dis data key c)) key c') = data"
proof (rule nth_equalityI)
  let ?enc = "fst (encryptAES dis data key c)"
  have enc: "length ?enc = 16 + length data" "take 16 ?enc = generateRandomBytes dis 16"
    by (simp_all add: encryptAES_def Let_def)
  show len: "length (fst (decryptAES dis' ?enc key c')) = length data"
    using enc(1) by (simp add: decryptAES_def Let_def)
  fix i
  assume "i < length (fst (decryptAES dis' ?enc key c'))"
  then have i: "i < length data" using len by simp
  have "?enc ! (16 + i) = data ! i XOR aesKey (initializeKey dis key c) ! (i mod 32) XOR generateRandomBytes dis 16 ! (i mod 16)"
    using i by (simp add: encryptAES_def Let_def nth_append)
  moreover have "aesKey (initializeKey dis' key c') = aesKey (initializeKey dis key c)"
    by (simp add: aesKey_initializeKey)
  ultimately show "fst (decryptAES dis' ?enc key c') ! i = data ! i"
    using enc i by (simp add: decryptAES_def Let_def xor.assoc xor.left_commute)
qed

end
