(* ===== verification/Fips_180_4.thy ===== *)
theory Fips_180_4
  imports Client_Crypto Complex_Main
begin

text \<open>
  SHA-256 as FIPS 180-4 defines it: rotations of words, constants from the roots of the first primes, the
  message schedule by its recursion and the padding by its formula. The routine of \<^verbatim>\<open>crypto_utils.cpp\<close>, with its
  shifts, table, padding loop and array of words, computes the same digest.
\<close>

unbundle bit_operations_syntax

subsection \<open>The standard\<close>

text \<open>The first 32 bits of the fractional part of a real number (sections 4.2.2 and 5.3.3).\<close>

definition frac_bits32 :: "real \<Rightarrow> u32" where
  "frac_bits32 x = word_of_int \<lfloor>x * 2 ^ 32\<rfloor>"

definition fips_primes :: "nat list" where
  "fips_primes =
     [2, 3, 5, 7, 11, 13, 17, 19, 23, 29, 31, 37, 41, 43, 47, 53, 59, 61, 67, 71, 73, 79, 83, 89, 97, 101,
      103, 107, 109, 113, 127, 131, 137, 139, 149, 151, 157, 163, 167, 173, 179, 181, 191, 193, 197, 199,
      211, 223, 227, 229, 233, 239, 241, 251, 257, 263, 269, 271, 277, 281, 283, 293, 307, 311]"

definition fips_K :: "u32 list" where
  "fips_K = map (\<lambda>p. frac_bits32 (root 3 (real p))) fips_primes"

definition fips_H0 :: "u32 list" where
  "fips_H0 = map (\<lambda>p. frac_bits32 (sqrt (real p))) (take 8 fips_primes)"

text \<open>Section 4.1.2.\<close>

definition fips_Ch :: "u32 \<Rightarrow> u32 \<Rightarrow> u32 \<Rightarrow> u32" where
  "fips_Ch x y z = (x AND y) XOR (NOT x AND z)"

definition fips_Maj :: "u32 \<Rightarrow> u32 \<Rightarrow> u32 \<Rightarrow> u32" where
  "fips_Maj x y z = (x AND y) XOR (x AND z) XOR (y AND z)"

definition fips_Sigma0 :: "u32 \<Rightarrow> u32" where
  "fips_Sigma0 x = word_rotr 2 x XOR word_rotr 13 x XOR word_rotr 22 x"

definition fips_Sigma1 :: "u32 \<Rightarrow> u32" where
  "fips_Sigma1 x = word_rotr 6 x XOR word_rotr 11 x XOR word_rotr 25 x"

definition fips_sigma0 :: "u32 \<Rightarrow> u32" where
  "fips_sigma0 x = word_rotr 7 x XOR word_rotr 18 x XOR drop_bit 3 x"

definition fips_sigma1 :: "u32 \<Rightarrow> u32" where
  "fips_sigma1 x = word_rotr 17 x XOR word_rotr 19 x XOR drop_bit 10 x"

text \<open>Section 5: big-endian numbers, the padded message and its blocks of 512 bits.\<close>

definition be_value :: "byte list \<Rightarrow> nat" where
  "be_value bs = foldl (\<lambda>a b. a * 256 + unat b) 0 bs"

definition be_bytes :: "nat \<Rightarrow> nat \<Rightarrow> byte list" where
  "be_bytes k n = map (\<lambda>i. word_of_nat (n div 256 ^ i)) (rev [0..<k])"

definition fips_pad :: "byte list \<Rightarrow> byte list" where
  "fips_pad m = m @ [0x80] @ replicate ((119 - length m mod 64) mod 64) 0 @ be_bytes 8 (8 * length m)"

definition fips_blocks :: "byte list \<Rightarrow> byte list list" where
  "fips_blocks m = map (\<lambda>i. take 64 (drop (i * 64) m)) [0..<length m div 64]"

text \<open>Section 6.2.2: the schedule, the rounds and the intermediate hash values.\<close>

fun fips_W :: "byte list \<Rightarrow> nat \<Rightarrow> u32" where
  "fips_W block t =
     (if t < 16 then word_of_nat (be_value (take 4 (drop (4 * t) block)))
      else fips_sigma1 (fips_W block (t - 2)) + fips_W block (t - 7) +
           fips_sigma0 (fips_W block (t - 15)) + fips_W block (t - 16))"

declare fips_W.simps [simp del]

definition fips_round :: "byte list \<Rightarrow> nat \<Rightarrow> sha_vars \<Rightarrow> sha_vars" where
  "fips_round block t = (\<lambda>(a, b, c, d, e, f, g, h).
     let T1 = h + fips_Sigma1 e + fips_Ch e f g + fips_K ! t + fips_W block t;
         T2 = fips_Sigma0 a + fips_Maj a b c
     in (T1 + T2, a, b, c, d + T1, e, f, g))"

definition fips_block :: "byte list \<Rightarrow> u32 list \<Rightarrow> u32 list" where
  "fips_block block H =
     (case fold (fips_round block) [0..<64] (H ! 0, H ! 1, H ! 2, H ! 3, H ! 4, H ! 5, H ! 6, H ! 7) of
        (a, b, c, d, e, f, g, h) \<Rightarrow> map2 (+) [a, b, c, d, e, f, g, h] H)"

definition fips_sha256 :: "byte list \<Rightarrow> byte list" where
  "fips_sha256 m = concat (map (\<lambda>h. be_bytes 4 (unat h)) (fold fips_block (fips_blocks (fips_pad m)) fips_H0))"

subsection \<open>The constants\<close>

definition root_bits :: "nat \<Rightarrow> int \<Rightarrow> u32 \<Rightarrow> bool" where
  "root_bits k p c =
     list_ex (\<lambda>i. let r = i * 2 ^ 32 + uint c in r ^ k \<le> p * 2 ^ (32 * k) \<and> p * 2 ^ (32 * k) < (r + 1) ^ k)
       [0, 1, 2, 3, 4, 5, 6]"

lemma root_scale:
  fixes x :: real
  assumes "0 < k"
  shows "root k (x * 2 ^ (32 * k)) = root k x * 2 ^ 32"
proof -
  have "(2 :: real) ^ (32 * k) = (2 ^ 32) ^ k" by (simp only: power_mult)
  moreover have "root k ((2 ^ 32) ^ k :: real) = 2 ^ 32" using assms by (intro real_root_power_cancel) simp_all
  ultimately have "root k (2 ^ (32 * k) :: real) = 2 ^ 32" by (simp only:)
  then show ?thesis by (simp only: real_root_mult)
qed

lemma root_bits_frac:
  assumes "root_bits k (int p) c" and "0 < k"
  shows "frac_bits32 (root k (real p)) = c"
proof -
  from assms(1) obtain i where mem: "i \<in> set [0, 1, 2, 3, 4, 5, 6 :: int]"
      and i: "(i * 2 ^ 32 + uint c) ^ k \<le> int p * 2 ^ (32 * k)"
      "int p * 2 ^ (32 * k) < (i * 2 ^ 32 + uint c + 1) ^ k"
    unfolding root_bits_def list_ex_iff Let_def by blast
  then have "0 \<le> i" by auto
  define r where "r = i * 2 ^ 32 + uint c"
  have r: "0 \<le> r" using \<open>0 \<le> i\<close> by (simp add: r_def)
  have up: "real_of_int (int p * 2 ^ (32 * k)) = real p * 2 ^ (32 * k)" by simp
  have "real_of_int r \<le> root k (real p) * 2 ^ 32"
  proof -
    have "real_of_int (r ^ k) \<le> real p * 2 ^ (32 * k)" using i(1) unfolding r_def [symmetric] up [symmetric]
      by (simp only: of_int_le_iff)
    from real_root_le_mono [OF assms(2) this] show ?thesis
      using assms(2) r by (simp only: root_scale of_int_power real_root_power_cancel of_int_0_le_iff)
  qed
  moreover have "root k (real p) * 2 ^ 32 < real_of_int (r + 1)"
  proof -
    have "real p * 2 ^ (32 * k) < real_of_int ((r + 1) ^ k)" using i(2) unfolding r_def [symmetric] up [symmetric]
      by (simp only: of_int_less_iff)
    from real_root_less_mono [OF assms(2) this] have "root k (real p) * 2 ^ 32 < root k (real_of_int (r + 1) ^ k)"
      using assms(2) by (simp only: root_scale of_int_power)
    moreover have "root k (real_of_int (r + 1) ^ k) = real_of_int (r + 1)"
      using assms(2) r by (intro real_root_power_cancel) simp_all
    ultimately show ?thesis by simp
  qed
  ultimately have "\<lfloor>root k (real p) * 2 ^ 32\<rfloor> = r" by (intro floor_unique) simp_all
  moreover have "(2 :: u32) ^ 32 = 0" by (simp only: exp_eq_zero_iff) simp
  then have "(word_of_int r :: u32) = c" 
    by (simp only: r_def of_int_add of_int_mult of_int_power of_int_numeral) (simp only: mult_zero_right add_0 word_of_int_uint)
  ultimately show ?thesis by (simp only: frac_bits32_def)
qed

lemma root_bits_list:
  assumes "list_all2 (root_bits k) (map int ps) cs" and "0 < k"
  shows "map (\<lambda>p. frac_bits32 (root k (real p))) ps = cs"
  using assms by (auto simp: list_all2_conv_all_nth root_bits_frac intro!: nth_equalityI)

lemma sha_K_fips: "sha_K = fips_K"
proof -
  have "list_all2 (root_bits 3) (map int fips_primes) sha_K" by code_simp
  then show ?thesis unfolding fips_K_def by (rule root_bits_list [symmetric]) simp
qed

lemma sha_H0_fips: "sha_H0 = fips_H0"
proof -
  have "list_all2 (root_bits 2) (map int (take 8 fips_primes)) sha_H0" by code_simp
  then show ?thesis unfolding fips_H0_def sqrt_def by (rule root_bits_list [symmetric]) simp
qed

subsection \<open>Rotations and bytes\<close>

lemma rotr_word_rotr: "0 < n \<Longrightarrow> n < 32 \<Longrightarrow> rotr x n = word_rotr n x"
proof (rule bit_word_eqI)
  fix m :: nat
  assume n: "0 < n" "n < 32" and m: "m < LENGTH(32)"
  show "bit (rotr x n) m \<longleftrightarrow> bit (word_rotr n x) m"
  proof (cases "m + n < 32")
    case True
    with n m show ?thesis by (auto simp: rotr_def bit_simps add.commute)
  next
    case False
    then have "(m + n) mod 32 = m - (32 - n)" using n m by (simp add: mod_if)
    with False n m show ?thesis by (auto simp: rotr_def bit_simps dest: bit_imp_le_length)
  qed
qed

lemma ucast_be_byte: "i < 8 \<Longrightarrow> (ucast (drop_bit (i * 8) (word_of_nat n :: u64) AND 0xFF) :: byte) = word_of_nat (n div 256 ^ i)"
proof -
  assume "i < 8"
  have "256 ^ i = (2 :: nat) ^ (i * 8)" using power_mult [of "2 :: nat" 8 i] by (simp add: mult.commute)
  then have shift: "n div 256 ^ i = drop_bit (i * 8) n" by (simp add: drop_bit_eq_div)
  have mask: "(0xFF :: u64) = mask 8" by (simp add: mask_eq_exp_minus_1)
  show ?thesis using \<open>i < 8\<close> unfolding shift mask by (auto intro!: bit_word_eqI simp: bit_simps)
qed

lemma length_be_bytes [simp]: "length (be_bytes k n) = k"
  by (simp add: be_bytes_def)

lemma zeros_mod: "m < 64 \<Longrightarrow> (120 - m) mod 64 = (if m \<le> 56 then 56 - m else 120 - m)" for m :: nat
proof (cases "m \<le> 56")
  case True
  then have "120 - m = (56 - m) + 64" by linarith
  then have "(120 - m) mod 64 = (56 - m) mod 64" by (simp only: mod_add_self2)
  with True show ?thesis by simp
qed simp

lemma zeros_mod_Suc:
  "n mod 64 \<noteq> 56 \<Longrightarrow> Suc ((120 - Suc n mod 64) mod 64) = (120 - n mod 64) mod 64" for n :: nat
proof -
  assume "n mod 64 \<noteq> 56"
  moreover have "n mod 64 < 64" "Suc n mod 64 < 64" by simp_all
  moreover have "Suc n mod 64 = (if n mod 64 = 63 then 0 else Suc (n mod 64))" by (simp add: mod_Suc)
  ultimately show ?thesis by (simp only: zeros_mod) (auto split: if_splits)
qed

lemma pad_zeros_replicate: "pad_zeros p = p @ replicate ((120 - length p mod 64) mod 64) 0"
proof (induction p rule: pad_zeros.induct)
  case (1 p)
  show ?case
  proof (cases "length p mod 64 = 56")
    case True
    then show ?thesis by (simp add: pad_zeros.simps [of p] mod_bits)
  next
    case False
    then have "pad_zeros p = p @ 0 # replicate ((120 - Suc (length p) mod 64) mod 64) 0"
      using 1 by (simp add: pad_zeros.simps [of p] mod_bits)
    also have "0 # replicate ((120 - Suc (length p) mod 64) mod 64) (0 :: byte) =
        replicate (Suc ((120 - Suc (length p) mod 64) mod 64)) 0" by simp
    also have "Suc ((120 - Suc (length p) mod 64) mod 64) = (120 - length p mod 64) mod 64"
      using False by (rule zeros_mod_Suc)
    finally show ?thesis .
  qed
qed

lemma sha_pad_fips: "sha_pad m = fips_pad m"
proof -
  have "(120 - Suc (length m) mod 64) mod 64 = (119 - length m mod 64) mod 64"
    by (simp add: mod_Suc)
  moreover have "(word_of_nat (length m) :: u64) * 8 = word_of_nat (8 * length m)" by simp
  ultimately show ?thesis
    by (simp add: sha_pad_def fips_pad_def pad_zeros_replicate be_bytes_def ucast_be_byte Let_def
        del: of_nat_mult cong: map_cong)
qed

subsection \<open>Schedule and rounds\<close>

lemma take_4: "n + 3 < length xs \<Longrightarrow> take 4 (drop n xs) = [xs ! n, xs ! (n + 1), xs ! (n + 2), xs ! (n + 3)]"
  by (simp add: take_Suc_conv_app_nth numeral_eq_Suc flip: Cons_nth_drop_Suc)

lemma word_of_be4:
  "(word_of_nat (be_value [a, b, c, d]) :: u32) =
     push_bit 24 (ucast a) OR push_bit 16 (ucast b) OR push_bit 8 (ucast c) OR ucast d"
proof -
  have "(push_bit 24 (ucast a) OR push_bit 16 (ucast b) OR push_bit 8 (ucast c) OR ucast d :: u32) =
      push_bit 24 (ucast a) + push_bit 16 (ucast b) + push_bit 8 (ucast c) + ucast d"
    by (subst disjunctive_add [symmetric]; auto simp: bit_simps dest: bit_imp_le_length)+
  moreover have "(word_of_nat (be_value [a, b, c, d]) :: u32) =
      push_bit 24 (ucast a) + push_bit 16 (ucast b) + push_bit 8 (ucast c) + ucast d"
    by (simp add: be_value_def push_bit_eq_mult algebra_simps)
  ultimately show ?thesis by simp
qed

lemma sha_word_fips:
  assumes "t < 16" and "64 \<le> length chunk"
  shows "sha_word chunk t = fips_W (take 64 chunk) t"
proof -
  have "take 4 (drop (t * 4) (take 64 chunk)) =
      [chunk ! (t * 4), chunk ! (t * 4 + 1), chunk ! (t * 4 + 2), chunk ! (t * 4 + 3)]"
    using assms by (subst take_4) simp_all
  then show ?thesis
    using assms(1) by (simp add: fips_W.simps [of _ t] word_of_be4 sha_word_def mult.commute)
qed

lemma sha_extend_fips:
  assumes "16 \<le> t"
  shows "sha_extend t (map (fips_W block) [0..<t]) = map (fips_W block) [0..<Suc t]"
proof -
  have "fips_W block t = fips_sigma1 (fips_W block (t - 2)) + fips_W block (t - 7) +
      fips_sigma0 (fips_W block (t - 15)) + fips_W block (t - 16)"
    using assms by (subst fips_W.simps) simp
  then show ?thesis
    using assms by (simp add: sha_extend_def Let_def rotr_word_rotr fips_sigma0_def fips_sigma1_def add_ac)
qed

lemma sha_schedule_fips:
  assumes "64 \<le> length chunk"
  shows "sha_schedule chunk = map (fips_W (take 64 chunk)) [0..<64]"
proof -
  let ?W = "fips_W (take 64 chunk)"
  have init: "map (sha_word chunk) [0..<16] = map ?W [0..<16]" using assms by (simp add: sha_word_fips)
  have "fold sha_extend [16..<16 + n] (map ?W [0..<16]) = map ?W [0..<16 + n]" for n
  proof (induction n)
    case (Suc n)
    have "[16..<16 + Suc n] = [16..<16 + n] @ [16 + n]"
      using upt_Suc_append [of 16 "16 + n"] by simp
    then show ?case
      using Suc.IH sha_extend_fips [of "16 + n"] by (simp only: fold_append fold_simps comp_apply add_Suc_right)
  qed simp
  from this [of 48] show ?thesis by (simp add: sha_schedule_def init)
qed

lemma sha_round_fips:
  "t < 64 \<Longrightarrow> sha_round (map (fips_W block) [0..<64]) t vars = fips_round block t vars"
  by (cases vars)
    (simp add: sha_round_def fips_round_def rotr_word_rotr fips_Sigma0_def fips_Sigma1_def fips_Ch_def
      fips_Maj_def sha_K_fips Let_def)

lemma sha_chunk_fips:
  assumes "chunk * 64 + 64 \<le> length padded" and "length H = 8"
  shows "sha_chunk padded chunk H = fips_block (take 64 (drop (chunk * 64) padded)) H"
proof -
  let ?block = "take 64 (drop (chunk * 64) padded)"
  have W: "sha_schedule (drop (chunk * 64) padded) = map (fips_W ?block) [0..<64]"
    using assms(1) by (intro sha_schedule_fips) simp
  have "fold (sha_round (map (fips_W ?block) [0..<64])) [0..<64] vars = fold (fips_round ?block) [0..<64] vars"
    for vars by (rule fold_cong) (auto simp: sha_round_fips)
  moreover obtain h0 h1 h2 h3 h4 h5 h6 h7 where "H = [h0, h1, h2, h3, h4, h5, h6, h7]"
    using assms(2) by (auto simp: length_Suc_conv numeral_eq_Suc)
  ultimately show ?thesis
    unfolding sha_chunk_def W by (simp add: fips_block_def Let_def add.commute split: prod.split)
qed

lemma sha_chunks_fips:
  "length H = 8 \<Longrightarrow> \<forall>i\<in>set is. i * 64 + 64 \<le> length padded \<Longrightarrow>
   fold (sha_chunk padded) is H = fold fips_block (map (\<lambda>i. take 64 (drop (i * 64) padded)) is) H"
  by (induction "is" arbitrary: H) (simp_all add: sha_chunk_fips [symmetric])

subsection \<open>The digest\<close>

lemma nat_to_hex_nonempty [simp]: "nat_to_hex n \<noteq> []"
  by (subst nat_to_hex.simps) simp

lemma setw_hex_digits:
  "n < 16 ^ Suc w \<Longrightarrow> setw_hex (Suc w) n = map (\<lambda>i. hex_digit (n div 16 ^ i mod 16)) (rev [0..<Suc w])"
proof (induction w arbitrary: n)
  case 0
  then show ?case by (simp add: setw_hex_def nat_to_hex.simps [of n])
next
  case (Suc w)
  have "n div 16 < 16 ^ Suc w" using Suc.prems by (simp add: less_mult_imp_div_less mult.commute)
  from Suc.IH [OF this]
  have IH: "setw_hex (Suc w) (n div 16) = map (\<lambda>i. hex_digit (n div 16 ^ Suc i mod 16)) (rev [0..<Suc w])"
    by (simp add: div_mult2_eq)
  have "setw_hex (Suc (Suc w)) n = setw_hex (Suc w) (n div 16) @ [hex_digit (n mod 16)]"
  proof (cases "n < 16")
    case True
    then show ?thesis by (simp add: setw_hex_def nat_to_hex.simps [of n] nat_to_hex.simps [of 0]
        replicate_append_same)
  next
    case False
    then show ?thesis by (simp add: setw_hex_def nat_to_hex.simps [of n])
  qed
  moreover have "rev [0..<Suc (Suc w)] = map Suc (rev [0..<Suc w]) @ [0]"
  proof -
    have "[0..<Suc (Suc w)] = 0 # map Suc [0..<Suc w]" unfolding map_Suc_upt
      by (rule upt_conv_Cons) simp
    then show ?thesis by (simp only: rev.simps rev_map)
  qed
  ultimately show ?case unfolding IH by (simp only: map_append map_map) (simp add: comp_def)
qed

lemma hex_of_be4: "hex_of_bytes (be_bytes 4 (unat (h :: u32))) = setw_hex 8 (unat h)"
proof -
  have byte: "setw_hex 2 (unat (word_of_nat n :: byte)) = [hex_digit (n div 16 mod 16), hex_digit (n mod 16)]" for n
  proof -
    have "setw_hex (Suc 1) (n mod 256) = map (\<lambda>i. hex_digit (n mod 256 div 16 ^ i mod 16)) (rev [0..<Suc 1])"
      by (intro setw_hex_digits) simp
    moreover have "n mod 256 div 16 = n div 16 mod 16" using mod_mult2_eq [of n 16 16] by simp
    moreover have "n mod 256 mod 16 = n mod 16" by (simp add: mod_mod_cancel)
    ultimately show ?thesis by (simp add: unat_of_nat numeral_2_eq_2)
  qed
  have "setw_hex (Suc 7) (unat h) = map (\<lambda>i. hex_digit (unat h div 16 ^ i mod 16)) (rev [0..<Suc 7])"
    using unsigned_less [of h, where ?'a = nat] by (intro setw_hex_digits) simp
  moreover have "rev [0..<Suc 7] = [7, 6, 5, 4, 3, 2, 1, 0]" "rev [0..<4] = [3, 2, 1, 0 :: nat]" by code_simp+
  ultimately show ?thesis
    using byte [of "unat h"] by (simp add: hex_of_bytes_def be_bytes_def byte flip: div_mult2_eq)
qed

text \<open>
  C11: the SHA-256 of the client is the SHA-256 of FIPS 180-4 in lower-case hexadecimal, for every input: the
  tables of constants are the roots of the standard, the padding loop stops with the padding of the standard,
  and the shifts, the array of words and the eight assignments of a round compute its schedule and its rounds.
\<close>

theorem sha256_is_fips180: "sha256 data = hex_of_bytes (fips_sha256 (bytes_of data))"
proof -
  let ?p = "fips_pad (bytes_of data)"
  have "length ?p * 8 div 512 = length ?p div 64" using div_mult_mult2 [of 8 "length ?p" 64] by simp
  moreover have "fold (sha_chunk ?p) [0..<length ?p div 64] sha_H0 = fold fips_block (fips_blocks ?p) fips_H0"
    unfolding fips_blocks_def sha_H0_fips [symmetric]
    by (rule sha_chunks_fips) (auto simp: sha_H0_def)
  moreover have "hex_of_bytes (concat (map (\<lambda>h. be_bytes 4 (unat h)) H)) = concat (map (\<lambda>h. setw_hex 8 (unat h)) H)"
    for H :: "u32 list" 
    by (induction H) (simp_all add: hex_of_bytes_def flip: hex_of_be4)
  ultimately show ?thesis by (simp add: sha256_def fips_sha256_def sha_pad_fips Let_def)
qed

end
