(* ===== verification/Native_Lib.thy ===== *)
theory Native_Lib
  imports Client_Socket Client_Serializer Client_Crypto
begin

text \<open>
  \<^verbatim>\<open>app/src/main/cpp/native-lib.cpp\<close>: the functions that the Java class \<^verbatim>\<open>NetworkManager\<close> calls, over the
  global objects of the library, and \<open>onDataReceived\<close>, which hands the messages of the receive thread to Java.
  The Java strings are those of the virtual machine, a parameter. \<open>None\<close> as the result of an operation is a
  call that does not return: it blocks, or the behaviour is undefined.
\<close>

subsection \<open>Java strings\<close>

text \<open>The two functions of the JNI environment on strings, for a type \<open>'j\<close> of non-null references.\<close>

record 'j jni_env =
  GetStringUTFChars :: "'j \<Rightarrow> string"
  NewStringUTF :: "string \<Rightarrow> 'j"

text \<open>
  What the JNI specification says of them: the bytes of a string have no NUL among them and determine it, and
  the characters 1 to 127 are their own bytes.
\<close>

definition ascii :: "char \<Rightarrow> bool" where
  "ascii c = (0 < (of_char c :: nat) \<and> (of_char c :: nat) < 128)"

definition jni_ok :: "'j jni_env \<Rightarrow> bool" where
  "jni_ok env \<longleftrightarrow>
     (\<forall>j. NewStringUTF env (GetStringUTFChars env j) = j) \<and>
     (\<forall>j. char_of (0 :: nat) \<notin> set (GetStringUTFChars env j)) \<and>
     (\<forall>s. list_all ascii s \<longrightarrow> GetStringUTFChars env (NewStringUTF env s) = s)"

definition jstringToString :: "'j jni_env \<Rightarrow> 'j option \<Rightarrow> string" where
  "jstringToString env jstr = (case jstr of None \<Rightarrow> [] | Some j \<Rightarrow> GetStringUTFChars env j)"

definition c_str :: "string \<Rightarrow> string" where
  "c_str s = takeWhile (\<lambda>c. c \<noteq> char_of (0 :: nat)) s"

definition stringToJstring :: "'j jni_env \<Rightarrow> string \<Rightarrow> 'j" where
  "stringToJstring env str = NewStringUTF env (c_str str)"

subsection \<open>Global objects\<close>

text \<open>
  The two objects without data are there or not. \<open>g_callbackObject\<close> is the reference to the Java object:
  \<open>Some True\<close> when its class has the method \<^verbatim>\<open>onMessageReceived\<close>. \<open>g_jvm\<close> is set by \<open>JNI_OnLoad\<close>.
\<close>

record native =
  g_socketManager :: "socket_manager option"
  g_protocolHandler :: bool
  g_cryptoUtils :: "crypto option"
  g_serializer :: bool
  g_jvm :: bool
  g_callbackObject :: "bool option"

definition native_start :: native where
  "native_start = \<lparr>g_socketManager = None, g_protocolHandler = False, g_cryptoUtils = None,
     g_serializer = False, g_jvm = False, g_callbackObject = None\<rparr>"

definition JNI_OnLoad :: "native \<Rightarrow> native" where
  "JNI_OnLoad n = n\<lparr>g_jvm := True\<rparr>"

text \<open>Dropping the old socket manager runs its destructor, which disconnects.\<close>

definition drop_socketManager :: "recv_ret option \<Rightarrow> native \<Rightarrow> bool" where
  "drop_socketManager next n =
     (case g_socketManager n of None \<Rightarrow> True | Some m \<Rightarrow> disconnect next m \<noteq> None)"

definition nativeInit :: "recv_ret option \<Rightarrow> native \<Rightarrow> native option" where
  "nativeInit next n =
     (if drop_socketManager next n
      then Some (n\<lparr>g_socketManager := Some new_socket_manager, g_protocolHandler := True,
                   g_cryptoUtils := Some new_crypto, g_serializer := True\<rparr>)
      else None)"

definition nativeDestroy :: "recv_ret option \<Rightarrow> native \<Rightarrow> native option" where
  "nativeDestroy next n =
     (let n = n\<lparr>g_callbackObject := None\<rparr> in
      if drop_socketManager next n
      then Some (n\<lparr>g_socketManager := None, g_protocolHandler := False, g_cryptoUtils := None,
                   g_serializer := False\<rparr>)
      else None)"

definition nativeSetCallback :: "bool option \<Rightarrow> native \<Rightarrow> native" where
  "nativeSetCallback callback n = n\<lparr>g_callbackObject := callback\<rparr>"

subsection \<open>The connection\<close>

text \<open>\<open>addr_ok host\<close> is whether \<^verbatim>\<open>inet_pton\<close> reads \<open>host\<close> as an address.\<close>

definition nativeConnect ::
  "'j jni_env \<Rightarrow> int \<Rightarrow> (string \<Rightarrow> bool) \<Rightarrow> bool \<Rightarrow> 'j option \<Rightarrow> native \<Rightarrow> (bool \<times> native) option" where
  "nativeConnect env fd addr_ok conn_ok host n =
     (case g_socketManager n of
        None \<Rightarrow> Some (False, n)
      | Some m \<Rightarrow>
          (case sm_connect fd (addr_ok (jstringToString env host)) conn_ok m of
             (conn, m) \<Rightarrow>
               if conn
               then (case startReceiveLoop m of
                       None \<Rightarrow> None
                     | Some m \<Rightarrow> Some (True, n\<lparr>g_socketManager := Some m\<rparr>))
               else Some (False, n\<lparr>g_socketManager := Some m\<rparr>)))"

definition nativeDisconnect :: "recv_ret option \<Rightarrow> native \<Rightarrow> native option" where
  "nativeDisconnect next n =
     (case g_socketManager n of
        None \<Rightarrow> Some n
      | Some m \<Rightarrow>
          (case disconnect next m of None \<Rightarrow> None | Some m \<Rightarrow> Some (n\<lparr>g_socketManager := Some m\<rparr>)))"

definition nativeIsConnected :: "native \<Rightarrow> bool" where
  "nativeIsConnected n = (case g_socketManager n of None \<Rightarrow> False | Some m \<Rightarrow> isConnected m)"

text \<open>\<open>messageType\<close> and \<open>userId\<close> are 32-bit \<^verbatim>\<open>jint\<close>s; the cast to the enumeration keeps the low byte.\<close>

definition nativeSendMessage ::
  "'j jni_env \<Rightarrow> u64 \<Rightarrow> int list \<Rightarrow> u32 \<Rightarrow> 'j option \<Rightarrow> u32 \<Rightarrow> native \<Rightarrow> (bool \<times> byte list \<times> native) option" where
  "nativeSendMessage env now script messageType payload userId n =
     (case g_socketManager n of
        None \<Rightarrow> Some (False, [], n)
      | Some m \<Rightarrow>
          if \<not> g_protocolHandler n then Some (False, [], n)
          else
            let message = createMessage now (ucast messageType) (jstringToString env payload) userId in
            (case sendData script message m of
               None \<Rightarrow> None
             | Some (sent, out, m) \<Rightarrow> Some (sent, out, n\<lparr>g_socketManager := Some m\<rparr>)))"

text \<open>
  The callback of the receive thread: the calls of \<^verbatim>\<open>onMessageReceived\<close> it makes, each with the type and the
  payload. An exception of the Java method is cleared.
\<close>

definition onDataReceived :: "'j jni_env \<Rightarrow> byte list \<Rightarrow> native \<Rightarrow> (int \<times> 'j) list option" where
  "onDataReceived env data n =
     (if \<not> g_jvm n then Some []
      else case g_callbackObject n of
          None \<Rightarrow> Some []
        | Some has_method \<Rightarrow>
            if \<not> g_protocolHandler n then None
            else
              (case parseMessage data of
                 P_over_read \<Rightarrow> None
               | P_false \<Rightarrow> Some []
               | P_true header payload \<Rightarrow>
                   Some (if has_method then [(uint (h_type header), stringToJstring env payload)] else [])))"

fun onDataReceived_all :: "'j jni_env \<Rightarrow> byte list list \<Rightarrow> native \<Rightarrow> (int \<times> 'j) list option" where
  "onDataReceived_all env [] n = Some []"
| "onDataReceived_all env (d # ds) n =
     (case onDataReceived env d n of
        None \<Rightarrow> None
      | Some calls \<Rightarrow> map_option (\<lambda>rest. calls @ rest) (onDataReceived_all env ds n))"

subsection \<open>Cryptography and serialization\<close>

definition nativeEncrypt ::
  "'j jni_env \<Rightarrow> (nat \<Rightarrow> byte) \<Rightarrow> 'j option \<Rightarrow> 'j option \<Rightarrow> native \<Rightarrow> 'j option \<times> native" where
  "nativeEncrypt env dis data key n =
     (case g_cryptoUtils n of
        None \<Rightarrow> (None, n)
      | Some c \<Rightarrow>
          (case encryptAES dis (bytes_of (jstringToString env data)) (jstringToString env key) c of
             (encrypted, c) \<Rightarrow>
               (Some (stringToJstring env (hex_of_bytes encrypted)), n\<lparr>g_cryptoUtils := Some c\<rparr>)))"

text \<open>The loop over the pairs of digits; an odd last digit is read alone.\<close>

fun hex_bytes :: "string \<Rightarrow> byte list" where
  "hex_bytes [] = []"
| "hex_bytes [a] = [word_of_int (strtol16 [a])]"
| "hex_bytes (a # b # hexStr) = word_of_int (strtol16 [a, b]) # hex_bytes hexStr"

definition nativeDecrypt ::
  "'j jni_env \<Rightarrow> (nat \<Rightarrow> byte) \<Rightarrow> 'j option \<Rightarrow> 'j option \<Rightarrow> native \<Rightarrow> 'j option \<times> native" where
  "nativeDecrypt env dis encryptedHex key n =
     (case g_cryptoUtils n of
        None \<Rightarrow> (None, n)
      | Some c \<Rightarrow>
          (case decryptAES dis (hex_bytes (jstringToString env encryptedHex)) (jstringToString env key) c of
             (decrypted, c) \<Rightarrow>
               (Some (stringToJstring env (string_of decrypted)), n\<lparr>g_cryptoUtils := Some c\<rparr>)))"

definition nativeSha256 :: "'j jni_env \<Rightarrow> 'j option \<Rightarrow> native \<Rightarrow> 'j option" where
  "nativeSha256 env data n =
     (if g_cryptoUtils n = None then None
      else Some (stringToJstring env (sha256 (jstringToString env data))))"

definition nativeSerializeLogin :: "'j jni_env \<Rightarrow> 'j option \<Rightarrow> 'j option \<Rightarrow> native \<Rightarrow> 'j option" where
  "nativeSerializeLogin env username password n =
     (if \<not> g_serializer n then None
      else Some (stringToJstring env
             (serializeLoginRequest (jstringToString env username) (jstringToString env password))))"

definition nativeSerializeRegister ::
  "'j jni_env \<Rightarrow> 'j option \<Rightarrow> 'j option \<Rightarrow> 'j option \<Rightarrow> native \<Rightarrow> 'j option" where
  "nativeSerializeRegister env username password email n =
     (if \<not> g_serializer n then None
      else Some (stringToJstring env
             (serializeRegisterRequest (jstringToString env username) (jstringToString env password)
               (jstringToString env email))))"

definition nativeSerializeChatMessage :: "'j jni_env \<Rightarrow> u32 \<Rightarrow> 'j option \<Rightarrow> native \<Rightarrow> 'j option" where
  "nativeSerializeChatMessage env recipientId message n =
     (if \<not> g_serializer n then None
      else Some (stringToJstring env (serializeChatMessage recipientId (jstringToString env message))))"

subsection \<open>The string functions\<close>

lemma c_str_id: "char_of (0 :: nat) \<notin> set s \<Longrightarrow> c_str s = s"
  by (induction s) (auto simp: c_str_def)

lemma jstring_roundtrip: "jni_ok env \<Longrightarrow> stringToJstring env (GetStringUTFChars env j) = j"
  by (simp add: stringToJstring_def c_str_id jni_ok_def)

lemma ascii_roundtrip:
  assumes "jni_ok env" and "list_all ascii s"
  shows "jstringToString env (Some (stringToJstring env s)) = s"
proof -
  have "char_of (0 :: nat) \<notin> set s" using assms(2) by (auto simp: list_all_iff ascii_def)
  with assms show ?thesis by (simp add: jstringToString_def stringToJstring_def c_str_id jni_ok_def)
qed

subsection \<open>Hexadecimal digits\<close>

lemma of_char_hex_digit: "d < 16 \<Longrightarrow> of_char (hex_digit d) = (if d < 10 then 48 + d else 87 + d :: nat)"
  by (simp add: hex_digit_def)

lemma hex_digit_neq: "d < 16 \<Longrightarrow> (of_char c :: nat) < 48 \<or> 102 < (of_char c :: nat) \<or> of_char c = (88 :: nat) \<Longrightarrow> hex_digit d \<noteq> c"
  by (auto dest!: arg_cong [of _ c "of_char :: char \<Rightarrow> nat"] simp: of_char_hex_digit split: if_splits)

lemma hex_digit_facts:
  assumes "d < 16"
  shows "hex_value (hex_digit d) = Some d" "ascii (hex_digit d)" "\<not> is_space (hex_digit d)"
    "hex_digit d \<noteq> CHR ''-''" "hex_digit d \<noteq> CHR ''+''" "hex_digit d \<noteq> CHR ''x''" "hex_digit d \<noteq> CHR ''X''"
  using assms
  by (simp_all add: hex_value_def ascii_def is_space_def of_char_hex_digit hex_digit_neq Let_def)

lemma setw_hex_byte: "setw_hex 2 (unat (b :: byte)) = [hex_digit (unat b div 16), hex_digit (unat b mod 16)]"
proof -
  have "unat b < 256" using unsigned_less [of b, where ?'a = nat] by simp
  then have "unat b div 16 < 16" by auto
  then show ?thesis
    by (simp add: setw_hex_def nat_to_hex.simps [of "unat b"] nat_to_hex.simps [of "unat b div 16"] hex_digit_0)
qed

lemma strtol16_byte: "strtol16 (setw_hex 2 (unat (b :: byte))) = uint b"
proof -
  have b: "unat b div 16 < 16" "unat b mod 16 < 16"
    using unsigned_less [of b, where ?'a = nat] by auto
  have "int (16 * (unat b div 16) + unat b mod 16) = uint b" by simp
  then show ?thesis
    by (simp add: setw_hex_byte strtol16_def Let_def is_xdigit_def xdigits_value_def
        hex_digit_facts [OF b(1)] hex_digit_facts [OF b(2)])
qed

lemma hex_bytes_hex: "hex_bytes (hex_of_bytes bs) = bs"
proof (induction bs)
  case (Cons b bs)
  have "strtol16 [hex_digit (unat b div 16), hex_digit (unat b mod 16)] = uint b"
    using strtol16_byte [of b] by (simp add: setw_hex_byte)
  with Cons show ?case by (simp add: hex_of_bytes_def setw_hex_byte)
qed (simp add: hex_of_bytes_def)

lemma hex_of_bytes_ascii: "list_all ascii (hex_of_bytes bs)"
proof (induction bs)
  case (Cons b bs)
  have "unat b div 16 < 16" "unat b mod 16 < 16" using unsigned_less [of b, where ?'a = nat] by auto
  with Cons show ?case by (simp add: hex_of_bytes_def setw_hex_byte hex_digit_facts)
qed (simp add: hex_of_bytes_def)

subsection \<open>Encryption between Java strings\<close>

text \<open>
  C22: a Java string that \<open>nativeEncrypt\<close> has encrypted is what \<open>nativeDecrypt\<close> with the same pass phrase gives
  back, with whatever random bytes the two calls draw, through the hexadecimal text in between and across
  other uses of the crypto object; a null string comes back empty.
\<close>

theorem native_decrypt_encrypt:
  assumes "jni_ok env" and "g_cryptoUtils n \<noteq> None" and "g_cryptoUtils n' \<noteq> None"
    and "nativeEncrypt env dis data key n = (enc, n1)"
  shows "fst (nativeDecrypt env dis' enc key n') = Some (case data of None \<Rightarrow> NewStringUTF env [] | Some j \<Rightarrow> j)"
proof -
  obtain c c' where c: "g_cryptoUtils n = Some c" "g_cryptoUtils n' = Some c'" using assms(2,3) by auto
  let ?bs = "bytes_of (jstringToString env data)" and ?k = "jstringToString env key"
  have enc: "enc = Some (stringToJstring env (hex_of_bytes (fst (encryptAES dis ?bs ?k c))))"
    using assms(4) c(1) by (auto simp: nativeEncrypt_def split: prod.splits)
  have "hex_bytes (jstringToString env enc) = fst (encryptAES dis ?bs ?k c)"
    unfolding enc by (simp add: ascii_roundtrip [OF assms(1) hex_of_bytes_ascii] hex_bytes_hex)
  then have "fst (nativeDecrypt env dis' enc key n') = Some (stringToJstring env (jstringToString env data))"
    using c(2) decrypt_encrypt [of dis' dis ?bs ?k c c'] by (auto simp: nativeDecrypt_def split: prod.splits)
  then show ?thesis
    by (cases data) (simp_all add: jstringToString_def jstring_roundtrip [OF assms(1)], simp add: stringToJstring_def c_str_def)
qed

subsection \<open>Messages between Java and the server\<close>

text \<open>
  When \<open>nativeSendMessage\<close> reports success, the server reads from the connection, however the network cuts
  it, one message with the type, the user id and the bytes of the Java string that were passed in, and what
  follows it is untouched.
\<close>

lemma native_send_reaches_server:
  assumes "nativeSendMessage env now script messageType payload userId n = Some (True, out, n1)"
    and "concat (segs k) = out @ rest" and "length (jstringToString env payload) < 2 ^ 32"
  shows "\<exists>h k'. read_frame k = (F_msg h (jstringToString env payload), k') \<and> concat (segs k') = rest \<and>
    h_type h = ucast messageType \<and> h_userId h = userId"
proof -
  have "out = frame now (ucast messageType) (jstringToString env payload) userId"
    using assms(1)
    by (auto simp: nativeSendMessage_def Let_def createMessage_frame split: option.splits if_splits dest!: sendData_True)
  with assms(2) have "stream k = frame now (ucast messageType) (jstringToString env payload) userId @ rest"
    by (simp add: stream_def)
  from read_frame_frame [OF this assms(3)] show ?thesis by (auto simp: stream_def)
qed

definition java_call :: "'j jni_env \<Rightarrow> server_msg \<Rightarrow> int \<times> 'j" where
  "java_call env = (\<lambda>(ts, ty, payload, userId). (uint ty, stringToJstring env payload))"

lemma onDataReceived_frames:
  assumes "g_jvm n" and "g_callbackObject n = Some True" and "g_protocolHandler n"
  shows "\<forall>x\<in>set ms. sendable x \<Longrightarrow> onDataReceived_all env (map frame_of ms) n = Some (map (java_call env) ms)"
proof (induction ms)
  case (Cons x ms)
  obtain ts ty payload userId where x: "x = (ts, ty, payload, userId)" by (cases x)
  with Cons.prems have "length payload < 2 ^ 32 - 32" by (simp add: sendable_def)
  from parse_frame [OF this] Cons assms x show ?case
    by (simp add: frame_of_def onDataReceived_def java_call_def)
qed simp

lemma nativeConnect_fresh:
  assumes "g_socketManager n = Some m" and "\<not> connected m" and "\<not> receiving m"
    and "nativeConnect env fd addr_ok conn_ok host n = Some (True, n1)"
  shows "\<exists>m1. n1 = n\<lparr>g_socketManager := Some m1\<rparr> \<and> connected m1 \<and> receiving m1 \<and> receiveThread m1 = Running"
  using assms by (auto simp: nativeConnect_def sm_connect_def startReceiveLoop_def split: if_splits option.splits)

text \<open>
  C17: after a successful \<open>nativeConnect\<close> on a socket manager that was neither connected nor receiving, with a
  callback object that has the method and a protocol handler, every message of the server (a payload below
  \<open>2\<^sup>3\<^sup>2 - 32\<close> bytes) reaches \<^verbatim>\<open>onMessageReceived\<close> exactly once, in order, with its type and its payload, however
  the network cuts the bytes; a message that is still incomplete is kept in the buffer.
\<close>

theorem server_messages_reach_java:
  assumes "g_jvm n" and "g_callbackObject n = Some True" and "g_protocolHandler n"
    and "g_socketManager n = Some m" and "\<not> connected m" and "\<not> receiving m"
    and "nativeConnect env fd addr_ok conn_ok host n = Some (True, n1)"
    and "\<forall>c\<in>set chunks. c \<noteq> []" and "\<forall>x\<in>set ms. sendable x"
    and "concat chunks = concat (map frame_of ms) @ part" and "length part < 32 \<or> length part < message_size part"
  shows "\<exists>m1 msgs. g_socketManager n1 = Some m1 \<and> receiveLoop (map R_data chunks) m1 [] = (msgs, m1, part) \<and>
    onDataReceived_all env msgs n1 = Some (map (java_call env) ms)"
proof -
  obtain m1 where m1: "n1 = n\<lparr>g_socketManager := Some m1\<rparr>" "connected m1" "receiving m1"
    using nativeConnect_fresh [OF assms(4-7)] by blast
  from receive_loop_reassembles [OF m1(3,2) assms(8-11)] m1(1)
    onDataReceived_frames [of n1 ms env] assms(1-3,9) show ?thesis by simp
qed

subsection \<open>Modified UTF-8\<close>

text \<open>
  An environment for the instances: Java strings as their 16-bit units, and the encoding of each unit in one
  to three bytes.
\<close>

type_synonym java_string = "16 word list"

definition unit_bytes :: "16 word \<Rightarrow> string" where
  "unit_bytes u =
     (let n = unat u in
      if 0 < n \<and> n < 128 then [char_of n]
      else if n < 2048 then [char_of (192 + n div 64), char_of (128 + n mod 64)]
      else [char_of (224 + n div 4096), char_of (128 + n div 64 mod 64), char_of (128 + n mod 64)])"

fun units_of :: "string \<Rightarrow> java_string" where
  "units_of [] = []"
| "units_of (c # cs) =
     (let a = (of_char c :: nat) in
      if a < 192 then word_of_nat a # units_of cs
      else if a < 224
        then (case cs of
                [] \<Rightarrow> []
              | b # cs' \<Rightarrow> word_of_nat ((a - 192) * 64 + (of_char b - 128)) # units_of cs')
      else (case cs of
              b # d # cs' \<Rightarrow>
                word_of_nat ((a - 224) * 4096 + (of_char b - 128) * 64 + (of_char d - 128)) # units_of cs'
            | _ \<Rightarrow> []))"

definition mutf8_env :: "java_string jni_env" where
  "mutf8_env = \<lparr>GetStringUTFChars = (\<lambda>j. concat (map unit_bytes j)), NewStringUTF = units_of\<rparr>"

lemma of_char_of [simp]: "n < 256 \<Longrightarrow> of_char (char_of n) = (n :: nat)"
  by simp

lemma units_of_unit: "units_of (unit_bytes u @ s) = u # units_of s"
proof -
  define n where "n = unat u"
  have u: "word_of_nat n = u" by (simp add: n_def)
  have n: "n < 65536" using unsigned_less [of u, where ?'a = nat] by (simp add: n_def)
  consider "0 < n \<and> n < 128" | "\<not> (0 < n \<and> n < 128)" "n < 2048" | "2048 \<le> n" by linarith
  then show ?thesis
  proof cases
    case 1
    then show ?thesis using u by (simp add: unit_bytes_def flip: n_def)
  next
    case 2
    then have "n div 64 < 32" by (simp add: less_mult_imp_div_less)
    with 2 u show ?thesis by (simp add: unit_bytes_def flip: n_def)
  next
    case 3
    have "n div 4096 < 16" using n by (simp add: less_mult_imp_div_less)
    moreover have "n div 4096 * 64 + n div 64 mod 64 = n div 64"
      using div_mult_mod_eq [of "n div 64" 64] by (simp flip: div_mult2_eq)
    then have "n div 4096 * 4096 + n div 64 mod 64 * 64 + n mod 64 = n"
      using div_mult_mod_eq [of n 64] by linarith
    moreover have "n div 64 mod 64 < 64" by simp
    ultimately show ?thesis using 3 u by (simp add: unit_bytes_def del: of_nat_add of_nat_mult flip: n_def)
  qed
qed

lemma unit_bytes_no_nul: "char_of (0 :: nat) \<notin> set (unit_bytes u)"
proof -
  have nz: "0 < k \<Longrightarrow> k < 256 \<Longrightarrow> char_of (0 :: nat) \<noteq> char_of k" for k :: nat
    by (metis mod_less nat_neq_iff of_char_of zero_less_numeral)
  have "unat u < 65536" using unsigned_less [of u, where ?'a = nat] by simp
  then have "unat u div 4096 < 16" by (simp add: less_mult_imp_div_less)
  moreover have "unat u div 64 mod 64 < 64" "unat u mod 64 < 64" by simp_all
  moreover have "unat u < 2048 \<Longrightarrow> unat u div 64 < 32" by (simp add: less_mult_imp_div_less)
  ultimately show ?thesis by (auto simp: unit_bytes_def Let_def dest: nz)
qed

lemma unit_bytes_ascii: "list_all ascii s \<Longrightarrow> concat (map unit_bytes (units_of s)) = s"
proof (induction s)
  case (Cons c s)
  then have "0 < (of_char c :: nat)" "(of_char c :: nat) < 128" by (simp_all add: ascii_def)
  with Cons show ?case by (simp add: unit_bytes_def unat_of_nat)
qed simp

lemma mutf8_ok: "jni_ok mutf8_env"
proof -
  have "units_of (concat (map unit_bytes j)) = j" for j by (induction j) (simp_all add: units_of_unit)
  then show ?thesis by (simp add: jni_ok_def mutf8_env_def unit_bytes_ascii unit_bytes_no_nul)
qed

subsection \<open>Instances\<close>

text \<open>The library after \<open>JNI_OnLoad\<close>, \<open>nativeInit\<close> and \<open>nativeSetCallback\<close>, and after a connection.\<close>

definition sample_native :: native where
  "sample_native = nativeSetCallback (Some True) (the (nativeInit None (JNI_OnLoad native_start)))"

definition sample_connected :: native where
  "sample_connected =
     sample_native\<lparr>g_socketManager := Some (sample_manager\<lparr>sockfd := 4, open_fds := [4]\<rparr>)\<rparr>"

lemmas sample_native_defs = sample_native_def nativeSetCallback_def nativeInit_def JNI_OnLoad_def
  native_start_def drop_socketManager_def new_socket_manager_def

theorem native_decrypt_encrypt_witness:
  "fst (nativeDecrypt mutf8_env (\<lambda>i. 9) (fst (nativeEncrypt mutf8_env word_of_nat (Some [0, 0x1EC7]) (Some [107]) sample_native))
     (Some [107]) sample_native) = Some [0, 0x1EC7]"
proof -
  have n: "g_cryptoUtils sample_native \<noteq> None" by (simp add: sample_native_defs)
  show ?thesis
    using native_decrypt_encrypt [OF mutf8_ok n n, of word_of_nat "Some [0, 0x1EC7]" "Some [107]"] by (metis option.simps(5) prod.collapse)
qed

theorem server_messages_reach_java_witness:
  "\<exists>m1 msgs. g_socketManager sample_connected = Some m1 \<and>
    receiveLoop (map R_data [sample_stream]) m1 [] = (msgs, m1, [0x43]) \<and>
    onDataReceived_all mutf8_env msgs sample_connected = Some [(0xF0, [111, 107]), (0x20, [104, 105])]"
proof -
  have conn: "nativeConnect mutf8_env 4 (\<lambda>h. True) True None sample_native = Some (True, sample_connected)"
    by code_simp
  have calls: "map (java_call mutf8_env) sample_msgs = [(0xF0, [111, 107]), (0x20, [104, 105])]"
    by code_simp
  have "length sample_stream = 69"
    by (simp add: sample_stream_def sample_msgs_def frame_of_def frame_slices)
  then have "\<forall>c\<in>set [sample_stream]. c \<noteq> []" by auto
  then have "\<exists>m1 msgs. g_socketManager sample_connected = Some m1 \<and>
      receiveLoop (map R_data [sample_stream]) m1 [] = (msgs, m1, [0x43]) \<and>
      onDataReceived_all mutf8_env msgs sample_connected = Some (map (java_call mutf8_env) sample_msgs)"
    by (intro server_messages_reach_java [OF _ _ _ _ _ _ conn, of new_socket_manager])
      (simp_all add: sample_native_defs sample_msgs_def sendable_def sample_stream_def)
  then show ?thesis unfolding calls .
qed

end
