(* ===== verification/Client_Machine.thy ===== *)
theory Client_Machine
  imports Native_Lib
begin

text \<open>
  The client library as a concurrent program: one Java thread that calls the functions of \<^verbatim>\<open>native-lib.cpp\<close>
  one after the other, and the receive thread of \<^verbatim>\<open>socket_manager.cpp\<close>, which runs \<^verbatim>\<open>receiveLoop\<close> and the
  callback \<^verbatim>\<open>onDataReceived\<close>. The threads share the global objects of the library, without a lock; a step is
  one access of the receive thread to what they share (the calls into Java are one step), or a call of the Java thread up to the point where it
  waits for the receive thread to end.
\<close>

subsection \<open>State\<close>

text \<open>
  Where the receive thread is: before the condition of the outer loop, in \<^verbatim>\<open>recv\<close>, before the condition of the
  inner loop, or in the callback with the bytes \<open>data\<close> of one message: before the test of \<open>g_callbackObject\<close>,
  before the use of \<open>g_protocolHandler\<close>, or before the calls into Java.
\<close>

datatype worker =
    Absent
  | At_loop
  | In_recv
  | At_buffer
  | At_check "byte list"
  | At_parse "byte list"
  | At_invoke "byte list" header string
  | Ended

text \<open>Whether the Java thread waits in \<^verbatim>\<open>receiveThread.join()\<close>, and in which call.\<close>

datatype caller = Idle | Join_disconnect | Join_init | Join_destroy

text \<open>
  What ends the process: a null \<open>g_protocolHandler\<close> or \<open>g_callbackObject\<close> is used, \<open>parseMessage\<close> reads past
  the message, or a joinable \<^verbatim>\<open>std::thread\<close> is assigned or destroyed.
\<close>

datatype fault = Null_handler | Null_callback | Over_read | Terminated

text \<open>
  \<open>dying\<close> is the socket manager whose destructor runs: \<^verbatim>\<open>std::unique_ptr\<close> stores its new value first and
  destroys the old object then. \<open>java_calls\<close> are the calls of \<^verbatim>\<open>onMessageReceived\<close>.
\<close>

record 'j machine =
  lib :: native
  dying :: "socket_manager option"
  caller :: caller
  worker :: worker
  messageBuffer :: "byte list"
  java_calls :: "(int \<times> 'j) list"
  fault :: "fault option"

definition machine_start :: "'j machine" where
  "machine_start =
     \<lparr>lib = JNI_OnLoad native_start, dying = None, caller = Idle, worker = Absent, messageBuffer = [],
      java_calls = [], fault = None\<rparr>"

text \<open>The socket manager on which the receive thread runs and which the Java thread stops.\<close>

definition owner :: "'j machine \<Rightarrow> socket_manager option" where
  "owner c = (case dying c of None \<Rightarrow> g_socketManager (lib c) | Some m \<Rightarrow> Some m)"

definition at_owner :: "(socket_manager \<Rightarrow> socket_manager) \<Rightarrow> 'j machine \<Rightarrow> 'j machine" where
  "at_owner f c =
     (case dying c of
        None \<Rightarrow> c\<lparr>lib := lib c\<lparr>g_socketManager := map_option f (g_socketManager (lib c))\<rparr>\<rparr>
      | Some m \<Rightarrow> c\<lparr>dying := Some (f m)\<rparr>)"

definition fails :: "fault \<Rightarrow> 'j machine \<Rightarrow> 'j machine" where
  "fails f c = c\<lparr>fault := Some f\<rparr>"

subsection \<open>The Java thread\<close>

text \<open>The second half of \<^verbatim>\<open>disconnect\<close>.\<close>

definition close_socket :: "socket_manager \<Rightarrow> socket_manager" where
  "close_socket m =
     (if 0 \<le> sockfd m
      then m\<lparr>open_fds := removeAll (sockfd m) (open_fds m), sockfd := - 1, connected := False\<rparr>
      else m\<lparr>connected := False\<rparr>)"

text \<open>The end of the destructor, which destroys the \<^verbatim>\<open>std::thread\<close>.\<close>

definition destroy_manager :: "'j machine \<Rightarrow> 'j machine" where
  "destroy_manager c =
     (case dying c of
        None \<Rightarrow> c
      | Some m \<Rightarrow> if receiveThread m = No_thread then c\<lparr>dying := None\<rparr> else fails Terminated c)"

definition install_objects :: "'j machine \<Rightarrow> 'j machine" where
  "install_objects c =
     c\<lparr>lib := lib c\<lparr>g_protocolHandler := True, g_cryptoUtils := Some new_crypto, g_serializer := True\<rparr>, caller := Idle\<rparr>"

definition reset_objects :: "'j machine \<Rightarrow> 'j machine" where
  "reset_objects c =
     c\<lparr>lib := lib c\<lparr>g_protocolHandler := False, g_cryptoUtils := None, g_serializer := False\<rparr>, caller := Idle\<rparr>"

text \<open>What a call still does once the receive loop is stopped.\<close>

fun finish :: "caller \<Rightarrow> 'j machine \<Rightarrow> 'j machine" where
  "finish Idle c = c"
| "finish Join_disconnect c = (at_owner close_socket c)\<lparr>caller := Idle\<rparr>"
| "finish Join_init c = install_objects (destroy_manager (at_owner close_socket c))"
| "finish Join_destroy c = reset_objects (destroy_manager (at_owner close_socket c))"

text \<open>\<^verbatim>\<open>stopReceiveLoop\<close> on the owner, in the call \<open>k\<close>.\<close>

definition stop :: "caller \<Rightarrow> 'j machine \<Rightarrow> 'j machine" where
  "stop k c =
     (case owner c of
        None \<Rightarrow> finish k c
      | Some m \<Rightarrow>
          if \<not> receiving m then finish k c
          else
            let c = at_owner (\<lambda>m. m\<lparr>receiving := False\<rparr>) c in
            if receiveThread m = No_thread then finish k c else c\<lparr>caller := k\<rparr>)"

definition call_init :: "'j machine \<Rightarrow> 'j machine" where
  "call_init c =
     (let c' = c\<lparr>lib := lib c\<lparr>g_socketManager := Some new_socket_manager\<rparr>\<rparr> in
      case g_socketManager (lib c) of
        None \<Rightarrow> install_objects c'
      | Some m \<Rightarrow> stop Join_init (c'\<lparr>dying := Some m\<rparr>))"

definition call_destroy :: "'j machine \<Rightarrow> 'j machine" where
  "call_destroy c =
     (let c' = c\<lparr>lib := lib c\<lparr>g_callbackObject := None, g_socketManager := None\<rparr>\<rparr> in
      case g_socketManager (lib c) of
        None \<Rightarrow> reset_objects c'
      | Some m \<Rightarrow> stop Join_destroy (c'\<lparr>dying := Some m\<rparr>))"

definition call_disconnect :: "'j machine \<Rightarrow> 'j machine" where
  "call_disconnect c = (if g_socketManager (lib c) = None then c else stop Join_disconnect c)"

text \<open>\<open>nativeConnect\<close>; the new thread starts with an empty buffer.\<close>

definition call_connect ::
  "'j jni_env \<Rightarrow> int \<Rightarrow> (string \<Rightarrow> bool) \<Rightarrow> bool \<Rightarrow> 'j option \<Rightarrow> 'j machine \<Rightarrow> 'j machine" where
  "call_connect env fd addr_ok conn_ok host c =
     (case nativeConnect env fd addr_ok conn_ok host (lib c) of
        None \<Rightarrow> fails Terminated c
      | Some (ok, n) \<Rightarrow>
          let starts = (ok \<and> (case g_socketManager (lib c) of None \<Rightarrow> False | Some m \<Rightarrow> \<not> receiving m)) in
          if starts then c\<lparr>lib := n, worker := At_loop, messageBuffer := []\<rparr> else c\<lparr>lib := n\<rparr>)"

definition call_join :: "'j machine \<Rightarrow> 'j machine" where
  "call_join c = finish (caller c) (at_owner (\<lambda>m. m\<lparr>receiveThread := No_thread\<rparr>) (c\<lparr>worker := Absent\<rparr>))"

subsection \<open>The receive thread\<close>

definition loop_test :: "'j machine \<Rightarrow> 'j machine" where
  "loop_test c =
     (case owner c of
        None \<Rightarrow> c
      | Some m \<Rightarrow>
          if receiving m \<and> connected m then c\<lparr>worker := In_recv\<rparr>
          else at_owner (\<lambda>m. m\<lparr>receiveThread := Finished\<rparr>) (c\<lparr>worker := Ended\<rparr>))"

definition recv_closed :: "'j machine \<Rightarrow> 'j machine" where
  "recv_closed c = at_owner (\<lambda>m. m\<lparr>connected := False, receiveThread := Finished\<rparr>) (c\<lparr>worker := Ended\<rparr>)"

definition buffer_test :: "'j machine \<Rightarrow> 'j machine" where
  "buffer_test c =
     (let buf = messageBuffer c in
      if 32 \<le> length buf \<and> message_size buf \<le> length buf
      then c\<lparr>worker := At_check (take (message_size buf) buf)\<rparr>
      else c\<lparr>worker := At_loop\<rparr>)"

text \<open>The callback has returned: the message is erased.\<close>

definition processed :: "byte list \<Rightarrow> 'j machine \<Rightarrow> 'j machine" where
  "processed data c = c\<lparr>messageBuffer := drop (length data) (messageBuffer c), worker := At_buffer\<rparr>"

definition callback_test :: "byte list \<Rightarrow> 'j machine \<Rightarrow> 'j machine" where
  "callback_test data c =
     (if \<not> g_jvm (lib c) \<or> g_callbackObject (lib c) = None then processed data c
      else c\<lparr>worker := At_parse data\<rparr>)"

definition parse_data :: "byte list \<Rightarrow> 'j machine \<Rightarrow> 'j machine" where
  "parse_data data c =
     (if \<not> g_protocolHandler (lib c) then fails Null_handler c
      else case parseMessage data of
          P_over_read \<Rightarrow> fails Over_read c
        | P_false \<Rightarrow> processed data c
        | P_true h payload \<Rightarrow> c\<lparr>worker := At_invoke data h payload\<rparr>)"

definition invoke_java :: "'j jni_env \<Rightarrow> byte list \<Rightarrow> header \<Rightarrow> string \<Rightarrow> 'j machine \<Rightarrow> 'j machine" where
  "invoke_java env data h payload c =
     (case g_callbackObject (lib c) of
        None \<Rightarrow> fails Null_callback c
      | Some has_method \<Rightarrow>
          processed data
            (if has_method
             then c\<lparr>java_calls := java_calls c @ [(uint (h_type h), stringToJstring env payload)]\<rparr> else c))"

subsection \<open>Steps\<close>

text \<open>The steps of the receive thread.\<close>

inductive worker_step :: "'j jni_env \<Rightarrow> 'j machine \<Rightarrow> 'j machine \<Rightarrow> bool" for env where
  w_loop: "fault c = None \<Longrightarrow> worker c = At_loop \<Longrightarrow> worker_step env c (loop_test c)"
| w_data: "fault c = None \<Longrightarrow> worker c = In_recv \<Longrightarrow> bs \<noteq> [] \<Longrightarrow>
    worker_step env c (c\<lparr>messageBuffer := messageBuffer c @ bs, worker := At_buffer\<rparr>)"
| w_closed: "fault c = None \<Longrightarrow> worker c = In_recv \<Longrightarrow> worker_step env c (recv_closed c)"
| w_buffer: "fault c = None \<Longrightarrow> worker c = At_buffer \<Longrightarrow> worker_step env c (buffer_test c)"
| w_check: "fault c = None \<Longrightarrow> worker c = At_check data \<Longrightarrow> worker_step env c (callback_test data c)"
| w_parse: "fault c = None \<Longrightarrow> worker c = At_parse data \<Longrightarrow> worker_step env c (parse_data data c)"
| w_invoke: "fault c = None \<Longrightarrow> worker c = At_invoke data h payload \<Longrightarrow>
    worker_step env c (invoke_java env data h payload c)"

text \<open>The steps of both threads.\<close>

inductive machine_step :: "'j jni_env \<Rightarrow> 'j machine \<Rightarrow> 'j machine \<Rightarrow> bool" for env where
  m_worker: "worker_step env c c' \<Longrightarrow> machine_step env c c'"
| m_init: "fault c = None \<Longrightarrow> caller c = Idle \<Longrightarrow> machine_step env c (call_init c)"
| m_destroy: "fault c = None \<Longrightarrow> caller c = Idle \<Longrightarrow> machine_step env c (call_destroy c)"
| m_callback: "fault c = None \<Longrightarrow> caller c = Idle \<Longrightarrow>
    machine_step env c (c\<lparr>lib := nativeSetCallback callback (lib c)\<rparr>)"
| m_connect: "fault c = None \<Longrightarrow> caller c = Idle \<Longrightarrow>
    machine_step env c (call_connect env fd addr_ok conn_ok host c)"
| m_disconnect: "fault c = None \<Longrightarrow> caller c = Idle \<Longrightarrow> machine_step env c (call_disconnect c)"
| m_send: "fault c = None \<Longrightarrow> caller c = Idle \<Longrightarrow>
    nativeSendMessage env now script ty payload userId (lib c) = Some (sent, out, n) \<Longrightarrow>
    machine_step env c (c\<lparr>lib := n\<rparr>)"
| m_join: "fault c = None \<Longrightarrow> caller c \<noteq> Idle \<Longrightarrow> worker c = Ended \<Longrightarrow> machine_step env c (call_join c)"

definition machine_reachable :: "'j jni_env \<Rightarrow> 'j machine \<Rightarrow> bool" where
  "machine_reachable env c \<longleftrightarrow> (machine_step env)\<^sup>*\<^sup>* machine_start c"

subsection \<open>The invariant\<close>

text \<open>The member \<^verbatim>\<open>receiveThread\<close> of the owner describes the receive thread.\<close>

fun describes :: "thread_state \<Rightarrow> worker \<Rightarrow> bool" where
  "describes No_thread w = (w = Absent)"
| "describes Running w = (w \<noteq> Absent \<and> w \<noteq> Ended)"
| "describes Finished w = (w = Ended)"

definition whole :: "byte list \<Rightarrow> bool" where
  "whole data \<longleftrightarrow> 32 \<le> length data \<and> message_size data \<le> length data"

fun worker_data :: "worker \<Rightarrow> bool" where
  "worker_data (At_check data) = whole data"
| "worker_data (At_parse data) = whole data"
| "worker_data (At_invoke data h payload) = whole data"
| "worker_data w = True"

definition waits_for :: "socket_manager \<Rightarrow> worker \<Rightarrow> bool" where
  "waits_for m w \<longleftrightarrow> \<not> receiving m \<and> receiveThread m \<noteq> No_thread \<and> describes (receiveThread m) w"

fun caller_ok :: "caller \<Rightarrow> 'j machine \<Rightarrow> bool" where
  "caller_ok Idle c \<longleftrightarrow> dying c = None \<and>
     (case g_socketManager (lib c) of
        None \<Rightarrow> worker c = Absent
      | Some m \<Rightarrow> g_protocolHandler (lib c) \<and> (receiving m \<longleftrightarrow> receiveThread m \<noteq> No_thread) \<and>
          describes (receiveThread m) (worker c))"
| "caller_ok Join_disconnect c \<longleftrightarrow> dying c = None \<and> g_protocolHandler (lib c) \<and>
     (case g_socketManager (lib c) of None \<Rightarrow> False | Some m \<Rightarrow> waits_for m (worker c))"
| "caller_ok Join_init c \<longleftrightarrow> g_protocolHandler (lib c) \<and> g_socketManager (lib c) = Some new_socket_manager \<and>
     (case dying c of None \<Rightarrow> False | Some m \<Rightarrow> waits_for m (worker c))"
| "caller_ok Join_destroy c \<longleftrightarrow> g_protocolHandler (lib c) \<and> g_socketManager (lib c) = None \<and>
     (case dying c of None \<Rightarrow> False | Some m \<Rightarrow> waits_for m (worker c))"

definition machine_ok :: "'j machine \<Rightarrow> bool" where
  "machine_ok c \<longleftrightarrow> caller_ok (caller c) c \<and> worker_data (worker c) \<and> fault c \<in> {None, Some Null_callback}"

subsection \<open>Every step keeps the invariant\<close>

lemma whole_message: "32 \<le> length buf \<Longrightarrow> message_size buf \<le> length buf \<Longrightarrow> whole (take (message_size buf) buf)"
proof -
  assume len: "32 \<le> length buf" "message_size buf \<le> length buf"
  then have "length (take (message_size buf) buf) = message_size buf" by simp
  moreover have "32 \<le> message_size buf" by (simp add: message_size_sum)
  moreover have "message_size (take (message_size buf) buf @ drop (message_size buf) buf) =
      message_size (take (message_size buf) buf)"
    using calculation by (intro message_size_append) (simp only:)
  ultimately show ?thesis by (simp add: whole_def)
qed

text \<open>A message that the receive loop has cut out is never read past its end.\<close>

lemma whole_no_over_read: "whole data \<Longrightarrow> parseMessage data \<noteq> P_over_read"
  by (auto simp: whole_def message_size_sum announced_length_def parseMessage_def Let_def)

lemma describes_active: "w \<noteq> Absent \<Longrightarrow> w \<noteq> Ended \<Longrightarrow> describes t w \<longleftrightarrow> t = Running"
  by (cases t) simp_all

lemma caller_ok_owner: "machine_ok c \<Longrightarrow> worker c \<noteq> Absent \<Longrightarrow> worker c \<noteq> Ended \<Longrightarrow>
    g_protocolHandler (lib c) \<and> (\<exists>m. owner c = Some m \<and> receiveThread m = Running)"
  by (cases "caller c"; cases "dying c"; cases "g_socketManager (lib c)")
    (auto simp: machine_ok_def owner_def waits_for_def describes_active split: option.splits)

text \<open>A step inside the loop changes neither the owner nor the objects.\<close>

lemma caller_ok_moves:
  assumes "caller_ok k c" and "worker c \<noteq> Absent" and "worker c \<noteq> Ended" and "w \<noteq> Absent" and "w \<noteq> Ended"
  shows "caller_ok k (c\<lparr>worker := w\<rparr>)" "caller_ok k (c\<lparr>worker := w, messageBuffer := b\<rparr>)"
  using assms by (cases k; auto simp: waits_for_def describes_active split: option.splits)+

lemma caller_ok_fields [simp]:
  "caller_ok k (c\<lparr>messageBuffer := b\<rparr>) = caller_ok k c" "caller_ok k (c\<lparr>java_calls := j\<rparr>) = caller_ok k c"
  "caller_ok k (c\<lparr>fault := f\<rparr>) = caller_ok k c"
  by (cases k, simp_all split: option.split)+

text \<open>The receive thread leaves its loop.\<close>

lemma caller_ok_ends:
  assumes "caller_ok k c" and "worker c \<noteq> Absent" and "worker c \<noteq> Ended"
    and "\<And>m. receiveThread (f m) = Finished \<and> receiving (f m) = receiving m"
  shows "caller_ok k (at_owner f (c\<lparr>worker := Ended\<rparr>))"
  using assms by (cases k) (auto simp: at_owner_def waits_for_def describes_active split: option.splits)

lemma at_owner_frame [simp]:
  "caller (at_owner f c) = caller c" "worker (at_owner f c) = worker c" "fault (at_owner f c) = fault c"
  by (simp_all add: at_owner_def split: option.split)

lemma worker_step_ok:
  assumes "worker_step env c c'" and "machine_ok c"
  shows "machine_ok c'"
  using assms
proof (cases rule: worker_step.cases)
  case w_loop
  with caller_ok_owner [OF assms(2)] assms(2) show ?thesis
    by (auto simp: machine_ok_def loop_test_def caller_ok_moves caller_ok_ends)
next
  case (w_data bs)
  with assms(2) show ?thesis by (auto simp: machine_ok_def caller_ok_moves)
next
  case w_closed
  with assms(2) show ?thesis by (auto simp: machine_ok_def recv_closed_def caller_ok_ends)
next
  case w_buffer
  with assms(2) show ?thesis by (auto simp: machine_ok_def buffer_test_def Let_def whole_message caller_ok_moves)
next
  case (w_check data)
  with assms(2) show ?thesis by (auto simp: machine_ok_def callback_test_def processed_def caller_ok_moves)
next
  case (w_parse data)
  with caller_ok_owner [OF assms(2)] assms(2) whole_no_over_read [of data] show ?thesis
    by (auto simp: machine_ok_def parse_data_def processed_def caller_ok_moves split: parsed.split)
next
  case (w_invoke data h payload)
  with assms(2) show ?thesis
    by (auto simp: machine_ok_def invoke_java_def fails_def processed_def caller_ok_moves split: option.split)
qed

lemma stop_ok:
  assumes "k \<noteq> Idle" and "fault c = None" and "worker_data (worker c)" and "owner c = Some m"
    and "g_protocolHandler (lib c)" and "receiving m \<longleftrightarrow> receiveThread m \<noteq> No_thread"
    and "describes (receiveThread m) (worker c)"
    and "case k of Join_disconnect \<Rightarrow> dying c = None
      | Join_init \<Rightarrow> dying c = Some m \<and> g_socketManager (lib c) = Some new_socket_manager
      | Join_destroy \<Rightarrow> dying c = Some m \<and> g_socketManager (lib c) = None"
  shows "machine_ok (stop k c)"
  using assms
  by (cases k)
    (auto simp: stop_def machine_ok_def owner_def at_owner_def Let_def waits_for_def close_socket_def
      destroy_manager_def install_objects_def reset_objects_def fails_def new_socket_manager_def split: option.splits)

text \<open>A call of the Java thread from an idle state.\<close>

lemma idle_cases:
  assumes "machine_ok c" and "caller c = Idle"
  obtains "g_socketManager (lib c) = None" "dying c = None" "worker c = Absent"
  | m where "g_socketManager (lib c) = Some m" "dying c = None" "g_protocolHandler (lib c)"
      "receiving m \<longleftrightarrow> receiveThread m \<noteq> No_thread" "describes (receiveThread m) (worker c)"
  using assms by (auto simp: machine_ok_def split: option.splits)

lemma calls_ok:
  assumes "machine_ok c" and "caller c = Idle" and "fault c = None"
  shows "machine_ok (call_init c)" "machine_ok (call_destroy c)" "machine_ok (call_disconnect c)"
proof -
  have data: "worker_data (worker c)" using assms(1) by (simp add: machine_ok_def)
  show "machine_ok (call_init c)"
    using assms(1,2)
  proof (cases rule: idle_cases)
    case 1
    with assms show ?thesis
      by (simp add: call_init_def Let_def install_objects_def machine_ok_def new_socket_manager_def)
  next
    case (2 m)
    with assms data show ?thesis by (auto simp: call_init_def Let_def owner_def intro!: stop_ok)
  qed
  show "machine_ok (call_destroy c)"
    using assms(1,2)
  proof (cases rule: idle_cases)
    case 1
    with assms show ?thesis by (simp add: call_destroy_def Let_def reset_objects_def machine_ok_def)
  next
    case (2 m)
    with assms data show ?thesis by (auto simp: call_destroy_def Let_def owner_def intro!: stop_ok)
  qed
  show "machine_ok (call_disconnect c)"
    using assms(1,2)
  proof (cases rule: idle_cases)
    case 1
    with assms show ?thesis by (simp add: call_disconnect_def)
  next
    case (2 m)
    with assms data show ?thesis by (auto simp: call_disconnect_def owner_def intro!: stop_ok)
  qed
qed

lemma connect_ok:
  assumes "machine_ok c" and "caller c = Idle" and "fault c = None"
  shows "machine_ok (call_connect env fd addr_ok conn_ok host c)"
  using assms(1,2)
proof (cases rule: idle_cases)
  case 1
  then have "call_connect env fd addr_ok conn_ok host c = c"
    by (simp add: call_connect_def nativeConnect_def Let_def)
  with assms(1) show ?thesis by simp
next
  case (2 m)
  obtain ok m' where conn: "sm_connect fd (addr_ok (jstringToString env host)) conn_ok m = (ok, m')"
    by (cases "sm_connect fd (addr_ok (jstringToString env host)) conn_ok m")
  have m': "receiving m' = receiving m" "receiveThread m' = receiveThread m"
    using conn by (auto simp: sm_connect_def split: if_splits)
  from 2 m' conn assms show ?thesis
    by (auto simp: call_connect_def nativeConnect_def startReceiveLoop_def machine_ok_def Let_def)
qed

lemma join_ok:
  assumes "machine_ok c" and "caller c \<noteq> Idle" and "worker c = Ended" and "fault c = None"
  shows "machine_ok (call_join c)"
  using assms
  by (cases "caller c")
    (auto simp: call_join_def machine_ok_def at_owner_def waits_for_def close_socket_def destroy_manager_def
      install_objects_def reset_objects_def fails_def new_socket_manager_def split: option.splits)

lemma send_keeps_manager:
  assumes "nativeSendMessage env now script ty payload userId n = Some (sent, out, n')"
  shows "g_protocolHandler n' = g_protocolHandler n \<and>
    (case g_socketManager n of
       None \<Rightarrow> g_socketManager n' = None
     | Some m \<Rightarrow> \<exists>m'. g_socketManager n' = Some m' \<and> receiving m' = receiving m \<and> receiveThread m' = receiveThread m)"
  using assms by (auto simp: nativeSendMessage_def sendData_def Let_def split: option.splits if_splits)

lemma machine_step_ok:
  assumes "machine_step env c c'" and "machine_ok c"
  shows "machine_ok c'"
  using assms
proof (cases rule: machine_step.cases)
  case (m_send now script ty payload userId sent out n)
  with send_keeps_manager [OF m_send(4)] assms(2) show ?thesis
    by (auto simp: machine_ok_def split: option.splits)
qed (auto simp: worker_step_ok calls_ok connect_ok join_ok, auto simp: machine_ok_def nativeSetCallback_def split: option.splits)

lemma machine_start_ok: "machine_ok machine_start"
  by (simp add: machine_ok_def machine_start_def JNI_OnLoad_def native_start_def)

lemma machine_reachable_ok: "machine_reachable env c \<Longrightarrow> machine_ok c"
  unfolding machine_reachable_def
  by (induction rule: rtranclp_induct) (auto simp: machine_start_ok machine_step_ok)

text \<open>
  C12: whatever functions the Java thread calls, and however their steps interleave with the receive thread and
  the arriving data, the receive thread never uses a protocol handler that \<open>nativeDestroy\<close> has freed, never
  reads past a message, and no joinable thread is ever assigned or destroyed, so \<^verbatim>\<open>std::terminate\<close> is not
  called; and as long as the thread is in its loop its socket manager is alive.
\<close>

theorem receive_thread_safe:
  assumes "machine_reachable env c"
  shows "fault c \<noteq> Some Null_handler \<and> fault c \<noteq> Some Over_read \<and> fault c \<noteq> Some Terminated \<and>
    (worker c \<noteq> Absent \<and> worker c \<noteq> Ended \<longrightarrow> (\<exists>m. owner c = Some m \<and> receiveThread m = Running))"
  using machine_reachable_ok [OF assms] caller_ok_owner [of c] by (auto simp: machine_ok_def)

subsection \<open>Waiting for the receive thread\<close>

text \<open>
  How far the receive thread is from its end once it has been told to stop: a \<^verbatim>\<open>recv\<close> it is still in counts
  first, because of the bytes it may bring, then the steps left for what is in the buffer.
\<close>

fun togo :: "worker \<Rightarrow> byte list \<Rightarrow> nat" where
  "togo At_loop buf = 1"
| "togo At_buffer buf = 4 * length buf + 2"
| "togo (At_check data) buf = 4 * (length buf - length data) + 5"
| "togo (At_parse data) buf = 4 * (length buf - length data) + 4"
| "togo (At_invoke data h payload) buf = 4 * (length buf - length data) + 3"
| "togo w buf = 0"

definition distance :: "'j machine \<Rightarrow> nat \<times> nat" where
  "distance c = (of_bool (worker c = In_recv), togo (worker c) (messageBuffer c))"

abbreviation closer :: "((nat \<times> nat) \<times> (nat \<times> nat)) set" where
  "closer \<equiv> less_than <*lex*> less_than"

lemma joining_owner:
  assumes "machine_ok c" and "caller c \<noteq> Idle"
  obtains m where "owner c = Some m" "\<not> receiving m" "describes (receiveThread m) (worker c)" "worker c \<noteq> Absent"
  using assms
  by (cases "caller c")
    (auto simp: machine_ok_def owner_def waits_for_def split: option.splits elim!: describes.elims)

text \<open>Whatever step the thread takes, it comes closer to its end, unless it stops at a freed callback object.\<close>

lemma joining_step:
  assumes "worker_step env c c'" and "machine_ok c" and "caller c \<noteq> Idle"
  shows "caller c' = caller c \<and> (fault c' = Some Null_callback \<or> fault c' = None \<and> (distance c', distance c) \<in> closer)"
  using assms(1)
proof (cases rule: worker_step.cases)
  case w_loop
  obtain m where "owner c = Some m" "\<not> receiving m" using joining_owner [OF assms(2,3)] by metis
  with w_loop show ?thesis by (simp add: loop_test_def distance_def)
next
  case w_buffer
  have "32 \<le> message_size (messageBuffer c)" by (simp add: message_size_sum)
  with w_buffer show ?thesis by (auto simp: buffer_test_def distance_def Let_def)
next
  case (w_parse data)
  have "g_protocolHandler (lib c)" using caller_ok_owner [OF assms(2)] w_parse by simp
  moreover have "parseMessage data \<noteq> P_over_read"
    using assms(2) w_parse by (intro whole_no_over_read) (simp add: machine_ok_def)
  ultimately show ?thesis using w_parse by (simp add: parse_data_def processed_def distance_def split: parsed.split)
qed (simp_all add: recv_closed_def callback_test_def invoke_java_def processed_def fails_def distance_def split: option.split)

lemma joining_goes_on:
  assumes "machine_ok c" and "caller c \<noteq> Idle" and "fault c = None"
  shows "\<exists>c'. machine_step env c c'"
proof (cases "worker c")
  case Absent
  with joining_owner [OF assms(1,2)] show ?thesis by metis
next
  case Ended
  with m_join [OF assms(3,2)] show ?thesis by blast
qed (use assms(3) in \<open>blast intro: m_worker worker_step.intros\<close>)+

lemma joined:
  assumes "machine_ok c" and "caller c \<noteq> Idle" and "worker c = Ended" and "fault c = None"
  shows "caller (call_join c) = Idle \<and> fault (call_join c) = None"
  using assms
  by (cases "caller c")
    (auto simp: call_join_def machine_ok_def at_owner_def waits_for_def close_socket_def destroy_manager_def
      install_objects_def reset_objects_def fails_def split: option.splits)

text \<open>
  \<open>returns\<close>: on every run, whatever the order of the steps and whatever arrives, the call comes back to Java,
  or the receive thread uses a callback object that was freed.
\<close>

inductive returns :: "'j jni_env \<Rightarrow> 'j machine \<Rightarrow> bool" for env where
  in_java: "caller c = Idle \<Longrightarrow> fault c = None \<Longrightarrow> returns env c"
| crashed: "fault c = Some Null_callback \<Longrightarrow> returns env c"
| runs: "machine_step env c c1 \<Longrightarrow> (\<And>c'. machine_step env c c' \<Longrightarrow> returns env c') \<Longrightarrow> returns env c"

lemma joining_returns:
  assumes "machine_ok c" and "caller c \<noteq> Idle" and "fault c = None"
  shows "returns env c"
proof -
  have "wf (inv_image closer (distance :: 'j machine \<Rightarrow> _))" by (intro wf_inv_image wf_lex_prod wf_less_than)
  then show ?thesis
    using assms
  proof (induction c rule: wf_induct_rule)
    case (less c)
    obtain c1 where c1: "machine_step env c c1" using joining_goes_on [OF less.prems] by blast
    show ?case
    proof (rule returns.runs [OF c1])
      fix c'
      assume "machine_step env c c'"
      then show "returns env c'"
      proof (cases rule: machine_step.cases)
        case m_worker
        from joining_step [OF m_worker less.prems(1,2)] worker_step_ok [OF m_worker less.prems(1)] less show ?thesis
          by (auto intro: returns.crashed)
      next
        case m_join
        with joined [OF less.prems(1,2)] less.prems(3) show ?thesis by (auto intro: returns.in_java)
      qed (use less.prems in auto)
    qed
  qed
qed

text \<open>
  C13: a call that waits for the receive thread (\<open>nativeDisconnect\<close>, \<open>nativeInit\<close> or \<open>nativeDestroy\<close>) returns
  on every run in which a \<^verbatim>\<open>recv\<close> that has begun returns, whatever it returns: the receive thread has only
  finitely many steps left, whatever they are, it never gets stuck in them, and then the call is joined. The
  exception is a run on which the thread uses a callback object that was freed. \<^verbatim>\<open>size_t\<close> has 64 bits.
\<close>

theorem waiting_calls_return:
  assumes "machine_reachable env c" and "caller c \<noteq> Idle"
  shows "returns env c"
proof -
  note ok = machine_reachable_ok [OF assms(1)]
  then have "fault c = None \<or> fault c = Some Null_callback" by (auto simp: machine_ok_def)
  then show ?thesis by (auto intro: returns.crashed joining_returns [OF ok assms(2)])
qed

subsection \<open>Destroying the library during a callback\<close>

text \<open>
  C38: the callback object is not protected: whenever the receive thread has read a message and is about to call
  into Java, \<open>nativeDestroy\<close> deletes the reference before it waits for that thread, and the next step of the
  receive thread uses the null reference. The test at the start of \<^verbatim>\<open>onDataReceived\<close> does not help, and the join comes after the
  deletion.
\<close>

theorem destroy_races_callback:
  assumes "machine_reachable env c" and "caller c = Idle" and "fault c = None"
    and "worker c = At_invoke data h payload"
  shows "machine_step env c (call_destroy c) \<and> caller (call_destroy c) = Join_destroy \<and>
    (\<exists>c2. worker_step env (call_destroy c) c2 \<and> fault c2 = Some Null_callback)"
proof -
  let ?c1 = "call_destroy c"
  note ok = machine_reachable_ok [OF assms(1)]
  obtain m where m: "g_socketManager (lib c) = Some m" "dying c = None" "receiveThread m = Running" "receiving m"
    by (rule idle_cases [OF ok assms(2)]) (use assms(4) in \<open>auto simp: describes_active\<close>)
  have "worker ?c1 = worker c" "fault ?c1 = None" "g_callbackObject (lib ?c1) = None" "caller ?c1 = Join_destroy"
    using m assms(3) by (simp_all add: call_destroy_def Let_def stop_def owner_def at_owner_def)
  then have "worker_step env ?c1 (invoke_java env data h payload ?c1)"
    "fault (invoke_java env data h payload ?c1) = Some Null_callback"
    using assms(4) by (auto intro: w_invoke) (simp add: invoke_java_def fails_def)
  with m_destroy [OF assms(3,2), of env] \<open>caller ?c1 = Join_destroy\<close> show ?thesis by blast
qed

subsection \<open>Agreement with the sequential model\<close>

text \<open>
  When the Java thread does not interfere, the steps of the receive thread do what \<open>drain\<close> and
  \<open>onDataReceived_all\<close> say: all complete messages of the buffer are handed to Java and the rest is kept.
\<close>

lemma worker_then:
  "worker_step env c c1 \<Longrightarrow> (worker_step env)\<^sup>*\<^sup>* c1 c2 \<Longrightarrow> (worker_step env)\<^sup>*\<^sup>* c c2"
  by (rule converse_rtranclp_into_rtranclp)

lemma callback_steps:
  assumes "fault c = None" and "worker c = At_check data" and "onDataReceived env data (lib c) = Some calls"
  shows "(worker_step env)\<^sup>*\<^sup>* c (processed data (c\<lparr>java_calls := java_calls c @ calls\<rparr>))"
proof (cases "g_jvm (lib c) \<and> g_callbackObject (lib c) \<noteq> None")
  case False
  then have "calls = []" using assms(3) by (auto simp: onDataReceived_def split: if_splits)
  moreover have "callback_test data c = processed data c" using False by (auto simp: callback_test_def)
  ultimately show ?thesis using w_check [OF assms(1,2), of env] by simp
next
  case True
  let ?c1 = "c\<lparr>worker := At_parse data\<rparr>"
  obtain b where b: "g_jvm (lib c)" "g_callbackObject (lib c) = Some b" "g_protocolHandler (lib c)" "parseMessage data \<noteq> P_over_read"
    using True assms(3) by (cases "parseMessage data") (auto simp: onDataReceived_def split: if_splits)
  have s1: "worker_step env c ?c1"
    using w_check [OF assms(1,2), of env] b by (simp add: callback_test_def)
  have s2: "worker_step env ?c1 (parse_data data ?c1)" by (rule w_parse) (simp_all add: assms(1))
  show ?thesis
  proof (cases "parseMessage data")
    case P_false
    with b assms(3) have "parse_data data ?c1 = processed data (c\<lparr>java_calls := java_calls c @ calls\<rparr>)"
      by (auto simp: parse_data_def onDataReceived_def processed_def)
    with s2 show ?thesis by (intro worker_then [OF s1]) (simp add: r_into_rtranclp)
  next
    case (P_true h payload)
    let ?c2 = "c\<lparr>worker := At_invoke data h payload\<rparr>"
    have c2: "parse_data data ?c1 = ?c2" using b P_true by (simp add: parse_data_def)
    have s3: "worker_step env ?c2 (invoke_java env data h payload ?c2)" by (rule w_invoke) (simp_all add: assms(1))
    have "invoke_java env data h payload ?c2 = processed data (c\<lparr>java_calls := java_calls c @ calls\<rparr>)"
      using b assms(3) P_true by (auto simp: invoke_java_def onDataReceived_def processed_def split: if_splits)
    with s3 show ?thesis
      by (intro worker_then [OF s1] worker_then [OF s2 [unfolded c2]])
        (simp add: r_into_rtranclp)
  qed (use b in simp)
qed

lemma buffer_steps:
  assumes "fault c = None" and "worker c = At_buffer" and "drain (messageBuffer c) = (msgs, rest)"
    and "onDataReceived_all env msgs (lib c) = Some calls"
  shows "(worker_step env)\<^sup>*\<^sup>* c (c\<lparr>messageBuffer := rest, worker := At_loop, java_calls := java_calls c @ calls\<rparr>)"
  using assms
proof (induction "messageBuffer c" arbitrary: c msgs calls rule: drain.induct)
  case 1
  let ?n = "message_size (messageBuffer c)" and ?buf = "messageBuffer c"
  have s1: "worker_step env c (buffer_test c)" by (rule w_buffer) (use 1 in simp_all)
  show ?case
  proof (cases "32 \<le> length ?buf \<and> ?n \<le> length ?buf")
    case False
    then have "drain ?buf = ([], ?buf)" by (rule drain_done)
    with "1.prems" s1 False show ?thesis by (auto simp: buffer_test_def Let_def)
  next
    case True
    let ?d = "take ?n ?buf"
    obtain ms where ms: "msgs = ?d # ms" "drain (drop ?n ?buf) = (ms, rest)"
      using "1.prems"(3) True by (subst (asm) drain.simps) (auto split: prod.splits)
    obtain now later where calls: "onDataReceived env ?d (lib c) = Some now"
        "onDataReceived_all env ms (lib c) = Some later" "calls = now @ later"
      using "1.prems"(4) ms(1) by (auto split: option.splits)
    let ?c1 = "c\<lparr>worker := At_check ?d\<rparr>"
    let ?c2 = "processed ?d (c\<lparr>java_calls := java_calls c @ now\<rparr>)"
    have c1: "buffer_test c = ?c1" using True by (simp add: buffer_test_def Let_def)
    have s2: "(worker_step env)\<^sup>*\<^sup>* ?c1 (processed ?d (?c1\<lparr>java_calls := java_calls ?c1 @ now\<rparr>))"
      by (rule callback_steps) (use "1.prems"(1) calls(1) in simp_all)
    have c2: "processed ?d (?c1\<lparr>java_calls := java_calls ?c1 @ now\<rparr>) = ?c2" by (simp add: processed_def)
    have "(worker_step env)\<^sup>*\<^sup>* ?c2
        (?c2\<lparr>messageBuffer := rest, worker := At_loop, java_calls := java_calls ?c2 @ later\<rparr>)"
      by (rule "1.hyps") (use True ms(2) calls(2) "1.prems"(1) in \<open>simp_all add: processed_def min_absorb2\<close>)
    moreover have "?c2\<lparr>messageBuffer := rest, worker := At_loop, java_calls := java_calls ?c2 @ later\<rparr> =
        c\<lparr>messageBuffer := rest, worker := At_loop, java_calls := java_calls c @ calls\<rparr>"
      by (simp add: processed_def calls(3))
    ultimately show ?thesis
      by (intro worker_then [OF s1 [unfolded c1]] rtranclp_trans [OF s2 [unfolded c2]]) (simp only:)
  qed
qed

lemma receive_steps:
  assumes "fault c = None" and "worker c = In_recv" and "bs \<noteq> []"
    and "drain (messageBuffer c @ bs) = (msgs, rest)" and "onDataReceived_all env msgs (lib c) = Some calls"
  shows "(worker_step env)\<^sup>*\<^sup>* c (c\<lparr>messageBuffer := rest, worker := At_loop, java_calls := java_calls c @ calls\<rparr>)"
proof -
  let ?c1 = "c\<lparr>messageBuffer := messageBuffer c @ bs, worker := At_buffer\<rparr>"
  have "(worker_step env)\<^sup>*\<^sup>* ?c1 (?c1\<lparr>messageBuffer := rest, worker := At_loop, java_calls := java_calls ?c1 @ calls\<rparr>)"
    by (rule buffer_steps) (use assms in simp_all)
  with w_data [OF assms(1-3), of env] show ?thesis
    by (simp add: converse_rtranclp_into_rtranclp)
qed

subsection \<open>Instances\<close>

text \<open>A run: the library is initialised, connected, and has received and parsed one message.\<close>

definition sample_frame :: "byte list" where
  "sample_frame = frame 1 (code SUCCESS) ''ok'' 2"

definition sample_header :: header where
  "sample_header = \<lparr>h_magic = MAGIC, h_version = VERSION, h_type = code SUCCESS, h_length = 2,
     h_ts = swap_halves 1, h_userId = 2, h_checksum = 0\<rparr>"

definition machine_ready :: "java_string machine" where
  "machine_ready = call_init machine_start"

definition machine_connected :: "java_string machine" where
  "machine_connected = call_connect mutf8_env 4 (\<lambda>h. True) True None
     (machine_ready\<lparr>lib := nativeSetCallback (Some True) (lib machine_ready)\<rparr>)"

definition machine_received :: "java_string machine" where
  "machine_received =
     buffer_test ((loop_test machine_connected)\<lparr>messageBuffer := messageBuffer (loop_test machine_connected) @ sample_frame,
       worker := At_buffer\<rparr>)"

definition machine_parsed :: "java_string machine" where
  "machine_parsed = parse_data sample_frame (callback_test sample_frame machine_received)"

lemma sample_frame_facts:
  "length sample_frame = 34" "message_size sample_frame = 34" "sample_frame \<noteq> []"
  "parseMessage sample_frame = P_true sample_header ''ok''"
proof -
  show len: "length sample_frame = 34" by (simp add: sample_frame_def frame_slices)
  show "message_size sample_frame = 34"
    using message_size_frame [of "''ok''" 1 "code SUCCESS" 2 "[]"] by (simp add: sample_frame_def)
  show "sample_frame \<noteq> []" using len by auto
  show "parseMessage sample_frame = P_true sample_header ''ok''"
    unfolding sample_frame_def by (subst parse_frame) (simp_all add: sample_header_def)
qed

lemma machine_connected_state:
  "machine_connected =
     \<lparr>lib = sample_connected, dying = None, caller = Idle, worker = At_loop, messageBuffer = [], java_calls = [], fault = None\<rparr>"
  by code_simp

lemma machine_received_state:
  "machine_received = machine_connected\<lparr>worker := At_check sample_frame, messageBuffer := sample_frame\<rparr>"
  "machine_parsed = machine_connected\<lparr>worker := At_invoke sample_frame sample_header ''ok'', messageBuffer := sample_frame\<rparr>"
proof -
  have lib: "g_jvm sample_connected" "g_callbackObject sample_connected = Some True" "g_protocolHandler sample_connected"
    "g_socketManager sample_connected = Some (sample_manager\<lparr>sockfd := 4, open_fds := [4]\<rparr>)"
    by (simp_all add: sample_connected_def sample_native_defs)
  then show received: "machine_received = machine_connected\<lparr>worker := At_check sample_frame, messageBuffer := sample_frame\<rparr>"
    by (simp add: machine_received_def loop_test_def owner_def buffer_test_def machine_connected_state
        sample_frame_facts sample_manager_def)
  show "machine_parsed = machine_connected\<lparr>worker := At_invoke sample_frame sample_header ''ok'', messageBuffer := sample_frame\<rparr>"
    using lib by (simp add: machine_parsed_def received callback_test_def parse_data_def machine_connected_state sample_frame_facts)
qed

lemma machine_connected_reachable: "machine_reachable mutf8_env machine_connected"
proof -
  let ?c1 = "machine_ready\<lparr>lib := nativeSetCallback (Some True) (lib machine_ready)\<rparr>"
  have start: "fault machine_start = None" "caller machine_start = Idle" by (simp_all add: machine_start_def)
  have ready: "fault machine_ready = None" "caller machine_ready = Idle" by code_simp+
  have "machine_step mutf8_env machine_start machine_ready"
    unfolding machine_ready_def by (rule m_init) (simp_all add: start)
  moreover have "machine_step mutf8_env machine_ready ?c1" by (rule m_callback) (simp_all add: ready)
  moreover have "machine_step mutf8_env ?c1 machine_connected"
    unfolding machine_connected_def by (rule m_connect) (simp_all add: ready)
  ultimately show ?thesis
    unfolding machine_reachable_def by (meson converse_rtranclp_into_rtranclp r_into_rtranclp)
qed

lemma reachable_worker_step: "machine_reachable env c \<Longrightarrow> worker_step env c c' \<Longrightarrow> machine_reachable env c'"
  unfolding machine_reachable_def by (auto intro: rtranclp.rtrancl_into_rtrancl m_worker)

lemma machine_received_reachable: "machine_reachable mutf8_env machine_received"
proof -
  let ?c1 = "loop_test machine_connected"
  have pc: "worker machine_connected = At_loop" "fault machine_connected = None"
    "worker ?c1 = In_recv" "fault ?c1 = None"
    by code_simp+
  have "machine_reachable mutf8_env ?c1"
    by (rule reachable_worker_step [OF machine_connected_reachable w_loop]) (simp_all only: pc)
  from reachable_worker_step [OF this w_data [OF pc(4,3) sample_frame_facts(3)]] show ?thesis
    unfolding machine_received_def by (rule reachable_worker_step [OF _ w_buffer]) (simp_all add: pc)
qed

lemma machine_parsed_reachable: "machine_reachable mutf8_env machine_parsed"
proof -
  let ?c1 = "callback_test sample_frame machine_received"
  have pc: "worker machine_received = At_check sample_frame" "fault machine_received = None"
    "worker ?c1 = At_parse sample_frame" "fault ?c1 = None"
    by (simp_all add: machine_received_state callback_test_def machine_connected_state sample_connected_def
        sample_native_defs)
  have "machine_reachable mutf8_env ?c1"
    by (rule reachable_worker_step [OF machine_received_reachable w_check]) (simp_all only: pc)
  then show ?thesis
    unfolding machine_parsed_def by (rule reachable_worker_step [OF _ w_parse]) (simp_all only: pc)
qed

lemma machine_parsed_state:
  "caller machine_parsed = Idle" "fault machine_parsed = None"
  "worker machine_parsed = At_invoke sample_frame sample_header ''ok''"
  by (simp_all add: machine_received_state machine_connected_state)

theorem receive_thread_safe_witness:
  "fault machine_parsed \<noteq> Some Null_handler \<and> (\<exists>m. owner machine_parsed = Some m \<and> receiveThread m = Running)"
  using receive_thread_safe [OF machine_parsed_reachable] by (simp add: machine_parsed_state)

theorem destroy_races_callback_witness:
  "machine_step mutf8_env machine_parsed (call_destroy machine_parsed) \<and>
    caller (call_destroy machine_parsed) = Join_destroy \<and>
    (\<exists>c2. worker_step mutf8_env (call_destroy machine_parsed) c2 \<and> fault c2 = Some Null_callback)"
  by (rule destroy_races_callback [OF machine_parsed_reachable machine_parsed_state])

text \<open>A disconnect while the message is handled.\<close>

definition machine_leaving :: "java_string machine" where
  "machine_leaving = call_disconnect machine_parsed"

theorem waiting_calls_return_witness:
  "caller machine_leaving = Join_disconnect \<and> returns mutf8_env machine_leaving"
proof -
  have "machine_reachable mutf8_env machine_leaving"
    using machine_parsed_reachable m_disconnect [OF machine_parsed_state(2,1), of mutf8_env]
    unfolding machine_reachable_def machine_leaving_def by (rule rtranclp.rtrancl_into_rtrancl)
  moreover have "caller machine_leaving = Join_disconnect"
    by (simp add: machine_leaving_def call_disconnect_def stop_def owner_def at_owner_def Let_def
        machine_received_state machine_connected_state sample_connected_def sample_manager_def)
  ultimately show ?thesis using waiting_calls_return [of mutf8_env machine_leaving] by simp
qed

end
