(* ===== verification/End_To_End.thy ===== *)
theory End_To_End
  imports Client_Server Client_Machine
begin

text \<open>
  The whole way of a request and its answer: from the Java strings of one app through the serializer, the
  protocol handler, the socket, the receive loop and the handler of the server, and back through the socket,
  the receive loop and the callback to the Java strings of an app.
\<close>

subsection \<open>Payloads of characters\<close>

lemma ascii_digit: "is_digit c \<Longrightarrow> ascii c"
  by (auto simp: is_digit_def ascii_def)

lemma ascii_to_string: "list_all ascii (to_string i)"
proof -
  have "ascii (CHR ''-'')" by (simp add: ascii_def)
  then show ?thesis by (auto simp: to_string_def list_all_iff intro: ascii_digit nat_to_string_digits)
qed

lemma ascii_serialize_kv_from:
  "\<forall>(k, v)\<in>set items. list_all ascii k \<and> list_all ascii v \<Longrightarrow> list_all ascii (serialize_kv_from i items)"
  by (induction i items rule: serialize_kv_from.induct) (auto simp: ascii_def)

lemma ascii_serialize_kv:
  "\<forall>(k, v)\<in>set items. list_all ascii k \<and> list_all ascii v \<Longrightarrow> list_all ascii (serialize_kv items)"
  by (simp add: serialize_kv_def ascii_serialize_kv_from)

lemma length_nat_to_string: "n < 10 ^ Suc k \<Longrightarrow> length (nat_to_string n) \<le> Suc k"
proof (induction k arbitrary: n)
  case 0
  then show ?case by (simp add: nat_to_string.simps [of n])
next
  case (Suc k)
  then have "n div 10 < 10 ^ Suc k" by (simp add: less_mult_imp_div_less)
  with Suc.IH show ?case by (simp add: nat_to_string.simps [of n])
qed

lemma length_to_string: "\<bar>i\<bar> < 2 ^ 64 \<Longrightarrow> length (to_string i) \<le> 21"
  using length_nat_to_string [of "nat i" 19] length_nat_to_string [of "nat (- i)" 19]
  by (auto simp: to_string_def nat_less_iff)

lemma serialized_requests:
  "serializeLoginRequest username password = serialize_kv [(''password'', password), (''username'', username)]"
  "serializeChatMessage recipientId message =
     serialize_kv [(''message'', message), (''recipientId'', to_string (uint recipientId))]"
  by (simp_all add: serializeLoginRequest_def serializeChatMessage_def serialize_eq smap_of_def smap_put_def)

subsection \<open>One way\<close>

text \<open>A payload of ASCII characters that went through Java arrives at the server as it is.\<close>

lemma request_arrives:
  assumes "jni_ok env" and "list_all ascii p" and "length p < 2 ^ 32"
    and "nativeSendMessage env now script ty (Some (stringToJstring env p)) userId n = Some (True, out, n1)"
    and "concat (segs k) = out @ rest"
  shows "\<exists>k'. read_frame k = (F_msg (sent_header now (ucast ty) p userId) p, k') \<and> concat (segs k') = rest"
proof -
  have "out = frame now (ucast ty) p userId"
    using assms(4)
    by (auto simp: nativeSendMessage_def Let_def createMessage_frame ascii_roundtrip [OF assms(1,2)]
        split: option.splits if_splits dest!: sendData_True)
  with assms(5) have "stream k = frame now (ucast ty) p userId @ rest" by (simp add: stream_def)
  from read_frame_frame [OF this assms(3)] show ?thesis by (auto simp: stream_def)
qed

text \<open>A frame of the server at the front of the stream is the first call into Java.\<close>

definition java_receives :: "'j jni_env \<Rightarrow> native \<Rightarrow> u8 \<Rightarrow> string \<Rightarrow> u32 \<Rightarrow> 'j \<Rightarrow> bool" where
  "java_receives env n ty payload userId j \<longleftrightarrow>
     (\<forall>ts chunks later. (\<forall>c\<in>set chunks. c \<noteq> []) \<and> concat chunks = frame ts ty payload userId @ later \<longrightarrow>
       (\<exists>m msgs buf. g_socketManager n = Some m \<and>
         receiveLoop (map R_data chunks) m [] = (frame ts ty payload userId # msgs, m, buf) \<and>
         onDataReceived env (frame ts ty payload userId) n = Some [(uint ty, j)]))"

definition listening :: "native \<Rightarrow> bool" where
  "listening n \<longleftrightarrow> g_jvm n \<and> g_callbackObject n = Some True \<and> g_protocolHandler n \<and>
     (case g_socketManager n of None \<Rightarrow> False | Some m \<Rightarrow> connected m \<and> receiving m)"

lemma answer_arrives:
  assumes "listening n" and "length payload < 2 ^ 32 - 32"
  shows "java_receives env n ty payload userId (stringToJstring env payload)"
  unfolding java_receives_def
proof (intro allI impI, elim conjE)
  fix ts chunks later
  let ?f = "frame ts ty payload userId"
  assume chunks: "\<forall>c\<in>set chunks. c \<noteq> []" "concat chunks = ?f @ later"
  obtain m where m: "g_socketManager n = Some m" "connected m" "receiving m"
    using assms(1) by (auto simp: listening_def split: option.splits)
  obtain msgs buf where rest: "drain later = (msgs, buf)" by (cases "drain later")
  have "drain [] = ([], [])" by (simp add: drain.simps [of "[]"])
  from receiveLoop_drain [OF m(3,2) chunks(1) this] chunks(2) drain_frame [of payload ts ty userId later] assms(2) rest
  have "receiveLoop (map R_data chunks) m [] = (?f # msgs, m, buf)" by simp
  moreover have "onDataReceived env ?f n = Some [(uint ty, stringToJstring env payload)]"
    using assms parse_frame [OF assms(2), of ts ty userId] by (simp add: onDataReceived_def listening_def)
  ultimately show "\<exists>m msgs buf. g_socketManager n = Some m \<and>
      receiveLoop (map R_data chunks) m [] = (?f # msgs, m, buf) \<and>
      onDataReceived env ?f n = Some [(uint ty, stringToJstring env payload)]"
    using m(1) by blast
qed

subsection \<open>Logging in\<close>

text \<open>
  C5: the login of the app, from Java to Java, without a database. The Java code serializes the user name and
  the password of an account, both in ASCII and without an ampersand, and sends the result as a \<^verbatim>\<open>LOGIN\<close> message;
  when the send reports success, then however the network cuts the bytes the server reads this request, the
  connection acts as the account, and the first frame that the server sends on it becomes, however it is cut, a
  call of \<^verbatim>\<open>onMessageReceived\<close> with the type \<^verbatim>\<open>SUCCESS\<close> and a Java string that the client decodes to success,
  the id of the account and the token.
\<close>

theorem login_end_to_end:
  assumes "jni_ok env" and "\<not> has_pg s"
    and "um_get (g_users_by_name s) (GetStringUTFChars env user) = Some u"
    and "u_password_hash u = GetStringUTFChars env password" and "in_int32 (u_id u)"
    and "list_all ascii (GetStringUTFChars env user)" and "list_all ascii (GetStringUTFChars env password)"
    and "CHR ''&'' \<notin> set (GetStringUTFChars env user)" and "CHR ''&'' \<notin> set (GetStringUTFChars env password)"
    and "length (GetStringUTFChars env user) + length (GetStringUTFChars env password) < 2 ^ 31"
    and "listening n" and "nativeSerializeLogin env (Some user) (Some password) n = Some request"
    and "ucast messageType = code LOGIN"
    and "nativeSendMessage env now script messageType (Some request) 0 n = Some (True, out, n1)"
    and "concat (segs k) = out @ rest"
  shows "\<exists>h payload k' t reply more j. read_frame k = (F_msg h payload, k') \<and> concat (segs k') = rest \<and>
    dispatch e fd h payload 0 s = (Inr (True, u32_of_int (u_id u)), t) \<and>
    outbox t = outbox s @ sent_msg fd (code SUCCESS) reply (u32_of_int (u_id u)) # more \<and>
    java_receives env n1 (code SUCCESS) reply (u32_of_int (u_id u)) j \<and>
    deserializeLoginResponse (jstringToString env (Some j)) r =
      Inr (True, \<lparr>lr_userId = u32_of_int (u_id u), lr_token = ''demo_token'', lr_success = True\<rparr>)"
proof -
  let ?user = "GetStringUTFChars env user" and ?pw = "GetStringUTFChars env password"
  let ?p = "serializeLoginRequest ?user ?pw" and ?id = "u32_of_int (u_id u)"
  let ?reply = "auth_reply (u_id u) ?user"
  have p: "list_all ascii ?p" "length ?p < 2 ^ 32"
    using assms(6,7,10) by (auto simp: serialized_requests serialize_kv_def ascii_def intro!: ascii_serialize_kv_from)
  have reply: "list_all ascii ?reply" "length ?reply < 2 ^ 32 - 32"
    using assms(6,10) length_to_string [OF in_int32_abs [OF assms(5)]]
    by (auto simp: auth_reply_def serialize_kv_def ascii_def ascii_to_string intro!: ascii_serialize_kv_from)
  have req: "request = stringToJstring env ?p"
    using assms(12) by (simp add: nativeSerializeLogin_def jstringToString_def split: if_splits)
  obtain k' where k': "read_frame k = (F_msg (sent_header now (code LOGIN) ?p 0) ?p, k')" "concat (segs k') = rest"
    using request_arrives [OF assms(1) p assms(14) [unfolded req] assms(15)] assms(13) by auto
  have n1: "listening n1"
    using assms(11,14)
    by (auto simp: nativeSendMessage_def listening_def Let_def split: option.splits if_splits dest!: sendData_True)
  note reads = login_request_reads [OF assms(8,9)]
  from login_run [of s ?p u e fd 0] assms(2-4) reads obtain t more
    where run: "handle_LOGIN e fd ?p 0 s = (Inr ?id, t)" "outbox t = outbox s @ sent_msg fd (code SUCCESS) ?reply ?id # more"
    by auto
  have "dispatch e fd (sent_header now (code LOGIN) ?p 0) ?p 0 s = (Inr (True, ?id), t)"
    using run(1) by (simp add: dispatch_def switch_user_def del: code.simps)
  moreover have "deserializeLoginResponse (jstringToString env (Some (stringToJstring env ?reply))) r =
      Inr (True, \<lparr>lr_userId = ?id, lr_token = ''demo_token'', lr_success = True\<rparr>)"
    using auth_reply_reads [OF assms(5,8), of r] by (cases r) (simp add: ascii_roundtrip [OF assms(1) reply(1)])
  ultimately show ?thesis using k' run(2) answer_arrives [OF n1 reply(2), of env "code SUCCESS" ?id] by blast
qed

subsection \<open>Chatting\<close>

text \<open>
  C6: a message from one app to another, from Java to Java, without a database, between a sender whose connection
  acts as the account \<open>cur\<close> and a recipient that is online. An ASCII text without an ampersand that the sender's
  Java code serializes for the recipient and sends as a \<^verbatim>\<open>DIRECT_MESSAGE\<close>, with a send that reports success,
  is forwarded by the server to the recipient's connection and confirmed to the sender; and the frame that the
  server writes there becomes a call of \<^verbatim>\<open>onMessageReceived\<close> in the recipient's app with a Java string that its
  client decodes to the same text, the sender and the time of the server, however both connections cut the bytes.
\<close>

theorem chat_end_to_end:
  assumes "jni_ok env" and "jni_ok env'" and "\<not> has_pg s"
    and "list_all ascii (GetStringUTFChars env text)" and "CHR ''&'' \<notin> set (GetStringUTFChars env text)"
    and "length (GetStringUTFChars env text) < 2 ^ 31"
    and "uint recipientId < 2 ^ 31" and "is_online s (uint recipientId)" and "\<bar>now_s e\<bar> < 2 ^ 64"
    and "nativeSerializeChatMessage env recipientId (Some text) n = Some request"
    and "ucast messageType = code DIRECT_MESSAGE"
    and "nativeSendMessage env now script messageType (Some request) userId n = Some (True, out, n1)"
    and "concat (segs k) = out @ rest" and "listening n'"
  shows "\<exists>h payload k' t forwarded j. read_frame k = (F_msg h payload, k') \<and> concat (segs k') = rest \<and>
    dispatch e fd h payload cur s = (Inr (True, cur), t) \<and>
    outbox t = outbox s @ [sent_msg (online_fd s (uint recipientId)) (code DIRECT_MESSAGE) forwarded cur,
      sent_msg fd (code SUCCESS) ''Message sent'' cur] \<and>
    java_receives env' n' (code DIRECT_MESSAGE) forwarded cur j \<and>
    deserializeChatMessage (jstringToString env' (Some j)) r =
      Inr (True, \<lparr>cm_senderId = cur, cm_message = GetStringUTFChars env text, cm_timestamp = word_of_int (now_s e)\<rparr>)"
proof -
  let ?text = "GetStringUTFChars env text"
  let ?p = "serializeChatMessage recipientId ?text"
  let ?out = "dm_payload e cur ?p"
  note reads = chat_request_reads [OF assms(5), of recipientId]
  have abs: "\<bar>uint recipientId\<bar> < 2 ^ 64" "\<bar>int_of_u32 cur\<bar> < 2 ^ 64"
    using assms(7) in_int32_abs [of "int_of_u32 cur"] by simp_all
  have p: "list_all ascii ?p" "length ?p < 2 ^ 32"
    using assms(4,6) length_to_string [OF abs(1)]
    by (auto simp: serialized_requests serialize_kv_def ascii_def ascii_to_string intro!: ascii_serialize_kv_from)
  have fwd: "list_all ascii ?out" "length ?out < 2 ^ 32 - 32"
    using assms(4,6) length_to_string [OF abs(2)] length_to_string [OF assms(9)]
    by (auto simp: dm_payload_def reads serialize_kv_def ascii_def ascii_to_string intro!: ascii_serialize_kv_from)
  have req: "request = stringToJstring env ?p"
    using assms(10) by (simp add: nativeSerializeChatMessage_def jstringToString_def split: if_splits)
  obtain k' where k': "read_frame k = (F_msg (sent_header now (code DIRECT_MESSAGE) ?p userId) ?p, k')" "concat (segs k') = rest"
    using request_arrives [OF assms(1) p assms(12) [unfolded req] assms(13)] assms(11) by auto
  have "in_int32 (uint recipientId)"
    using assms(7) uint_nonnegative [of recipientId] unfolding in_int32_def int32_min_def int32_max_def by linarith
  then have "stoi (kv_at (parse_kv ?p) ''recipientId'') = Inr (uint recipientId)" by (simp add: reads)
  from dm_run [OF assms(3) this, of e fd cur] assms(8) obtain t
    where run: "handle_DIRECT_MESSAGE e fd ?p cur s = (Inr (), t)"
      "outbox t = outbox s @ [sent_msg (online_fd s (uint recipientId)) (code DIRECT_MESSAGE) ?out cur,
        sent_msg fd (code SUCCESS) ''Message sent'' cur]" by auto
  have "dispatch e fd (sent_header now (code DIRECT_MESSAGE) ?p userId) ?p cur s = (Inr (True, cur), t)"
    using run(1) by (simp add: dispatch_def stay_def del: code.simps)
  moreover have "deserializeChatMessage (jstringToString env' (Some (stringToJstring env' ?out))) r =
      Inr (True, \<lparr>cm_senderId = cur, cm_message = ?text, cm_timestamp = word_of_int (now_s e)\<rparr>)"
    using dm_payload_decodes [of ?p e cur r] assms(5,9) by (simp add: reads ascii_roundtrip [OF assms(2) fwd(1)])
  ultimately show ?thesis using k' run(2) answer_arrives [OF assms(14) fwd(2), of env' "code DIRECT_MESSAGE" cur] by blast
qed

subsection \<open>Instances\<close>

text \<open>Java strings of ASCII characters.\<close>

lemma mutf8_units: "list_all ascii s \<Longrightarrow> GetStringUTFChars mutf8_env (units_of s) = s"
  by (simp add: mutf8_env_def unit_bytes_ascii)

lemma sample_listening: "listening sample_connected"
  by (simp add: listening_def sample_connected_def sample_native_defs sample_manager_def)

lemma sample_sends:
  assumes "list_all ascii p"
  shows "nativeSendMessage mutf8_env now [32 + int (length p)] ty (Some (stringToJstring mutf8_env p)) userId sample_connected =
    Some (True, frame now (ucast ty) p userId, sample_connected)"
proof -
  let ?f = "frame now (ucast ty) p userId"
  have "?f \<noteq> []" "nat (32 + int (length p)) = length ?f" by (auto simp: frame_slices(1) dest: arg_cong [of _ _ length])
  then have "sendData_loop [32 + int (length p)] ?f [] = Some (True, ?f)" by (cases ?f) simp_all
  then show ?thesis
    by (simp add: nativeSendMessage_def Let_def createMessage_frame ascii_roundtrip [OF mutf8_ok assms] sendData_def
        sample_connected_def sample_native_defs sample_manager_def)
qed

theorem login_end_to_end_witness:
  "\<exists>h payload k' t reply more j. read_frame
      \<lparr>segs = [frame 9 (code LOGIN) (serializeLoginRequest ''bob'' ''pb'') 0], broken = False\<rparr> = (F_msg h payload, k') \<and>
    dispatch sample_env 6 h payload 0 sample_server = (Inr (True, 2), t) \<and>
    outbox t = sent_msg 6 (code SUCCESS) reply 2 # more \<and> java_receives mutf8_env sample_connected (code SUCCESS) reply 2 j \<and>
    deserializeLoginResponse (jstringToString mutf8_env (Some j)) \<lparr>lr_userId = 0, lr_token = [], lr_success = False\<rparr> =
      Inr (True, \<lparr>lr_userId = 2, lr_token = ''demo_token'', lr_success = True\<rparr>)"
proof -
  let ?p = "serializeLoginRequest ''bob'' ''pb''" and ?u = "units_of ''bob''" and ?w = "units_of ''pb''"
  let ?ty = "ucast (code LOGIN) :: u32"
  have names: "GetStringUTFChars mutf8_env ?u = ''bob''" "GetStringUTFChars mutf8_env ?w = ''pb''"
    by (rule mutf8_units, simp add: ascii_def)+
  have p: "list_all ascii ?p" by (simp add: serialized_requests serialize_kv_def ascii_def)
  have req: "nativeSerializeLogin mutf8_env (Some ?u) (Some ?w) sample_connected = Some (stringToJstring mutf8_env ?p)"
    by (simp add: nativeSerializeLogin_def jstringToString_def names sample_connected_def sample_native_defs del: units_of.simps)
  have ty: "ucast ?ty = code LOGIN" by simp
  have bob: "um_get (g_users_by_name sample_server) (GetStringUTFChars mutf8_env ?u) = Some bob"
    "u_password_hash bob = GetStringUTFChars mutf8_env ?w" "in_int32 (u_id bob)" "u32_of_int (u_id bob) = 2"
    "outbox sample_server = []"
    by (simp_all add: names sample_defs in_int32_def int32_min_def int32_max_def u32_of_int_def del: units_of.simps)
  have ascii: "list_all ascii (GetStringUTFChars mutf8_env ?u)" "list_all ascii (GetStringUTFChars mutf8_env ?w)"
    "CHR ''&'' \<notin> set (GetStringUTFChars mutf8_env ?u)" "CHR ''&'' \<notin> set (GetStringUTFChars mutf8_env ?w)"
    "length (GetStringUTFChars mutf8_env ?u) + length (GetStringUTFChars mutf8_env ?w) < 2 ^ 31"
    by (simp_all add: names ascii_def del: units_of.simps)
  show ?thesis
    using login_end_to_end [OF mutf8_ok has_pg_sample(1) bob(1-3) ascii sample_listening req ty sample_sends [OF p, of 9 ?ty 0],
        of "\<lparr>segs = [frame 9 (code LOGIN) ?p 0], broken = False\<rparr>" "[]" sample_env 6
          "\<lparr>lr_userId = 0, lr_token = [], lr_success = False\<rparr>"]
    by (simp add: bob ty del: code.simps) blast
qed

text \<open>Carol writes to alice.\<close>

theorem chat_end_to_end_witness:
  "\<exists>h payload k' t forwarded j. read_frame
      \<lparr>segs = [frame 9 (code DIRECT_MESSAGE) (serializeChatMessage 1 ''hi'') 3], broken = False\<rparr> = (F_msg h payload, k') \<and>
    dispatch sample_env 5 h payload 3 sample_server = (Inr (True, 3), t) \<and>
    outbox t = [sent_msg 4 (code DIRECT_MESSAGE) forwarded 3, sent_msg 5 (code SUCCESS) ''Message sent'' 3] \<and>
    java_receives mutf8_env sample_connected (code DIRECT_MESSAGE) forwarded 3 j \<and>
    deserializeChatMessage (jstringToString mutf8_env (Some j)) \<lparr>cm_senderId = 0, cm_message = [], cm_timestamp = 0\<rparr> =
      Inr (True, \<lparr>cm_senderId = 3, cm_message = ''hi'', cm_timestamp = 1\<rparr>)"
proof -
  let ?p = "serializeChatMessage 1 ''hi''" and ?u = "units_of ''hi''"
  let ?ty = "ucast (code DIRECT_MESSAGE) :: u32"
  have msg: "GetStringUTFChars mutf8_env ?u = ''hi''" by (rule mutf8_units) (simp add: ascii_def)
  have p: "list_all ascii ?p"
    by (simp add: serialized_requests serialize_kv_def ascii_to_string) (simp add: ascii_def)
  have req: "nativeSerializeChatMessage mutf8_env 1 (Some ?u) sample_connected = Some (stringToJstring mutf8_env ?p)"
    by (simp add: nativeSerializeChatMessage_def jstringToString_def msg sample_connected_def sample_native_defs del: units_of.simps)
  have ty: "ucast ?ty = code DIRECT_MESSAGE" by simp
  have ascii: "list_all ascii (GetStringUTFChars mutf8_env ?u)" "CHR ''&'' \<notin> set (GetStringUTFChars mutf8_env ?u)"
    "length (GetStringUTFChars mutf8_env ?u) < 2 ^ 31"
    by (simp_all add: msg ascii_def del: units_of.simps)
  have srv: "uint (1 :: u32) < 2 ^ 31" "is_online sample_server (uint (1 :: u32))" "\<bar>now_s sample_env\<bar> < 2 ^ 64"
    "now_s sample_env = 1" "online_fd sample_server 1 = 4" "outbox sample_server = []"
    by (simp_all add: sample_env_def sample_env_of_def online_fd_def um_at_def sample_defs)
  show ?thesis
    using chat_end_to_end [OF mutf8_ok mutf8_ok has_pg_sample(1) ascii srv(1-3) req ty sample_sends [OF p, of 9 ?ty 3] _ sample_listening,
        of "\<lparr>segs = [frame 9 (code DIRECT_MESSAGE) ?p 3], broken = False\<rparr>" "[]" 5 3
          "\<lparr>cm_senderId = 0, cm_message = [], cm_timestamp = 0\<rparr>"]
    by (simp add: srv ty msg del: code.simps units_of.simps) blast
qed

end
