(* ===== verification/Test_Client.thy ===== *)
theory Test_Client
  imports Chat_Network
begin

text \<open>
  \<^verbatim>\<open>server-cpp/tools/test_client.cpp\<close>: the command-line client that asks the server for the groups of the users
  typed in. The results of the system calls and the numbers read from the terminal are arguments.
\<close>

subsection \<open>Connection, requests and responses\<close>

text \<open>\<open>fd\<close> is the result of \<^verbatim>\<open>socket\<close>; the result is the value of \<^verbatim>\<open>out_fd\<close> when there is one.\<close>

definition connect_to_server :: "int \<Rightarrow> bool \<Rightarrow> bool \<Rightarrow> int option" where
  "connect_to_server fd addr_ok conn_ok =
     (if fd < 0 then None else if \<not> addr_ok then None else if \<not> conn_ok then None else Some fd)"

definition send_header_and_payload ::
  "u64 \<Rightarrow> int list \<Rightarrow> u8 \<Rightarrow> string \<Rightarrow> u32 \<Rightarrow> (bool \<times> byte list \<times> int list) option" where
  "send_header_and_payload now script ty payload userId =
     (case send_all script (write_header now ty (word_of_nat (length payload)) userId) [] of
        None \<Rightarrow> None
      | Some (ok, out, script') \<Rightarrow>
          if \<not> ok then Some (False, out, script')
          else if payload \<noteq> [] then send_all script' (bytes_of payload) out
          else Some (True, out, script'))"

text \<open>Magic number and version are not checked.\<close>

definition recv_response :: "sock \<Rightarrow> (u8 \<times> string) option \<times> sock" where
  "recv_response k =
     (case recv_all sock_recv k HEADER_SIZE [] of
        (Stopped r, k') \<Rightarrow> (None, k')
      | (Got header, k') \<Rightarrow>
          let len = unat (of_be32 (slice 6 4 header)); out_type = header ! 5 in
          if 0 < len
          then (case recv_all sock_recv k' len [] of
                  (Stopped r, k'') \<Rightarrow> (None, k'')
                | (Got payload, k'') \<Rightarrow> (Some (out_type, string_of payload), k''))
          else (Some (out_type, []), k'))"

text \<open>
  The interactive loop: the ids typed in, for each request the clock and the results of its \<^verbatim>\<open>send\<close> calls. The
  result is what was sent and the responses printed; \<open>None\<close> is a \<^verbatim>\<open>send\<close> that never returns.
\<close>

fun test_loop ::
  "u32 list \<Rightarrow> (u64 \<times> int list) list \<Rightarrow> sock \<Rightarrow> byte list \<Rightarrow> (byte list \<times> (u8 \<times> string) list) option" where
  "test_loop [] es k sent = Some (sent, [])"
| "test_loop (userId # ids) [] k sent = (if userId = 0 then Some (sent, []) else None)"
| "test_loop (userId # ids) ((now, script) # es) k sent =
     (if userId = 0 then Some (sent, [])
      else case send_header_and_payload now script (code GET_USER_GROUPS) [] userId of
          None \<Rightarrow> None
        | Some (ok, out, _) \<Rightarrow>
            if \<not> ok then Some (sent @ out, [])
            else case recv_response k of
                (None, k') \<Rightarrow> Some (sent @ out, [])
              | (Some r, k') \<Rightarrow>
                  map_option (\<lambda>(sent', rs). (sent', r # rs)) (test_loop ids es k' (sent @ out)))"

text \<open>\<^verbatim>\<open>atoi\<close>, for a number that is an \<^verbatim>\<open>int\<close>: 0 when there is none.\<close>

definition atoi :: "string \<Rightarrow> int" where
  "atoi s = (case strtol10 s of None \<Rightarrow> 0 | Some i \<Rightarrow> i)"

text \<open>
  \<^verbatim>\<open>main\<close>: \<open>args\<close> are the arguments after the program name; \<open>addr_ok\<close> and \<open>conn_ok\<close> depend on the host and the
  port. The result is the exit code, what was sent and the responses printed.
\<close>

definition test_main ::
  "string list \<Rightarrow> int \<Rightarrow> (string \<Rightarrow> bool) \<Rightarrow> (string \<Rightarrow> 16 word \<Rightarrow> bool) \<Rightarrow> u32 list \<Rightarrow> (u64 \<times> int list) list \<Rightarrow> sock \<Rightarrow>
     (int \<times> byte list \<times> (u8 \<times> string) list) option" where
  "test_main args fd addr_ok conn_ok ids es k =
     (let host = (case args of h # _ \<Rightarrow> h | [] \<Rightarrow> ''127.0.0.1'');
          port = (case args of _ # p # _ \<Rightarrow> word_of_int (atoi p) | _ \<Rightarrow> 8080) in
      case connect_to_server fd (addr_ok host) (conn_ok host port) of
        None \<Rightarrow> Some (2, [], [])
      | Some _ \<Rightarrow> map_option (\<lambda>(sent, rs). (0, sent, rs)) (test_loop ids es k []))"

subsection \<open>It speaks the protocol of the server\<close>

lemma send_header_and_payload_frame:
  "send_header_and_payload now script ty payload userId = send_message now script ty payload userId"
  by (simp add: send_header_and_payload_def send_message_def split: option.split prod.split)

lemma header_fields:
  "slice 6 4 (write_header ts ty len userId) = be32 len" "write_header ts ty len userId ! 5 = ty"
  by (simp_all add: write_header_layout slice_def nth_append)

lemma recv_response_frame:
  assumes st: "stream k = frame ts ty payload userId @ rest" and len: "length payload < 2 ^ 32"
  shows "\<exists>k'. recv_response k = (Some (ty, payload), k') \<and> stream k' = rest"
proof -
  let ?hb = "write_header ts ty (word_of_nat (length payload)) userId"
  obtain k1 where k1: "recv_all sock_recv k HEADER_SIZE [] = (Got ?hb, k1)" "stream k1 = bytes_of payload @ rest"
    using sk.recv_all_Got [of HEADER_SIZE k "[]"] by (auto simp: st frame_def)
  have u: "unat (of_be32 (slice 6 4 ?hb)) = length payload"
    using len by (simp add: header_fields unat_of_nat)
  obtain k2 where "recv_all sock_recv k1 (length payload) [] = (Got (bytes_of payload), k2)" "stream k2 = rest"
    using sk.recv_all_Got [of "length payload" k1 "[]"] by (auto simp: k1(2))
  with k1 u show ?thesis
    by (cases "payload = []") (simp_all add: recv_response_def header_fields Let_def)
qed

text \<open>
  The responses printed are the answers of the server in order, one per id, when every request is sent in one
  piece and the answers are there.
\<close>

lemma test_loop_prints:
  assumes "0 \<notin> set ids" and "stream k = concat (map (\<lambda>(ts, ty, p, u). frame ts ty p u) answers)"
    and "\<forall>(ts, ty, p, u)\<in>set answers. length p < 2 ^ 32" and "length answers = length ids"
  shows "\<exists>sent'. test_loop ids (map (\<lambda>_. (now, [32])) ids) k sent = Some (sent', map (\<lambda>(ts, ty, p, u). (ty, p)) answers)"
  using assms
proof (induction ids arbitrary: k sent answers)
  case (Cons i ids)
  then obtain ts ty p u answers' where a: "answers = (ts, ty, p, u) # answers'"
    by (cases answers) auto
  with Cons.prems obtain k' where k': "recv_response k = (Some (ty, p), k')"
    "stream k' = concat (map (\<lambda>(ts, ty, p, u). frame ts ty p u) answers')"
    using recv_response_frame [of k ts ty p u] by auto
  let ?h = "write_header now (code GET_USER_GROUPS) 0 i"
  have "length ?h = Suc 31" by (simp add: HEADER_SIZE_def)
  then obtain b bs where h: "?h = b # bs" "length bs = 31" by (auto simp only: length_Suc_conv)
  have "send_all [32] ?h [] = Some (True, ?h, [])" unfolding h(1) using h(2) by simp
  then have "send_header_and_payload now [32] (code GET_USER_GROUPS) [] i = Some (True, ?h, [])"
    by (simp add: send_header_and_payload_def del: code.simps)
  moreover obtain sent' where "test_loop ids (map (\<lambda>_. (now, [32])) ids) k' (sent @ ?h) =
      Some (sent', map (\<lambda>(ts, ty, p, u). (ty, p)) answers')"
    using Cons.IH [of k' answers' "sent @ ?h"] Cons.prems a k'(2) by auto
  ultimately show ?case using Cons.prems(1) a k'(1) by (simp del: code.simps)
qed simp

lemma test_main_prints:
  assumes "0 \<le> fd" and "addr_ok ''127.0.0.1''" and "conn_ok ''127.0.0.1'' 8080" and "0 \<notin> set ids"
    and "stream k = concat (map (\<lambda>(ts, ty, p, u). frame ts ty p u) answers)"
    and "\<forall>(ts, ty, p, u)\<in>set answers. length p < 2 ^ 32" and "length answers = length ids"
  shows "\<exists>sent. test_main [] fd addr_ok conn_ok ids (map (\<lambda>_. (now, [32])) ids) k =
    Some (0, sent, map (\<lambda>(ts, ty, p, u). (ty, p)) answers)"
  using test_loop_prints [OF assms(4-7), of now "[]"] assms(1-3)
  by (auto simp: test_main_def connect_to_server_def)

end
