(* ===== verification/Spec2Isabelle.thy ===== *)
theory Spec2Isabelle
  imports
    Server_Invariants Social_Graph Group_Safety Delivery Thread_Races Session_Properties Robustness Database_Properties
    Activity_Log Client_Protocol Client_Serializer Client_Server Client_Socket Client_Crypto Fips_180_4
    Native_Lib Client_Machine End_To_End Test_Client
begin

text \<open>
  \<^bold>\<open>A verification library for the chat server and its native client.\<close>

  The program is a chat system: a C++ server (\<^verbatim>\<open>src/server-cpp\<close>) that speaks a binary protocol over TCP,
  keeps its users, friendships, groups and queued messages in memory and, when it can connect to it, in a
  PostgreSQL database; and the native part of an Android client (\<^verbatim>\<open>src/app/src/main/cpp\<close>) that speaks the
  same protocol.

  \<^bold>\<open>Theories and the code they model.\<close>

  \<^item> \<open>Chat_Prelude\<close>, \<open>Cpp_Std\<close>: computations with a state and C++ exceptions, unordered maps, and the parts
    of the C++ standard library the sources use. \<open>Chat_Samples\<close>: a concrete environment for instances.
  \<^item> \<open>Chat_Utils\<close>: \<^verbatim>\<open>utils.cpp\<close> (the key-value payloads, base64). \<open>Chat_Protocol\<close>, \<open>Chat_Network\<close>:
    \<^verbatim>\<open>protocol.h\<close>, \<^verbatim>\<open>network_utils.cpp\<close> and the frame reader at the top of \<^verbatim>\<open>handle_client\<close>.
  \<^item> \<open>Chat_Data\<close>: \<^verbatim>\<open>data_models.h\<close>. \<open>Pg_Persistence\<close>: every operation of \<^verbatim>\<open>persistence_pg.cpp\<close> over libpq
    as a parameter. \<open>File_Persistence\<close>: \<^verbatim>\<open>persistence.cpp\<close>. \<open>Activity_Log\<close>: the text \<^verbatim>\<open>logger.cpp\<close> writes.
  \<^item> \<open>Server_State\<close>: \<^verbatim>\<open>server_state.cpp\<close>; the record \<open>server\<close> holds its globals, the users file, the messages
    sent (\<open>outbox\<close>) and the log entries (\<open>activity\<close>).
  \<^item> \<open>Session_Handlers\<close>, \<open>Friend_Handlers\<close>, \<open>Message_Handlers\<close>, \<open>Group_Handlers\<close>: one definition per branch of
    the \<^verbatim>\<open>switch\<close> of \<^verbatim>\<open>handle_client\<close> in \<^verbatim>\<open>message_handler.cpp\<close>, named \<open>handle_\<close> and the message type.
  \<^item> \<open>Server_Loop\<close>: the \<^verbatim>\<open>switch\<close> itself (\<open>dispatch\<close>), the receive loop (\<open>serve\<close>, \<open>handle_client\<close>), \<^verbatim>\<open>main.cpp\<close>
    (\<open>startup\<close>, \<open>open_server\<close>, \<open>accept_loop\<close>), and the server with all its connections as a step relation (\<open>step\<close>, \<open>reachable\<close>).
    \<open>Server_Threads\<close>: the branches that deliver messages or change users, friendships or groups, cut where they
    release \<^verbatim>\<open>g_mutex\<close>. \<open>Thread_Pool\<close>: the threads of all connections as a step relation over the pieces
    (\<open>pool_step\<close>). \<open>Group_Threads\<close> and \<open>Thread_Races\<close> hold lemmas about both.
  \<^item> \<open>Client_Protocol\<close>: \<^verbatim>\<open>protocol_handler.cpp\<close>. \<open>Client_Serializer\<close>: \<^verbatim>\<open>message_serializer.cpp\<close>.
    \<open>Client_Socket\<close>: \<^verbatim>\<open>socket_manager.cpp\<close>, the connection and its receive thread. \<open>Client_Crypto\<close>:
    \<^verbatim>\<open>crypto_utils.cpp\<close>. \<open>Native_Lib\<close>: \<^verbatim>\<open>native-lib.cpp\<close>, the functions Java calls over the four objects, and the
    callback to Java. \<open>Client_Machine\<close>: the same functions and the receive thread as two threads over the shared
    objects, as a step relation. \<open>Test_Client\<close>: \<^verbatim>\<open>tools/test_client.cpp\<close>.
  \<^item> \<open>Fips_180_4\<close>, \<open>Social_Graph\<close> and \<open>Group_Spec\<close> hold specifications: SHA-256 as the standard defines it, the
    graph of friendships and requests with its events, and the hall of rooms with the group events and their
    guards.

  \<^bold>\<open>How the parts interact.\<close> \<^verbatim>\<open>nativeSendMessage\<close> writes a frame with \<open>createMessage\<close>, \<open>sendData\<close> hands it to the
  network, \<open>read_frame\<close> reads it in \<open>serve\<close>, \<open>dispatch\<close> runs a handler on the server's tables, whose replies
  \<open>send_message\<close> writes as frames, \<open>receiveLoop\<close> reassembles and \<open>onDataReceived\<close> hands to Java.

  \<^bold>\<open>Interfaces.\<close> \<open>unordered_map\<close> (implemented by association lists and by sorted ones), \<open>kv_codec\<close> (implemented
  by the server and by the client), \<open>tcp_stream\<close> (implemented by the receive queue of a socket), and two chains
  that start at \<open>quiet_inv\<close>, a predicate that survives sending, queueing, logging and querying: \<open>group_inv\<close> and
  \<open>comm_inv\<close> also survive the announcements to one group and to all groups; \<open>table_inv\<close> survives every request but
  a login and those that change groups, \<open>account_inv\<close> a login too, \<open>memory_inv\<close> the changes of groups; \<open>server_inv\<close> and
  \<open>boot_inv\<close> are the contracts of an invariant of every reachable configuration and of the process from its start;
  \<open>thread_inv\<close> is the contract of an invariant of all threads. The invariants and the refinements are interpretations
  of these contracts.

  \<^bold>\<open>What is shown.\<close> \<open>Server_Invariants\<close>: symmetric friendships, distinct pending requests, keyed user maps, in
  every reachable configuration. \<open>Group_Spec\<close>: every request refines an event of the hall of rooms.
  \<open>Group_Safety\<close>: who can gain and lose membership and admin rights, from the guards of that specification.
  \<open>Delivery\<close>: who receives a message, exactly once, on a socket or at the next login, however much later. \<open>Server_Threads\<close> and \<open>Group_Threads\<close>:
  a thread that is not interrupted does what its handler does, and every thread ends. \<open>Thread_Pool\<close>: however the
  threads interleave no message is lost or doubled on its way, and every critical section is an event of the graph
  or leaves it alone. \<open>Thread_Races\<close>: who makes an admin creates the group or has been an admin; but a message may
  go to a descriptor that now belongs to somebody else, or into the queue of somebody who has just logged in, an
  account that has just been removed from a group may still make an admin, who enters a group while it is created
  may be lost, and an invitation may bring an erased group back. \<open>Session_Properties\<close>:
  how a connection gets its identity, registration and search. \<open>Robustness\<close>: which requests are answered and
  which ones end the process, and that the loop of a connection ends. \<open>Social_Graph\<close>: every request refines an
  event of the graph, so the graph's invariants hold of the server. \<open>Database_Properties\<close>: transactions, quoting, the order
  of histories. The
  theories of the codecs show round trips and the agreement of client and server. \<open>Client_Server\<close>: what the
  client serializes is what the handlers read and the other way round, and one request where it is not.
  \<open>Client_Socket\<close>, \<open>Native_Lib\<close>: messages in both directions between Java and the server arrive whole, once and
  in order; encryption and decryption between Java strings; what a reconnection loses. \<open>Client_Machine\<close>: the
  interleavings of the Java thread and the receive thread never free what the receive thread uses, but for the
  callback object, and on every run calls that wait for it return once its \<^verbatim>\<open>recv\<close> does; without interference it does what the sequential model
  says. \<open>End_To_End\<close>: a login and a chat message from the Java strings of one app to those of another.
  \<open>Fips_180_4\<close>: the SHA-256 of the client is the standard's.

  \<^bold>\<open>Choices.\<close> A C++ \<^verbatim>\<open>int\<close> is an integer in the 32-bit range, the atomic counters wrap around, header fields are
  words of their width. Every function is total: the receive loop ends because each frame takes bytes from the
  stream, and no fuel is used. A \<^verbatim>\<open>send\<close> that never returns is the end of a script of return values, so
  \<open>send_all\<close> and \<open>sendData\<close> then have no result; in the same way a \<^verbatim>\<open>join\<close> that never returns and undefined
  behaviour in the client are the value \<open>None\<close>. In the client \<^verbatim>\<open>size_t\<close> and \<^verbatim>\<open>unsigned long\<close> have 64 bits, as on
  \<^verbatim>\<open>arm64-v8a\<close> and \<^verbatim>\<open>x86_64\<close>. The app is also built for two targets where they have 32: there the receive loop does the
  same for payloads below \<open>2\<^sup>3\<^sup>2 - 32\<close> bytes, but a header that announces exactly that many makes it loop for ever
  (\<open>drain_pass_32\<close>, \<open>drain_spins_32\<close>), and \<open>sha256\<close> would lose chunks of inputs of 512 MiB and more. Random
  bytes, the clock and the results of system calls are arguments. The order in which a loop visits an unordered map is a permutation given by
  the environment, and no theorem depends on it. A read of an uninitialised field (\<^verbatim>\<open>is_online\<close> and
  \<^verbatim>\<open>last_seen\<close> of a cached user, \<^verbatim>\<open>socket_fd\<close> of a row) is a fixed value: nothing reads these fields.

  \<^bold>\<open>What is not modelled.\<close> But for \<open>Thread_Pool\<close> a handler is one atomic step: the mutex is taken and released
  inside the branches. Interleavings within the branches that only read (searches, lists and histories), with a
  database, or between the bytes of two messages to one socket are not covered, nor are data races on
  \<^verbatim>\<open>g_groups\<close> and \<^verbatim>\<open>g_users_by_id\<close> where
  a branch reads them without the lock. In the client one Java thread makes the calls, one after the other:
  calls from several Java threads at a time, and what \<^verbatim>\<open>socketMutex\<close> then orders, are not covered; a step of
  \<open>Client_Machine\<close> is one access to the shared objects. Diagnostics on the console and \<^verbatim>\<open>setsockopt\<close> are left out. libpq,
  PostgreSQL, the network and the strings of the Java virtual machine are parameters with the documented
  behaviour as hypotheses. The Kotlin application, the SQL schema and the deployment files are not C++ code,
  and the CMake output is generated.
\<close>

end
